theory Spec2Isabelle
  imports Complex_Main "HOL-Library.Char_ord" "HOL-Library.List_Lexorder" "HOL-Library.Option_ord"
begin

section \<open>JavaScript values and string helpers\<close>

text \<open>
  Times are milliseconds since the epoch. A JavaScript number or Date that may be
  \<open>null\<close>, or present but unusable (\<open>NaN\<close>, \<open>Invalid Date\<close>), is a \<open>jsval\<close>;
  a value that is only ever \<open>null\<close> or a proper number is an \<open>option\<close>.
  Numbers are exact (integers, rationals): the model coincides with IEEE doubles on the
  integers below \<open>2^53\<close> that the provider's fields hold.
\<close>

type_synonym time = int

datatype 'a jsval = Null | Invalid | Val 'a

text \<open>An exception of the source: \<open>new Error(message)\<close>.\<close>

datatype error = JsError string

definition isDigit :: "char \<Rightarrow> bool" where
  "isDigit c = (c \<in> set ''0123456789'')"

definition isHexDigit :: "char \<Rightarrow> bool" where
  "isHexDigit c = (c \<in> set ''0123456789abcdefABCDEF'')"

text \<open>White space and line terminators of the ASCII range, as \<open>trim\<close> and \<open>parseInt\<close> skip them.\<close>

definition isSpace :: "char \<Rightarrow> bool" where
  "isSpace c = (c \<in> {CHR '' '', CHR 0x09, CHR 0x0A, CHR 0x0B, CHR 0x0C, CHR 0x0D})"

definition digitVal :: "char \<Rightarrow> int" where
  "digitVal c =
     (case map_of (zip ''0123456789abcdef'' [0, 1, 2, 3, 4, 5, 6, 7, 8, 9, 10, 11, 12, 13, 14, 15]) c of
        Some v \<Rightarrow> v
      | None \<Rightarrow>
         (case map_of (zip ''ABCDEF'' [10, 11, 12, 13, 14, 15]) c of Some v \<Rightarrow> v | None \<Rightarrow> 0))"

definition numeral_value :: "int \<Rightarrow> string \<Rightarrow> int" where
  "numeral_value radix ds = foldl (\<lambda>a c. radix * a + digitVal c) 0 ds"

text \<open>
  \<open>parseInt(s)\<close> without a radix: leading white space is skipped, a sign is read, a
  \<open>0x\<close> prefix selects radix 16, and the longest prefix of digits is converted. The
  result \<open>None\<close> is \<open>NaN\<close>.
\<close>

definition parseInt :: "string \<Rightarrow> int option" where
  "parseInt s =
     (let t = dropWhile isSpace s;
          neg = (t \<noteq> [] \<and> hd t = CHR ''-'');
          u = (if t \<noteq> [] \<and> (hd t = CHR ''-'' \<or> hd t = CHR ''+'') then tl t else t);
          hex = (2 \<le> length u \<and> hd u = CHR ''0'' \<and> (u ! 1 = CHR ''x'' \<or> u ! 1 = CHR ''X''));
          ds = (if hex then takeWhile isHexDigit (drop 2 u) else takeWhile isDigit u);
          v = numeral_value (if hex then 16 else 10) ds
      in if ds = [] then None else Some (if neg then - v else v))"

text \<open>\<open>str.match(/(\d+)/)\<close>: the first maximal run of digits, if there is one.\<close>

fun match_digits :: "string \<Rightarrow> string option" where
  "match_digits [] = None"
| "match_digits (c # cs) =
     (if isDigit c then Some (takeWhile isDigit (c # cs)) else match_digits cs)"

text \<open>
  \<open>str.match(/(\d+)%/)\<close>: the leftmost position from which a run of digits is followed
  by a percent sign; the group is that run. A greedy run that is not followed by \<open>%\<close>
  cannot match after backtracking, since a shorter run is followed by a digit.
\<close>

definition percent_here :: "string \<Rightarrow> string option" where
  "percent_here s =
     (let run = takeWhile isDigit s; rest = dropWhile isDigit s
      in if run \<noteq> [] \<and> rest \<noteq> [] \<and> hd rest = CHR ''%'' then Some run else None)"

fun match_percent :: "string \<Rightarrow> string option" where
  "match_percent [] = None"
| "match_percent (c # cs) =
     (case percent_here (c # cs) of Some run \<Rightarrow> Some run | None \<Rightarrow> match_percent cs)"

text \<open>\<open>str.split(', ')\<close>; the first argument accumulates the current piece, reversed.\<close>

fun split_comma_space :: "string \<Rightarrow> string \<Rightarrow> string list" where
  "split_comma_space cur [] = [rev cur]"
| "split_comma_space cur [c] = [rev (c # cur)]"
| "split_comma_space cur (c # d # cs) =
     (if c = CHR '','' \<and> d = CHR '' '' then rev cur # split_comma_space [] cs
      else split_comma_space (c # cur) (d # cs))"

definition split :: "string \<Rightarrow> string list" where
  "split s = split_comma_space [] s"

text \<open>\<open>str.replace(/,/g, '')\<close>.\<close>

definition remove_commas :: "string \<Rightarrow> string" where
  "remove_commas s = filter (\<lambda>c. c \<noteq> CHR '','') s"

text \<open>\<open>str.trim()\<close>, over the ASCII white space.\<close>

definition trim :: "string \<Rightarrow> string" where
  "trim s = rev (dropWhile isSpace (rev (dropWhile isSpace s)))"

text \<open>\<open>str.toLowerCase()\<close>, over the ASCII letters.\<close>

definition lowerChar :: "char \<Rightarrow> char" where
  "lowerChar c =
     (case map_of (zip ''ABCDEFGHIJKLMNOPQRSTUVWXYZ'' ''abcdefghijklmnopqrstuvwxyz'') c of
        Some l \<Rightarrow> l
      | None \<Rightarrow> c)"

definition toLowerCase :: "string \<Rightarrow> string" where
  "toLowerCase s = map lowerChar s"

section \<open>The provider's raw record and its normalisation\<close>

text \<open>
  The detail record of the metadata provider, every field a string as the provider sends
  it, the list of secondary ratings as (\<open>Source\<close>, \<open>Value\<close>) pairs or absent.
\<close>

record omdb_movie =
  omdb_imdbID :: string
  Title :: string
  Year :: string
  Released :: string
  Runtime :: string
  Genre :: string
  Director :: string
  Writer :: string
  Actors :: string
  Plot :: string
  Language :: string
  Country :: string
  imdbRating :: string
  imdbVotes :: string
  Ratings :: "(string \<times> string) list option"
  Poster :: string
  Rated :: string
  Type :: string

text \<open>The normalised record, the result of \<open>transformOMDBData\<close>; nested paths are flattened.\<close>

record movie_data =
  imdbID :: string
  title :: string
  year :: "int option"
  released :: "time jsval"
  runtime :: "int option"
  genre :: "string list"
  director :: "string list"
  writer :: "string list"
  actors :: "string list"
  plot :: string
  language :: "string list"
  country :: "string list"
  rating_imdb_score :: "rat jsval"
  rating_imdb_votes :: "int jsval"
  rating_rottenTomatoes_score :: "int option"
  rating_metacritic_score :: "int option"
  poster :: "string option"
  rated :: "string option"
  type :: string
  links_imdb :: string
  source :: string

text \<open>
  The two library functions of JavaScript that normalisation calls on provider text and
  that are not modelled digit by digit: \<open>parseFloat\<close> and the \<open>Date\<close> constructor.
  \<open>None\<close> is \<open>NaN\<close>, respectively \<open>Invalid Date\<close>.
\<close>

record jslib =
  parseFloat :: "string \<Rightarrow> rat option"
  newDate :: "string \<Rightarrow> time option"

definition of_nan :: "'a option \<Rightarrow> 'a jsval" where
  "of_nan v = (case v of None \<Rightarrow> Invalid | Some x \<Rightarrow> Val x)"

text \<open>\<open>v || null\<close> on a number: \<open>NaN\<close> and zero are falsy.\<close>

definition or_null :: "int option \<Rightarrow> int option" where
  "or_null v = (case v of None \<Rightarrow> None | Some n \<Rightarrow> if n = 0 then None else Some n)"

definition parseRuntime :: "string \<Rightarrow> int option" where
  "parseRuntime runtimeStr =
     (if runtimeStr = [] \<or> runtimeStr = ''N/A'' then None
      else case match_digits runtimeStr of Some m \<Rightarrow> parseInt m | None \<Rightarrow> None)"

definition extractRating :: "(string \<times> string) list option \<Rightarrow> string \<Rightarrow> int option" where
  "extractRating ratings src =
     (case ratings of
        None \<Rightarrow> None
      | Some rs \<Rightarrow>
         (case find (\<lambda>r. fst r = src) rs of
            None \<Rightarrow> None
          | Some r \<Rightarrow>
             if src = ''Rotten Tomatoes'' then
               (case match_percent (snd r) of Some m \<Rightarrow> parseInt m | None \<Rightarrow> None)
             else if src = ''Metacritic'' then
               (case match_digits (snd r) of Some m \<Rightarrow> parseInt m | None \<Rightarrow> None)
             else None))"

definition transformOMDBData :: "jslib \<Rightarrow> omdb_movie \<Rightarrow> movie_data" where
  "transformOMDBData js omdbMovie =
     \<lparr> imdbID = omdb_imdbID omdbMovie,
       title = Title omdbMovie,
       year = or_null (parseInt (Year omdbMovie)),
       released = (if Released omdbMovie \<noteq> ''N/A'' then of_nan (newDate js (Released omdbMovie)) else Null),
       runtime = parseRuntime (Runtime omdbMovie),
       genre = (if Genre omdbMovie \<noteq> ''N/A'' then split (Genre omdbMovie) else []),
       director = (if Director omdbMovie \<noteq> ''N/A'' then split (Director omdbMovie) else []),
       writer = (if Writer omdbMovie \<noteq> ''N/A'' then split (Writer omdbMovie) else []),
       actors = (if Actors omdbMovie \<noteq> ''N/A'' then split (Actors omdbMovie) else []),
       plot = (if Plot omdbMovie \<noteq> ''N/A'' then Plot omdbMovie else []),
       language = (if Language omdbMovie \<noteq> ''N/A'' then split (Language omdbMovie) else []),
       country = (if Country omdbMovie \<noteq> ''N/A'' then split (Country omdbMovie) else []),
       rating_imdb_score =
         (if imdbRating omdbMovie \<noteq> ''N/A'' then of_nan (parseFloat js (imdbRating omdbMovie)) else Null),
       rating_imdb_votes =
         (if imdbVotes omdbMovie \<noteq> ''N/A'' then of_nan (parseInt (remove_commas (imdbVotes omdbMovie)))
          else Null),
       rating_rottenTomatoes_score = extractRating (Ratings omdbMovie) ''Rotten Tomatoes'',
       rating_metacritic_score = extractRating (Ratings omdbMovie) ''Metacritic'',
       poster = (if Poster omdbMovie \<noteq> ''N/A'' then Some (Poster omdbMovie) else None),
       rated = (if Rated omdbMovie \<noteq> ''N/A'' then Some (Rated omdbMovie) else None),
       type = (if Type omdbMovie \<noteq> [] then Type omdbMovie else ''movie''),
       links_imdb = ''https://www.imdb.com/title/'' @ omdb_imdbID omdbMovie @ ''/'',
       source = ''omdb'' \<rparr>"

section \<open>The store: schema, documents and queries\<close>

text \<open>
  A stored document: the normalised fields, plus the fields of the schema that
  normalisation never sets. \<open>Object.assign(doc, movieData)\<close> replaces \<open>data\<close> and
  leaves the rest.
\<close>

record movie_doc =
  data :: movie_data
  tmdbID :: "string option"
  images :: "string list"
  cacheExpiry :: "time option"
  lastUpdated :: "time option"
  createdAt :: time
  updatedAt :: time

text \<open>\<open>24 * 60 * 60 * 1000\<close> milliseconds.\<close>

definition ttl :: time where
  "ttl = 24 * 60 * 60 * 1000"

text \<open>
  The process and its surroundings: the JavaScript library functions, the provider
  credential, the provider's answers to the two kinds of request (\<open>Inl\<close> is the message
  of a rejected \<open>axios.get\<close>: time-out, network or HTTP failure), the store's text index
  on title and plot, and the largest year the schema admits, computed once when the
  schema is loaded (\<open>new Date().getFullYear() + 5\<close>).
\<close>

datatype search_response =
  SearchFalse "string option"
| SearchTrue "string list option" "string option"

datatype detail_response =
  DetailFalse "string option"
| DetailTrue omdb_movie

record env =
  js :: jslib
  omdbApiKey :: "string option"
  http_search :: "string \<Rightarrow> int \<Rightarrow> string + search_response"
  http_detail :: "string \<Rightarrow> string + detail_response"
  textMatch :: "string \<Rightarrow> movie_doc \<Rightarrow> bool"
  textScore :: "string \<Rightarrow> movie_doc \<Rightarrow> rat"
  maxYear :: int

text \<open>
  \<open>SearchFalse e\<close> is a body with \<open>Response === 'False'\<close> and \<open>Error\<close> \<open>e\<close>;
  \<open>SearchTrue s t\<close> carries \<open>Search\<close> (the identifiers of the summaries, the only field of a
  summary the service reads) and \<open>totalResults\<close>.

  The mutable state: the collection in insertion order, the clock, whether the store
  is failing (then every store operation throws the given message), and the log of the
  requests sent to the provider.
\<close>

datatype request = SearchRequest string int | DetailRequest string

record world =
  docs :: "movie_doc list"
  now :: time
  store_fault :: "string option"
  requests :: "request list"

subsection \<open>Schema setters, defaults and validators (models/Movie.js)\<close>

text \<open>The string paths declared with \<open>trim: true\<close> are trimmed when they are set.\<close>

definition cast_data :: "movie_data \<Rightarrow> movie_data" where
  "cast_data m =
     m \<lparr> title := trim (title m),
         genre := map trim (genre m),
         director := map trim (director m),
         writer := map trim (writer m),
         actors := map trim (actors m),
         plot := trim (plot m),
         language := map trim (language m),
         country := map trim (country m),
         poster := map_option trim (poster m),
         rated := map_option trim (rated m) \<rparr>"

text \<open>
  The validators of the schema: \<open>required\<close>, \<open>min\<close>, \<open>max\<close>, \<open>enum\<close>; a \<open>NaN\<close> or an
  \<open>Invalid Date\<close> fails the cast to \<open>Number\<close> or \<open>Date\<close>.
\<close>

definition valid_data :: "env \<Rightarrow> movie_data \<Rightarrow> bool" where
  "valid_data e m =
     (imdbID m \<noteq> [] \<and>
      title m \<noteq> [] \<and>
      (case year m of None \<Rightarrow> False | Some y \<Rightarrow> 1888 \<le> y \<and> y \<le> maxYear e) \<and>
      released m \<noteq> Invalid \<and>
      (case runtime m of None \<Rightarrow> True | Some r \<Rightarrow> 1 \<le> r) \<and>
      (case rating_imdb_score m of Null \<Rightarrow> True | Invalid \<Rightarrow> False | Val v \<Rightarrow> 0 \<le> v \<and> v \<le> 10) \<and>
      (case rating_imdb_votes m of Null \<Rightarrow> True | Invalid \<Rightarrow> False | Val v \<Rightarrow> 0 \<le> v) \<and>
      (case rating_rottenTomatoes_score m of None \<Rightarrow> True | Some v \<Rightarrow> 0 \<le> v \<and> v \<le> 100) \<and>
      (case rating_metacritic_score m of None \<Rightarrow> True | Some v \<Rightarrow> 0 \<le> v \<and> v \<le> 100) \<and>
      type m \<in> {''movie'', ''series'', ''episode''} \<and>
      source m \<in> {''omdb'', ''tmdb''})"

text \<open>
  \<open>new Movie(movieData)\<close>: the setters run, and the defaults of \<open>cacheExpiry\<close> and
  \<open>lastUpdated\<close> read the clock. \<open>timestamps: true\<close> stamps \<open>createdAt\<close> and
  \<open>updatedAt\<close> when the document is saved.
\<close>

definition new_Movie :: "movie_data \<Rightarrow> time \<Rightarrow> movie_doc" where
  "new_Movie movieData t =
     \<lparr> data = cast_data movieData,
       tmdbID = None,
       images = [],
       cacheExpiry = Some (t + ttl),
       lastUpdated = Some t,
       createdAt = t,
       updatedAt = t \<rparr>"

definition has_id :: "string \<Rightarrow> movie_doc \<Rightarrow> bool" where
  "has_id i d = (imdbID (data d) = i)"

subsection \<open>Store operations\<close>

definition store_error :: "world \<Rightarrow> error option" where
  "store_error w = map_option JsError (store_fault w)"

definition findOne :: "(movie_doc \<Rightarrow> bool) \<Rightarrow> world \<Rightarrow> error + movie_doc option" where
  "findOne q w =
     (case store_error w of Some e \<Rightarrow> Inl e | None \<Rightarrow> Inr (find q (docs w)))"

definition countDocuments :: "(movie_doc \<Rightarrow> bool) \<Rightarrow> world \<Rightarrow> error + int" where
  "countDocuments q w =
     (case store_error w of Some e \<Rightarrow> Inl e | None \<Rightarrow> Inr (int (length (filter q (docs w)))))"

text \<open>\<open>Movie.deleteMany(q)\<close>: removes the matching documents and reports how many.\<close>

definition deleteMany :: "(movie_doc \<Rightarrow> bool) \<Rightarrow> world \<Rightarrow> (error + int) \<times> world" where
  "deleteMany q w =
     (case store_error w of
        Some e \<Rightarrow> (Inl e, w)
      | None \<Rightarrow>
         (Inr (int (length (filter q (docs w)))),
          w\<lparr>docs := filter (\<lambda>d. \<not> q d) (docs w)\<rparr>))"

text \<open>
  \<open>doc.save()\<close> of a new document: validation, then the insert, which the unique index
  on \<open>imdbID\<close> rejects when the identifier is already stored.
\<close>

definition save_new :: "env \<Rightarrow> movie_doc \<Rightarrow> world \<Rightarrow> (error + movie_doc) \<times> world" where
  "save_new e d w =
     (if \<not> valid_data e (data d) then (Inl (JsError ''Movie validation failed''), w)
      else case store_error w of
        Some err \<Rightarrow> (Inl err, w)
      | None \<Rightarrow>
         if \<exists>x \<in> set (docs w). has_id (imdbID (data d)) x
         then (Inl (JsError ''E11000 duplicate key error''), w)
         else (Inr d, w\<lparr>docs := docs w @ [d]\<rparr>))"

text \<open>Replaces the first document that satisfies the predicate.\<close>

fun replace_first :: "('a \<Rightarrow> bool) \<Rightarrow> 'a \<Rightarrow> 'a list \<Rightarrow> 'a list" where
  "replace_first P y [] = []"
| "replace_first P y (x # xs) = (if P x then y # xs else x # replace_first P y xs)"

text \<open>
  \<open>doc.save()\<close> of a document that \<open>findOne({ imdbID: i })\<close> returned and the caller
  changed: validation, then the stored document is replaced in place; the unique index
  rejects a changed identifier that another document holds.
\<close>

definition save_existing ::
  "env \<Rightarrow> string \<Rightarrow> movie_doc \<Rightarrow> world \<Rightarrow> (error + movie_doc) \<times> world" where
  "save_existing e i d w =
     (if \<not> valid_data e (data d) then (Inl (JsError ''Movie validation failed''), w)
      else case store_error w of
        Some err \<Rightarrow> (Inl err, w)
      | None \<Rightarrow>
         if imdbID (data d) \<noteq> i \<and> (\<exists>x \<in> set (docs w). has_id (imdbID (data d)) x)
         then (Inl (JsError ''E11000 duplicate key error''), w)
         else
           (let d' = d\<lparr>updatedAt := now w\<rparr>
            in (Inr d', w\<lparr>docs := replace_first (has_id i) d' (docs w)\<rparr>)))"

text \<open>The condition \<open>cacheExpiry: { $gt: new Date() }\<close>; an absent date matches no comparison.\<close>

definition isActive :: "time \<Rightarrow> movie_doc \<Rightarrow> bool" where
  "isActive t d = (case cacheExpiry d of None \<Rightarrow> False | Some x \<Rightarrow> t < x)"

text \<open>The condition \<open>cacheExpiry: { $lt: new Date() }\<close>.\<close>

definition isExpired :: "time \<Rightarrow> movie_doc \<Rightarrow> bool" where
  "isExpired t d = (case cacheExpiry d of None \<Rightarrow> False | Some x \<Rightarrow> x < t)"

text \<open>
  A stable sort by a comparison: \<open>le a b\<close> says that \<open>a\<close> may stand before \<open>b\<close>;
  elements that compare equal keep their order.
\<close>

fun insert_by :: "('a \<Rightarrow> 'a \<Rightarrow> bool) \<Rightarrow> 'a \<Rightarrow> 'a list \<Rightarrow> 'a list" where
  "insert_by le x [] = [x]"
| "insert_by le x (y # ys) = (if le x y then x # y # ys else y # insert_by le x ys)"

definition sort_by :: "('a \<Rightarrow> 'a \<Rightarrow> bool) \<Rightarrow> 'a list \<Rightarrow> 'a list" where
  "sort_by le xs = foldr (insert_by le) xs []"

subsection \<open>Query objects\<close>

text \<open>
  A condition on one numeric or date path is an object of comparison operators, such as
  \<open>{ $gte: a, $lte: b }\<close>; a document satisfies it when its value satisfies every
  operator of the object. A path that is \<open>null\<close> or absent satisfies no comparison with
  a number or a date.
\<close>

datatype cmp = Eq | Gt | Gte | Lt | Lte

type_synonym 'a cond = "(cmp \<times> 'a) list"

fun cmp_holds :: "cmp \<Rightarrow> 'a::linorder \<Rightarrow> 'a \<Rightarrow> bool" where
  "cmp_holds Eq v b = (v = b)"
| "cmp_holds Gt v b = (b < v)"
| "cmp_holds Gte v b = (b \<le> v)"
| "cmp_holds Lt v b = (v < b)"
| "cmp_holds Lte v b = (v \<le> b)"

definition cond_holds :: "('a::linorder) cond \<Rightarrow> 'a option \<Rightarrow> bool" where
  "cond_holds c v =
     list_all (\<lambda>(opr, b). case v of None \<Rightarrow> False | Some x \<Rightarrow> cmp_holds opr x b) c"

text \<open>\<open>{ ...c, $op: b }\<close>: the spread keeps the other operators and sets this one.\<close>

definition with_op :: "cmp \<Rightarrow> 'a \<Rightarrow> 'a cond \<Rightarrow> 'a cond" where
  "with_op opr b c = filter (\<lambda>(o', _). o' \<noteq> opr) c @ [(opr, b)]"

definition num_of :: "'a jsval \<Rightarrow> 'a option" where
  "num_of v = (case v of Val x \<Rightarrow> Some x | _ \<Rightarrow> None)"

text \<open>
  The query objects that the service builds: the paths it ever constrains. An empty
  condition list and \<open>None\<close> mean that the query does not mention the path.
\<close>

record query =
  q_cacheExpiry :: "time cond"
  q_text :: "string option"
  q_genre_in :: "string list option"
  q_genre_nin :: "string list option"
  q_year :: "int cond"
  q_score :: "rat cond"
  q_createdAt :: "time cond"

definition empty_query :: query where
  "empty_query =
     \<lparr> q_cacheExpiry = [], q_text = None, q_genre_in = None, q_genre_nin = None,
       q_year = [], q_score = [], q_createdAt = [] \<rparr>"

text \<open>
  \<open>$in\<close> on the array path \<open>genre\<close> holds when some element of the array is listed,
  \<open>$nin\<close> when none is.
\<close>

definition matches :: "env \<Rightarrow> query \<Rightarrow> movie_doc \<Rightarrow> bool" where
  "matches e q d =
     (cond_holds (q_cacheExpiry q) (cacheExpiry d) \<and>
      (case q_text q of None \<Rightarrow> True | Some term \<Rightarrow> textMatch e term d) \<and>
      (case q_genre_in q of None \<Rightarrow> True | Some gs \<Rightarrow> \<exists>g \<in> set (genre (data d)). g \<in> set gs) \<and>
      (case q_genre_nin q of None \<Rightarrow> True | Some gs \<Rightarrow> \<forall>g \<in> set (genre (data d)). g \<notin> set gs) \<and>
      cond_holds (q_year q) (year (data d)) \<and>
      cond_holds (q_score q) (num_of (rating_imdb_score (data d))) \<and>
      cond_holds (q_createdAt q) (Some (createdAt d)))"

text \<open>
  Sort specifications: by text relevance (\<open>{ score: { $meta: 'textScore' } }\<close>, best
  first) or by one path with a direction (\<open>1\<close> or \<open>-1\<close>). The store compares strings
  by their code units and puts \<open>null\<close> below every number; the order among documents
  that compare equal is taken to be the natural order.
\<close>

datatype sort_path = P_title | P_year | P_score | P_runtime | P_createdAt

datatype sort_spec = SortTextScore string | SortPath sort_path int

fun path_le :: "sort_path \<Rightarrow> movie_doc \<Rightarrow> movie_doc \<Rightarrow> bool" where
  "path_le P_title a b = (title (data a) \<le> title (data b))"
| "path_le P_year a b = (year (data a) \<le> year (data b))"
| "path_le P_score a b = (num_of (rating_imdb_score (data a)) \<le> num_of (rating_imdb_score (data b)))"
| "path_le P_runtime a b = (runtime (data a) \<le> runtime (data b))"
| "path_le P_createdAt a b = (createdAt a \<le> createdAt b)"

fun store_le :: "env \<Rightarrow> sort_spec \<Rightarrow> movie_doc \<Rightarrow> movie_doc \<Rightarrow> bool" where
  "store_le e (SortTextScore term) a b = (textScore e term b \<le> textScore e term a)"
| "store_le e (SortPath p dir) a b = (if dir < 0 then path_le p b a else path_le p a b)"

text \<open>
  \<open>Movie.find(q).sort(s).skip(k).limit(n)\<close>. The store rejects a negative skip; a
  limit of zero is no limit, a negative limit counts as its absolute value.
\<close>

definition find_sorted ::
  "env \<Rightarrow> query \<Rightarrow> sort_spec \<Rightarrow> int \<Rightarrow> int \<Rightarrow> world \<Rightarrow> error + movie_doc list" where
  "find_sorted e q s skip lmt w =
     (case store_error w of
        Some err \<Rightarrow> Inl err
      | None \<Rightarrow>
         if skip < 0 then Inl (JsError ''Skip value must be non-negative'')
         else
           (let sorted = sort_by (store_le e s) (filter (matches e q) (docs w));
                skipped = drop (nat skip) sorted
            in Inr (if lmt = 0 then skipped else take (nat \<bar>lmt\<bar>) skipped)))"

section \<open>The movie service (services/movieService.js)\<close>

text \<open>A JavaScript string used as a condition: \<open>undefined\<close> and the empty string are falsy.\<close>

definition truthy_str :: "string option \<Rightarrow> bool" where
  "truthy_str v = (case v of None \<Rightarrow> False | Some x \<Rightarrow> x \<noteq> [])"

text \<open>A number used as a condition: \<open>undefined\<close> and zero are falsy.\<close>

definition truthy_num :: "('a::zero) option \<Rightarrow> bool" where
  "truthy_num v = (case v of None \<Rightarrow> False | Some x \<Rightarrow> x \<noteq> 0)"

record omdb_search =
  om_movies :: "string list"
  om_totalResults :: int
  om_error :: "string option"
  om_page :: "int option"

definition searchMoviesOMDB ::
  "env \<Rightarrow> string \<Rightarrow> int \<Rightarrow> world \<Rightarrow> (error + omdb_search) \<times> world" where
  "searchMoviesOMDB e searchTerm page w =
     (if \<not> truthy_str (omdbApiKey e)
      then (Inl (JsError (''Failed to search movies: '' @ ''OMDB API key not configured'')), w)
      else
        (let w' = w\<lparr>requests := requests w @ [SearchRequest searchTerm page]\<rparr>
         in case http_search e searchTerm page of
              Inl msg \<Rightarrow> (Inl (JsError (''Failed to search movies: '' @ msg)), w')
            | Inr (SearchFalse err) \<Rightarrow>
                (Inr \<lparr>om_movies = [], om_totalResults = 0, om_error = err, om_page = None\<rparr>, w')
            | Inr (SearchTrue found tot) \<Rightarrow>
                (Inr \<lparr>om_movies = (case found of None \<Rightarrow> [] | Some ids \<Rightarrow> ids),
                      om_totalResults =
                        (case or_null (case tot of None \<Rightarrow> None | Some t \<Rightarrow> parseInt t) of
                           None \<Rightarrow> 0
                         | Some n \<Rightarrow> n),
                      om_error = None,
                      om_page = Some page\<rparr>, w')))"

definition getMovieDetailsOMDB ::
  "env \<Rightarrow> string \<Rightarrow> world \<Rightarrow> (error + movie_data) \<times> world" where
  "getMovieDetailsOMDB e imdbId w =
     (if \<not> truthy_str (omdbApiKey e)
      then (Inl (JsError (''Failed to fetch movie details: '' @ ''OMDB API key not configured'')), w)
      else
        (let w' = w\<lparr>requests := requests w @ [DetailRequest imdbId]\<rparr>
         in case http_detail e imdbId of
              Inl msg \<Rightarrow> (Inl (JsError (''Failed to fetch movie details: '' @ msg)), w')
            | Inr (DetailFalse err) \<Rightarrow>
                (Inl (JsError (''Failed to fetch movie details: '' @
                        (case err of
                           None \<Rightarrow> ''Movie not found''
                         | Some m \<Rightarrow> if m = [] then ''Movie not found'' else m))), w')
            | Inr (DetailTrue omdbMovie) \<Rightarrow> (Inr (transformOMDBData (js e) omdbMovie), w')))"

definition saveMovieToCache ::
  "env \<Rightarrow> movie_data \<Rightarrow> world \<Rightarrow> (error + movie_doc) \<times> world" where
  "saveMovieToCache e movieData w =
     (case findOne (has_id (imdbID movieData)) w of
        Inl err \<Rightarrow> (Inl (JsError ''Failed to save movie to database''), w)
      | Inr (Some existingMovie) \<Rightarrow>
          (case save_existing e (imdbID movieData)
                  (existingMovie\<lparr>data := cast_data movieData,
                                 cacheExpiry := Some (now w + ttl),
                                 lastUpdated := Some (now w)\<rparr>) w of
             (Inl err, w') \<Rightarrow> (Inl (JsError ''Failed to save movie to database''), w')
           | (Inr d, w') \<Rightarrow> (Inr d, w'))
      | Inr None \<Rightarrow>
          (case save_new e (new_Movie movieData (now w)) w of
             (Inl err, w') \<Rightarrow> (Inl (JsError ''Failed to save movie to database''), w')
           | (Inr d, w') \<Rightarrow> (Inr d, w')))"

text \<open>
  A movie as \<open>searchMovies\<close> returns it: a stored document (\<open>lean()\<close>) on the cache
  path, the normalised record that was just saved on the provider path.
\<close>

datatype movie = Stored movie_doc | Fresh movie_data

record search_result =
  movies :: "movie list"
  totalResults :: int
  res_source :: "string option"
  res_page :: "int option"
  res_error :: "string option"

text \<open>
  One element of \<open>cachePromises\<close>: the details are fetched and saved; a failure of
  either is caught and gives \<open>null\<close>.
\<close>

definition cacheOne :: "env \<Rightarrow> string \<Rightarrow> world \<Rightarrow> movie_data option \<times> world" where
  "cacheOne e i w =
     (case getMovieDetailsOMDB e i w of
        (Inl err, w1) \<Rightarrow> (None, w1)
      | (Inr fullDetails, w1) \<Rightarrow>
          (case saveMovieToCache e fullDetails w1 of
             (Inl err, w2) \<Rightarrow> (None, w2)
           | (Inr d, w2) \<Rightarrow> (Some fullDetails, w2)))"

text \<open>
  \<open>Promise.allSettled(cachePromises)\<close>. The elements run interleaved in the source;
  here they run one after the other, in the order of the provider's list.
\<close>

fun cachePromises :: "env \<Rightarrow> string list \<Rightarrow> world \<Rightarrow> movie_data option list \<times> world" where
  "cachePromises e [] w = ([], w)"
| "cachePromises e (i # is) w =
     (case cacheOne e i w of
        (r, w1) \<Rightarrow> (case cachePromises e is w1 of (rs, w2) \<Rightarrow> (r # rs, w2)))"

definition successfulCaches :: "movie_data option list \<Rightarrow> movie_data list" where
  "successfulCaches rs = map the (filter (\<lambda>r. r \<noteq> None) rs)"

definition cache_query :: "string \<Rightarrow> time \<Rightarrow> query" where
  "cache_query searchTerm t = empty_query\<lparr>q_text := Some searchTerm, q_cacheExpiry := [(Gt, t)]\<rparr>"

definition searchMovies ::
  "env \<Rightarrow> string \<Rightarrow> int \<Rightarrow> bool \<Rightarrow> world \<Rightarrow> (error + search_result) \<times> world" where
  "searchMovies e searchTerm page useCache w =
     (case (if useCache
            then find_sorted e (cache_query searchTerm (now w)) (SortTextScore searchTerm) 0 10 w
            else Inr []) of
        Inl err \<Rightarrow> (Inl err, w)
      | Inr cachedMovies \<Rightarrow>
          if useCache \<and> 0 < length cachedMovies
          then (Inr \<lparr>movies = map Stored cachedMovies,
                     totalResults = int (length cachedMovies),
                     res_source = Some ''cache'',
                     res_page = Some page,
                     res_error = None\<rparr>, w)
          else
            (case searchMoviesOMDB e searchTerm page w of
               (Inl err, w1) \<Rightarrow> (Inl err, w1)
             | (Inr apiResults, w1) \<Rightarrow>
                 if 0 < length (om_movies apiResults)
                 then
                   (case cachePromises e (om_movies apiResults) w1 of
                      (settled, w2) \<Rightarrow>
                        (Inr \<lparr>movies = map Fresh (successfulCaches settled),
                              totalResults = om_totalResults apiResults,
                              res_source = Some ''api'',
                              res_page = Some page,
                              res_error = None\<rparr>, w2))
                 else
                   (Inr \<lparr>movies = [],
                         totalResults = om_totalResults apiResults,
                         res_source = None,
                         res_page = om_page apiResults,
                         res_error = om_error apiResults\<rparr>, w1)))"

text \<open>
  \<open>getMovieById\<close>: an active stored record is returned as it is; otherwise the details
  are fetched and saved.
\<close>

definition getMovieById ::
  "env \<Rightarrow> string \<Rightarrow> world \<Rightarrow> (error + movie_doc \<times> string) \<times> world" where
  "getMovieById e imdbId w =
     (case findOne (\<lambda>d. has_id imdbId d \<and> isActive (now w) d) w of
        Inl err \<Rightarrow> (Inl err, w)
      | Inr (Some movie) \<Rightarrow> (Inr (movie, ''cache''), w)
      | Inr None \<Rightarrow>
          (case getMovieDetailsOMDB e imdbId w of
             (Inl err, w1) \<Rightarrow> (Inl err, w1)
           | (Inr movieData, w1) \<Rightarrow>
               (case saveMovieToCache e movieData w1 of
                  (Inl err, w2) \<Rightarrow> (Inl err, w2)
                | (Inr movie, w2) \<Rightarrow> (Inr (movie, ''api''), w2))))"

text \<open>The parameters of a listing: a genre or a list of genres, a number or a \<open>{ min, max }\<close> object.\<close>

datatype genre_param = GenreString string | GenreArray "string list"

datatype 'a range = Range (range_min: "'a option") (range_max: "'a option")

datatype 'a num_param = Number 'a | Object "'a range"

record list_options =
  opt_search :: "string option"
  opt_genre :: "genre_param option"
  opt_year :: "int num_param option"
  opt_rating :: "rat num_param option"
  opt_sortBy :: string
  opt_sortOrder :: string
  opt_page :: int
  opt_limit :: int

record pagination =
  pg_page :: int
  pg_limit :: int
  pg_total :: int
  pg_pages :: "int option"

record list_result =
  lr_movies :: "movie_doc list"
  lr_pagination :: pagination

text \<open>\<open>Array.isArray(genre) ? genre : [genre]\<close>.\<close>

definition genre_list :: "genre_param \<Rightarrow> string list" where
  "genre_list g = (case g of GenreString x \<Rightarrow> [x] | GenreArray xs \<Rightarrow> xs)"

text \<open>\<open>genre && genre.length > 0\<close>.\<close>

definition genre_given :: "genre_param option \<Rightarrow> bool" where
  "genre_given g =
     (case g of None \<Rightarrow> False | Some (GenreString x) \<Rightarrow> x \<noteq> [] | Some (GenreArray xs) \<Rightarrow> xs \<noteq> [])"

text \<open>\<open>if (v) c = { ...c, $op: v }\<close>.\<close>

definition spread_if :: "cmp \<Rightarrow> ('a::zero) option \<Rightarrow> 'a cond \<Rightarrow> 'a cond" where
  "spread_if opr v c = (case v of None \<Rightarrow> c | Some x \<Rightarrow> if x = 0 then c else with_op opr x c)"

text \<open>\<open>if (v) c = { $op: v }\<close>.\<close>

definition assign_if :: "cmp \<Rightarrow> ('a::zero) option \<Rightarrow> 'a cond \<Rightarrow> 'a cond" where
  "assign_if opr v c = (case v of None \<Rightarrow> c | Some x \<Rightarrow> if x = 0 then c else [(opr, x)])"

definition list_query :: "list_options \<Rightarrow> time \<Rightarrow> query" where
  "list_query opts t =
     \<lparr> q_cacheExpiry = [(Gt, t)],
       q_text = (if truthy_str (opt_search opts) then opt_search opts else None),
       q_genre_in =
         (if genre_given (opt_genre opts) then map_option genre_list (opt_genre opts) else None),
       q_genre_nin = None,
       q_year =
         (case opt_year opts of
            None \<Rightarrow> []
          | Some (Number y) \<Rightarrow> if y = 0 then [] else [(Eq, y)]
          | Some (Object r) \<Rightarrow> spread_if Lte (range_max r) (spread_if Gte (range_min r) [])),
       q_score =
         (case opt_rating opts of
            None \<Rightarrow> []
          | Some (Number x) \<Rightarrow> if x = 0 then [] else [(Gte, x)]
          | Some (Object r) \<Rightarrow> spread_if Lte (range_max r) (spread_if Gte (range_min r) [])),
       q_createdAt = [] \<rparr>"

definition sortDirection :: "string \<Rightarrow> int" where
  "sortDirection sortOrder = (if sortOrder = ''desc'' then - 1 else 1)"

definition sort_path_of :: "string \<Rightarrow> sort_path" where
  "sort_path_of sortBy =
     (if sortBy = ''title'' then P_title
      else if sortBy = ''year'' then P_year
      else if sortBy = ''rating'' then P_score
      else if sortBy = ''runtime'' then P_runtime
      else P_createdAt)"

definition list_sort :: "list_options \<Rightarrow> sort_spec" where
  "list_sort opts =
     (let by_path = SortPath (sort_path_of (opt_sortBy opts)) (sortDirection (opt_sortOrder opts))
      in case opt_search opts of
           None \<Rightarrow> by_path
         | Some term \<Rightarrow> if term \<noteq> [] then SortTextScore term else by_path)"

text \<open>\<open>Math.ceil(total / limit)\<close>; with a zero limit the quotient is not a finite number.\<close>

definition page_count :: "int \<Rightarrow> int \<Rightarrow> int option" where
  "page_count tot lmt = (if lmt = 0 then None else Some \<lceil>(of_int tot :: rat) / of_int lmt\<rceil>)"

definition getCachedMovies :: "env \<Rightarrow> list_options \<Rightarrow> world \<Rightarrow> (error + list_result) \<times> world" where
  "getCachedMovies e opts w =
     (let q = list_query opts (now w);
          skip = (opt_page opts - 1) * opt_limit opts
      in case find_sorted e q (list_sort opts) skip (opt_limit opts) w of
           Inl err \<Rightarrow> (Inl err, w)
         | Inr ms \<Rightarrow>
             (case countDocuments (matches e q) w of
                Inl err \<Rightarrow> (Inl err, w)
              | Inr tot \<Rightarrow>
                  (Inr \<lparr> lr_movies = ms,
                         lr_pagination =
                           \<lparr> pg_page = opt_page opts,
                             pg_limit = opt_limit opts,
                             pg_total = tot,
                             pg_pages = page_count tot (opt_limit opts) \<rparr> \<rparr>, w)))"

definition expired_query :: "time \<Rightarrow> query" where
  "expired_query t = empty_query\<lparr>q_cacheExpiry := [(Lt, t)]\<rparr>"

definition cleanExpiredCache :: "env \<Rightarrow> world \<Rightarrow> (error + int) \<times> world" where
  "cleanExpiredCache e w =
     (case deleteMany (matches e (expired_query (now w))) w of
        (Inl err, w') \<Rightarrow> (Inr 0, w')
      | (Inr deletedCount, w') \<Rightarrow> (Inr deletedCount, w'))"

section \<open>Criteria-based cleanup (the cleanup job module)\<close>

record criteria =
  crit_olderThan :: "time option"
  crit_rating :: "rat range option"
  crit_genre :: "string list option"
  crit_year :: "int range option"

definition criteria_query :: "criteria \<Rightarrow> query" where
  "criteria_query c =
     \<lparr> q_cacheExpiry = [],
       q_text = None,
       q_genre_in = None,
       q_genre_nin =
         (case crit_genre c of None \<Rightarrow> None | Some gs \<Rightarrow> if gs \<noteq> [] then Some gs else None),
       q_year =
         (case crit_year c of
            None \<Rightarrow> []
          | Some r \<Rightarrow> spread_if Gt (range_max r) (assign_if Lt (range_min r) [])),
       q_score =
         (case crit_rating c of
            None \<Rightarrow> []
          | Some r \<Rightarrow> spread_if Gt (range_max r) (assign_if Lt (range_min r) [])),
       q_createdAt = (case crit_olderThan c of None \<Rightarrow> [] | Some t \<Rightarrow> [(Lt, t)]) \<rparr>"

definition cleanupByCriteria :: "env \<Rightarrow> criteria \<Rightarrow> world \<Rightarrow> (error + int) \<times> world" where
  "cleanupByCriteria e c w = deleteMany (matches e (criteria_query c)) w"

section \<open>The movies route (GET /, PUT /:id)\<close>

datatype 'a response = Ok 'a | BadRequest | NotFound | ServerError

text \<open>The query string of a request, after the schema has converted the types.\<close>

record raw_query =
  rq_search :: "string option"
  rq_genre :: "genre_param option"
  rq_year :: "int num_param option"
  rq_rating :: "rat num_param option"
  rq_sort :: "string option"
  rq_order :: "string option"
  rq_page :: "int option"
  rq_limit :: "int option"

definition in_bounds :: "('a::linorder) option \<Rightarrow> 'a option \<Rightarrow> 'a option \<Rightarrow> bool" where
  "in_bounds lo hi v =
     (case v of
        None \<Rightarrow> True
      | Some x \<Rightarrow>
          (case lo of None \<Rightarrow> True | Some l \<Rightarrow> l \<le> x) \<and> (case hi of None \<Rightarrow> True | Some h \<Rightarrow> x \<le> h))"

text \<open>
  \<open>searchSchema.validate(req.query)\<close>: the constraints of the schema, and its defaults
  for the sort key, the order, the page and the limit.
\<close>

definition searchSchema_valid :: "env \<Rightarrow> raw_query \<Rightarrow> bool" where
  "searchSchema_valid e rq =
     ((case rq_search rq of None \<Rightarrow> True | Some x \<Rightarrow> 1 \<le> length x \<and> length x \<le> 100) \<and>
      (case rq_genre rq of
         None \<Rightarrow> True
       | Some (GenreString x) \<Rightarrow> x \<noteq> []
       | Some (GenreArray xs) \<Rightarrow> list_all (\<lambda>x. x \<noteq> []) xs) \<and>
      (case rq_year rq of
         None \<Rightarrow> True
       | Some (Number y) \<Rightarrow> 1888 \<le> y \<and> y \<le> maxYear e
       | Some (Object r) \<Rightarrow>
           in_bounds (Some 1888) None (range_min r) \<and> in_bounds None (Some (maxYear e)) (range_max r)) \<and>
      (case rq_rating rq of
         None \<Rightarrow> True
       | Some (Number x) \<Rightarrow> 0 \<le> x \<and> x \<le> 10
       | Some (Object r) \<Rightarrow>
           in_bounds (Some 0) (Some 10) (range_min r) \<and> in_bounds (Some 0) (Some 10) (range_max r)) \<and>
      (case rq_sort rq of
         None \<Rightarrow> True
       | Some x \<Rightarrow> x \<in> {''title'', ''year'', ''rating'', ''runtime'', ''createdAt''}) \<and>
      (case rq_order rq of None \<Rightarrow> True | Some x \<Rightarrow> x \<in> {''asc'', ''desc''}) \<and>
      (case rq_page rq of None \<Rightarrow> True | Some n \<Rightarrow> 1 \<le> n) \<and>
      (case rq_limit rq of None \<Rightarrow> True | Some n \<Rightarrow> 1 \<le> n \<and> n \<le> 50))"

definition searchSchema_value :: "raw_query \<Rightarrow> list_options" where
  "searchSchema_value rq =
     \<lparr> opt_search = rq_search rq,
       opt_genre = rq_genre rq,
       opt_year = rq_year rq,
       opt_rating = rq_rating rq,
       opt_sortBy = (case rq_sort rq of None \<Rightarrow> ''createdAt'' | Some x \<Rightarrow> x),
       opt_sortOrder = (case rq_order rq of None \<Rightarrow> ''desc'' | Some x \<Rightarrow> x),
       opt_page = (case rq_page rq of None \<Rightarrow> 1 | Some n \<Rightarrow> n),
       opt_limit = (case rq_limit rq of None \<Rightarrow> 20 | Some n \<Rightarrow> n) \<rparr>"

definition movie_data_of :: "movie \<Rightarrow> movie_data" where
  "movie_data_of m = (case m of Stored d \<Rightarrow> data d | Fresh p \<Rightarrow> p)"

text \<open>A number in a comparison or under \<open>||\<close>: \<open>null\<close> counts as zero.\<close>

definition num0 :: "('a::zero) option \<Rightarrow> 'a" where
  "num0 v = (case v of None \<Rightarrow> 0 | Some x \<Rightarrow> x)"

text \<open>The callback of \<open>result.movies.filter\<close> in the handler of GET /.\<close>

definition route_filter ::
  "genre_param option \<Rightarrow> int num_param option \<Rightarrow> rat num_param option \<Rightarrow> movie \<Rightarrow> bool" where
  "route_filter g y r movie =
     (let m = movie_data_of movie;
          score = num_of (rating_imdb_score m)
      in
        (case g of
           None \<Rightarrow> True
         | Some (GenreString x) \<Rightarrow> x = [] \<or> (\<exists>v \<in> set (genre m). v \<in> set [x])
         | Some (GenreArray xs) \<Rightarrow> (\<exists>v \<in> set (genre m). v \<in> set xs)) \<and>
        (case y of
           None \<Rightarrow> True
         | Some (Number n) \<Rightarrow> n = 0 \<or> year m = Some n
         | Some (Object b) \<Rightarrow>
             \<not> (truthy_num (range_min b) \<and> num0 (year m) < num0 (range_min b)) \<and>
             \<not> (truthy_num (range_max b) \<and> num0 (year m) > num0 (range_max b))) \<and>
        (if truthy_num score then
           (case r of
              None \<Rightarrow> True
            | Some (Number x) \<Rightarrow> x = 0 \<or> \<not> num0 score < x
            | Some (Object b) \<Rightarrow>
                \<not> (truthy_num (range_min b) \<and> num0 score < num0 (range_min b)) \<and>
                \<not> (truthy_num (range_max b) \<and> num0 score > num0 (range_max b)))
         else True))"

text \<open>\<open>genre || year || rating\<close>: an empty string and a zero are falsy, an object is truthy.\<close>

definition any_filter ::
  "genre_param option \<Rightarrow> int num_param option \<Rightarrow> rat num_param option \<Rightarrow> bool" where
  "any_filter g y r =
     ((case g of None \<Rightarrow> False | Some (GenreString x) \<Rightarrow> x \<noteq> [] | Some (GenreArray xs) \<Rightarrow> True) \<or>
      (case y of None \<Rightarrow> False | Some (Number n) \<Rightarrow> n \<noteq> 0 | Some (Object b) \<Rightarrow> True) \<or>
      (case r of None \<Rightarrow> False | Some (Number x) \<Rightarrow> x \<noteq> 0 | Some (Object b) \<Rightarrow> True))"

text \<open>
  The sort key that the comparator of \<open>result.movies.sort\<close> reads: the lower-cased
  title, or a number (\<open>x || 0\<close>; a record without \<open>createdAt\<close> gets the epoch).
\<close>

definition route_key :: "string \<Rightarrow> movie \<Rightarrow> string + rat" where
  "route_key sortBy movie =
     (let m = movie_data_of movie
      in if sortBy = ''title'' then Inl (toLowerCase (title m))
         else if sortBy = ''year'' then Inr (of_int (num0 (year m)))
         else if sortBy = ''rating'' then Inr (num0 (num_of (rating_imdb_score m)))
         else if sortBy = ''runtime'' then Inr (of_int (num0 (runtime m)))
         else Inr (of_int (case movie of Stored d \<Rightarrow> createdAt d | Fresh p \<Rightarrow> 0)))"

definition key_less :: "string + rat \<Rightarrow> string + rat \<Rightarrow> bool" where
  "key_less a b =
     (case (a, b) of
        (Inl x, Inl y) \<Rightarrow> x < y
      | (Inr x, Inr y) \<Rightarrow> x < y
      | _ \<Rightarrow> False)"

text \<open>
  The comparator returns a positive number when \<open>a\<close> must come after \<open>b\<close>;
  \<open>route_le\<close> is its negation, and \<open>Array.prototype.sort\<close> is stable.
\<close>

definition route_le :: "string \<Rightarrow> string \<Rightarrow> movie \<Rightarrow> movie \<Rightarrow> bool" where
  "route_le sortBy sortOrder a b =
     (if sortOrder = ''desc'' then \<not> key_less (route_key sortBy a) (route_key sortBy b)
      else \<not> key_less (route_key sortBy b) (route_key sortBy a))"

text \<open>The filtering and the sorting that the handler applies to the result of a search.\<close>

definition route_select ::
  "genre_param option \<Rightarrow> int num_param option \<Rightarrow> rat num_param option \<Rightarrow> movie list \<Rightarrow> movie list" where
  "route_select g y r ms = (if any_filter g y r then filter (route_filter g y r) ms else ms)"

definition route_sort :: "string \<Rightarrow> string \<Rightarrow> movie list \<Rightarrow> movie list" where
  "route_sort sortBy sortOrder ms = sort_by (route_le sortBy sortOrder) ms"

record api_response =
  rs_data :: "movie list"
  rs_pagination :: pagination
  rs_source :: string

definition get_movies :: "env \<Rightarrow> raw_query \<Rightarrow> world \<Rightarrow> api_response response \<times> world" where
  "get_movies e rq w =
     (if \<not> searchSchema_valid e rq then (BadRequest, w)
      else
        (let opts = searchSchema_value rq
         in if truthy_str (opt_search opts) then
              (case searchMovies e (case opt_search opts of None \<Rightarrow> [] | Some x \<Rightarrow> x) (opt_page opts) True w of
                 (Inl err, w') \<Rightarrow> (ServerError, w')
               | (Inr result, w') \<Rightarrow>
                   (let filtered =
                          route_select (opt_genre opts) (opt_year opts) (opt_rating opts) (movies result);
                        sorted = route_sort (opt_sortBy opts) (opt_sortOrder opts) filtered
                    in (Ok \<lparr> rs_data = sorted,
                             rs_pagination =
                               \<lparr> pg_page = opt_page opts,
                                 pg_limit = opt_limit opts,
                                 pg_total = totalResults result,
                                 pg_pages = page_count (totalResults result) (opt_limit opts) \<rparr>,
                             rs_source = (case res_source result of None \<Rightarrow> ''cache'' | Some x \<Rightarrow> x) \<rparr>,
                        w')))
            else
              (case getCachedMovies e (opts\<lparr>opt_search := None\<rparr>) w of
                 (Inl err, w') \<Rightarrow> (ServerError, w')
               | (Inr result, w') \<Rightarrow>
                   (Ok \<lparr> rs_data = map Stored (lr_movies result),
                         rs_pagination = lr_pagination result,
                         rs_source = ''cache'' \<rparr>, w'))))"

text \<open>
  The handler of PUT /:id: the stored document is refreshed from the provider and its
  expiry is pushed forward.
\<close>

definition update_movie :: "env \<Rightarrow> string \<Rightarrow> world \<Rightarrow> movie_doc response \<times> world" where
  "update_movie e i w =
     (case findOne (has_id i) w of
        Inl err \<Rightarrow> (ServerError, w)
      | Inr None \<Rightarrow> (NotFound, w)
      | Inr (Some movie) \<Rightarrow>
          (case getMovieDetailsOMDB e i w of
             (Inl err, w1) \<Rightarrow> (ServerError, w1)
           | (Inr updatedData, w1) \<Rightarrow>
               (case save_existing e i
                       (movie\<lparr>data := cast_data updatedData,
                             cacheExpiry := Some (now w1 + ttl),
                             lastUpdated := Some (now w1)\<rparr>) w1 of
                  (Inl err, w2) \<Rightarrow> (ServerError, w2)
                | (Inr d, w2) \<Rightarrow> (Ok d, w2))))"

section \<open>Decimal notation and sample data\<close>

text \<open>The decimal notation of a natural number, as the provider writes minutes and percentages.\<close>

definition digit_char :: "nat \<Rightarrow> char" where
  "digit_char d = ''0123456789'' ! d"

fun digits_of :: "nat \<Rightarrow> string" where
  "digits_of n = (if n < 10 then [digit_char n] else digits_of (n div 10) @ [digit_char (n mod 10)])"

declare digits_of.simps [simp del]

text \<open>The active documents that match a term in the text index, in natural order.\<close>

definition active_matches :: "env \<Rightarrow> string \<Rightarrow> world \<Rightarrow> movie_doc list" where
  "active_matches e term w = filter (\<lambda>d. textMatch e term d \<and> isActive (now w) d) (docs w)"

text \<open>
  Sample records, a sample process and sample stores, on which the theorems below are
  instantiated.
\<close>

definition sample_data :: "string \<Rightarrow> string \<Rightarrow> int \<Rightarrow> rat jsval \<Rightarrow> movie_data" where
  "sample_data i t y s =
     \<lparr> imdbID = i, title = t, year = Some y, released = Null, runtime = Some 120,
       genre = [''Action''], director = [], writer = [], actors = [], plot = [],
       language = [''English''], country = [], rating_imdb_score = s, rating_imdb_votes = Null,
       rating_rottenTomatoes_score = None, rating_metacritic_score = None,
       poster = None, rated = None, type = ''movie'',
       links_imdb = ''https://www.imdb.com/title/'' @ i @ ''/'', source = ''omdb'' \<rparr>"

definition na_raw :: omdb_movie where
  "na_raw =
     \<lparr> omdb_imdbID = ''tt0000000'', Title = ''N/A'', Year = ''N/A'', Released = ''N/A'',
       Runtime = ''N/A'', Genre = ''N/A'', Director = ''N/A'', Writer = ''N/A'', Actors = ''N/A'',
       Plot = ''N/A'', Language = ''N/A'', Country = ''N/A'', imdbRating = ''N/A'',
       imdbVotes = ''N/A'', Ratings = Some [], Poster = ''N/A'', Rated = ''N/A'', Type = ''N/A'' \<rparr>"

definition inception_raw :: omdb_movie where
  "inception_raw =
     \<lparr> omdb_imdbID = ''tt1375666'', Title = ''Inception'', Year = ''2010'',
       Released = ''16 Jul 2010'', Runtime = ''148 min'', Genre = ''Action, Adventure, Sci-Fi'',
       Director = ''Christopher Nolan'', Writer = ''Christopher Nolan'',
       Actors = ''Leonardo DiCaprio, Joseph Gordon-Levitt, Elliot Page'',
       Plot = ''A thief who steals corporate secrets through dream-sharing technology.'',
       Language = ''English, Japanese, French'', Country = ''United States, United Kingdom'',
       imdbRating = ''8.8'', imdbVotes = ''2,600,000'',
       Ratings = Some [(''Internet Movie Database'', ''8.8/10''), (''Rotten Tomatoes'', ''87%''),
                       (''Metacritic'', ''74/100'')],
       Poster = ''https://m.media-amazon.com/images/M/inception.jpg'', Rated = ''PG-13'',
       Type = ''movie'' \<rparr>"

definition matrix_raw :: "string \<Rightarrow> string \<Rightarrow> string \<Rightarrow> omdb_movie" where
  "matrix_raw i t y = na_raw\<lparr>omdb_imdbID := i, Title := t, Year := y, Type := ''movie''\<rparr>"

text \<open>
  The sample text index ignores a query that is a stop word of the index language, and
  otherwise matches a term with a title up to case.
\<close>

definition sample_env :: env where
  "sample_env =
     \<lparr> js = \<lparr>parseFloat = (\<lambda>s. if s = ''8.8'' then Some (44 / 5) else None),
              newDate = (\<lambda>s. if s = ''16 Jul 2010'' then Some 1279238400000 else None)\<rparr>,
       omdbApiKey = Some ''key'',
       http_search =
         (\<lambda>term page.
            if term = ''Inception'' then Inr (SearchTrue (Some [''tt1375666'']) (Some ''1''))
            else if term = ''matrix''
            then Inr (SearchTrue (Some [''tt0133093'', ''tt0234215'', ''tt0242653'']) (Some ''3''))
            else if term = ''It'' then Inr (SearchTrue (Some [''tt1396484'']) (Some ''1''))
            else Inr (SearchFalse (Some ''Movie not found!''))),
       http_detail =
         (\<lambda>i. if i = ''tt1375666'' then Inr (DetailTrue inception_raw)
              else if i = ''tt0133093'' then Inr (DetailTrue (matrix_raw i ''The Matrix'' ''1999''))
              else if i = ''tt0234215'' then Inl ''timeout of 10000ms exceeded''
              else if i = ''tt0242653''
              then Inr (DetailTrue (matrix_raw i ''The Matrix Revolutions'' ''2003''))
              else if i = ''tt1396484'' then Inr (DetailTrue (matrix_raw i ''It'' ''2017''))
              else Inr (DetailFalse (Some ''Incorrect IMDb ID.''))),
       textMatch =
         (\<lambda>term d. toLowerCase term \<notin> set [''it'', ''the'', ''a'', ''an''] \<and>
                   toLowerCase term = toLowerCase (title (data d))),
       textScore = (\<lambda>term d. 1),
       maxYear = 2031 \<rparr>"

definition world_of :: "movie_doc list \<Rightarrow> time \<Rightarrow> world" where
  "world_of ds t = \<lparr>docs = ds, now = t, store_fault = None, requests = []\<rparr>"

definition rated_docs :: "movie_doc list" where
  "rated_docs =
     [new_Movie (sample_data ''tt0000003'' ''Three'' 2003 (Val 3)) 0,
      new_Movie (sample_data ''tt0000006'' ''Six'' 2006 (Val 6)) 0,
      new_Movie (sample_data ''tt0000009'' ''Nine'' 2009 (Val 9)) 0]"

definition batman_docs :: "movie_doc list" where
  "batman_docs =
     map (\<lambda>i. new_Movie (sample_data (''tt00000'' @ i) ''Batman'' 1989 (Val 7)) 0)
       [''01'', ''02'', ''03'', ''04'', ''05'', ''06'', ''07'', ''08'', ''09'', ''10'', ''11'']"

text \<open>
  What one candidate of a batch yields on its own: the normalised details that the
  provider delivers for the identifier, if it delivers any, and the same provided the
  store is up and the schema accepts the record.
\<close>

definition fetched :: "env \<Rightarrow> string \<Rightarrow> movie_data option" where
  "fetched e i =
     (if truthy_str (omdbApiKey e)
      then (case http_detail e i of
              Inr (DetailTrue raw) \<Rightarrow> Some (transformOMDBData (js e) raw)
            | _ \<Rightarrow> None)
      else None)"

definition item_result :: "env \<Rightarrow> world \<Rightarrow> string \<Rightarrow> movie_data option" where
  "item_result e w i =
     (case fetched e i of
        None \<Rightarrow> None
      | Some p \<Rightarrow> if store_fault w = None \<and> valid_data e (cast_data p) then Some p else None)"

text \<open>The store holds a record for the identifier that was saved at the given time.\<close>

definition stored_fresh :: "world \<Rightarrow> time \<Rightarrow> string \<Rightarrow> bool" where
  "stored_fresh w t i = (\<exists>d \<in> set (docs w). has_id i d \<and> cacheExpiry d = Some (t + ttl))"

text \<open>The unique index on \<open>imdbID\<close>: no two stored documents share an identifier.\<close>

definition unique_ids :: "world \<Rightarrow> bool" where
  "unique_ids w = distinct (map (\<lambda>d. imdbID (data d)) (docs w))"

text \<open>
  Every stored document was created or refreshed at some time up to now, and expires
  \<open>ttl\<close> after that time.
\<close>

definition expiry_inv :: "world \<Rightarrow> bool" where
  "expiry_inv w =
     (\<forall>d \<in> set (docs w). \<exists>t. t \<le> now w \<and> lastUpdated d = Some t \<and> cacheExpiry d = Some (t + ttl))"

text \<open>
  The states that the service and the routes reach from an empty store, while the clock
  moves forward and the store may start or stop failing between operations. The last
  rule covers the routes that delete one record or all of them, and the store's own
  removal of expired documents through the expiring index on \<open>cacheExpiry\<close>.
\<close>

inductive reachable :: "env \<Rightarrow> world \<Rightarrow> bool" for e :: env where
  start: "reachable e \<lparr>docs = [], now = t, store_fault = f, requests = []\<rparr>"
| tick: "reachable e w \<Longrightarrow> now w \<le> t \<Longrightarrow> reachable e (w\<lparr>now := t, store_fault := f\<rparr>)"
| save: "reachable e w \<Longrightarrow> reachable e (snd (saveMovieToCache e p w))"
| search: "reachable e w \<Longrightarrow> reachable e (snd (searchMovies e term page useCache w))"
| update: "reachable e w \<Longrightarrow> reachable e (snd (update_movie e i w))"
| lookup: "reachable e w \<Longrightarrow> reachable e (snd (getMovieById e i w))"
| purge: "reachable e w \<Longrightarrow> reachable e (snd (cleanExpiredCache e w))"
| cleanup: "reachable e w \<Longrightarrow> reachable e (snd (cleanupByCriteria e c w))"
| remove: "reachable e w \<Longrightarrow> reachable e (snd (deleteMany q w))"

text \<open>The listing parameters of a request without any query parameter.\<close>

definition no_params :: raw_query where
  "no_params =
     \<lparr> rq_search = None, rq_genre = None, rq_year = None, rq_rating = None,
       rq_sort = None, rq_order = None, rq_page = None, rq_limit = None \<rparr>"

definition inception_data :: movie_data where
  "inception_data =
     \<lparr> imdbID = ''tt1375666'', title = ''Inception'', year = Some 2010,
       released = Val 1279238400000, runtime = Some 148,
       genre = [''Action'', ''Adventure'', ''Sci-Fi''],
       director = [''Christopher Nolan''], writer = [''Christopher Nolan''],
       actors = [''Leonardo DiCaprio'', ''Joseph Gordon-Levitt'', ''Elliot Page''],
       plot = ''A thief who steals corporate secrets through dream-sharing technology.'',
       language = [''English'', ''Japanese'', ''French''],
       country = [''United States'', ''United Kingdom''],
       rating_imdb_score = Val (44 / 5), rating_imdb_votes = Val 2600000,
       rating_rottenTomatoes_score = Some 87, rating_metacritic_score = Some 74,
       poster = Some ''https://m.media-amazon.com/images/M/inception.jpg'',
       rated = Some ''PG-13'', type = ''movie'',
       links_imdb = ''https://www.imdb.com/title/tt1375666/'', source = ''omdb'' \<rparr>"

definition inception_world :: "time \<Rightarrow> world" where
  "inception_world t = world_of [new_Movie inception_data 1000] t"

definition padded_data :: movie_data where
  "padded_data = sample_data ''tt1375666'' '' Inception '' 2010 (Val 8)"

definition it_data :: movie_data where
  "it_data =
     \<lparr> imdbID = ''tt1396484'', title = ''It'', year = Some 2017, released = Null, runtime = None,
       genre = [], director = [], writer = [], actors = [], plot = [],
       language = [], country = [], rating_imdb_score = Null, rating_imdb_votes = Null,
       rating_rottenTomatoes_score = None, rating_metacritic_score = None,
       poster = None, rated = None, type = ''movie'',
       links_imdb = ''https://www.imdb.com/title/tt1396484/'', source = ''omdb'' \<rparr>"

definition it_world :: "time \<Rightarrow> world" where
  "it_world t =
     \<lparr>docs = [new_Movie it_data 1000], now = t, store_fault = None,
      requests = [SearchRequest ''It'' 1, DetailRequest ''tt1396484'']\<rparr>"

text \<open>The source tag of the outcome of a search, if it returned and carries one.\<close>

definition source_of :: "(error + search_result) \<times> world \<Rightarrow> string option" where
  "source_of x = (case fst x of Inl err \<Rightarrow> None | Inr r \<Rightarrow> res_source r)"

text \<open>The ordered result of a listing, before it is cut into pages.\<close>

definition listed :: "env \<Rightarrow> list_options \<Rightarrow> world \<Rightarrow> movie_doc list" where
  "listed e opts w =
     sort_by (store_le e (list_sort opts)) (filter (matches e (list_query opts (now w))) (docs w))"

text \<open>Forty-five sample records; the record of number \<open>n\<close> is created at time \<open>n\<close>.\<close>

definition film :: "nat \<Rightarrow> movie_doc" where
  "film n = new_Movie (sample_data (''tt'' @ digits_of n) ''Film'' 2000 (Val 7)) (int n)"

definition film_docs :: "movie_doc list" where
  "film_docs = map film [0..<45]"

definition fruit_docs :: "movie_doc list" where
  "fruit_docs =
     [new_Movie (sample_data ''tt0000001'' ''apple'' 2001 Null) 100,
      new_Movie (sample_data ''tt0000002'' ''Banana'' 2002 (Val 9)) 200]"

text \<open>
  A stored document as the provider path of a search returns it: the normalised fields
  alone, without the fields that the store adds (\<open>createdAt\<close> among them).
\<close>

definition fresh_of :: "movie_doc \<Rightarrow> movie" where
  "fresh_of d = Fresh (data d)"

section \<open>Properties\<close>

subsection \<open>Sorting and query conditions\<close>

lemma length_insert_by [simp]: "length (insert_by le x xs) = Suc (length xs)"
  by (induction xs) auto

lemma length_sort_by [simp]: "length (sort_by le xs) = length xs"
  by (induction xs) (auto simp: sort_by_def)

lemma set_insert_by [simp]: "set (insert_by le x xs) = insert x (set xs)"
  by (induction xs) auto

lemma set_sort_by [simp]: "set (sort_by le xs) = set xs"
  by (induction xs) (auto simp: sort_by_def)

lemma cond_holds_Nil [simp]: "cond_holds [] v"
  by (simp add: cond_holds_def)

lemma isActive_cond: "cond_holds [(Gt, t)] (cacheExpiry d) = isActive t d"
  by (simp add: cond_holds_def isActive_def split: option.splits)

lemma isExpired_cond: "cond_holds [(Lt, t)] (cacheExpiry d) = isExpired t d"
  by (simp add: cond_holds_def isExpired_def split: option.splits)

lemma matches_cache_query:
  "matches e (cache_query term t) = (\<lambda>d. textMatch e term d \<and> isActive t d)"
  by (rule ext) (auto simp: matches_def cache_query_def empty_query_def isActive_cond)

lemma matches_expired_query: "matches e (expired_query t) = isExpired t"
  by (rule ext) (auto simp: matches_def expired_query_def empty_query_def isExpired_cond)

subsection \<open>Normalisation\<close>

lemma digit_char_cases: "d < 10 \<Longrightarrow> d \<in> {0,1,2,3,4,5,6,7,8,9::nat}"
  by auto

lemma isDigit_digit_char: "d < 10 \<Longrightarrow> isDigit (digit_char d)"
  using digit_char_cases[of d] by (auto simp: isDigit_def digit_char_def)

lemma digitVal_digit_char: "d < 10 \<Longrightarrow> digitVal (digit_char d) = int d"
  using digit_char_cases[of d] by (auto simp: digitVal_def digit_char_def)

lemma digits_of_digits: "\<forall>c \<in> set (digits_of n). isDigit c"
proof (induction n rule: digits_of.induct)
  case (1 n)
  show ?case
  proof (cases "n < 10")
    case True
    then show ?thesis by (subst digits_of.simps) (simp add: isDigit_digit_char)
  next
    case False
    then show ?thesis using 1 by (subst digits_of.simps) (simp add: isDigit_digit_char)
  qed
qed

lemma digits_of_nonempty: "digits_of n \<noteq> []"
  by (subst digits_of.simps) simp

lemma numeral_value_snoc: "numeral_value r (ds @ [c]) = r * numeral_value r ds + digitVal c"
  by (simp add: numeral_value_def)

lemma numeral_value_digits_of: "numeral_value 10 (digits_of n) = int n"
proof (induction n rule: digits_of.induct)
  case (1 n)
  show ?case
  proof (cases "n < 10")
    case True
    then show ?thesis
      by (subst digits_of.simps) (simp add: numeral_value_def digitVal_digit_char)
  next
    case False
    then have "numeral_value 10 (digits_of (n div 10)) = int (n div 10)" using 1 by simp
    moreover have "10 * int (n div 10) + int (n mod 10) = int n"
      by (metis mult.commute of_nat_numeral zdiv_int zmod_int div_mult_mod_eq)
    ultimately show ?thesis using False
      by (subst digits_of.simps) (simp add: numeral_value_snoc digitVal_digit_char)
  qed
qed

lemma not_digit_misc [simp]: "\<not> isDigit CHR '' ''" "\<not> isDigit CHR ''%''" "\<not> isDigit CHR ''-''" "\<not> isDigit CHR ''+''"
  "\<not> isDigit CHR ''x''"  "\<not> isDigit CHR ''X''" "\<not> isDigit CHR ''N''" "\<not> isDigit CHR ''/''"
  by (simp_all add: isDigit_def)

lemma digit_not_space: "isDigit c \<Longrightarrow> \<not> isSpace c"
  by (auto simp: isDigit_def isSpace_def)

lemma parseInt_digits:
  assumes "ds \<noteq> []" "\<forall>c \<in> set ds. isDigit c"
  shows "parseInt ds = Some (numeral_value 10 ds)"
proof -
  obtain c cs where ds: "ds = c # cs" using assms(1) by (cases ds) auto
  have c: "isDigit c" using assms(2) ds by simp
  have tw: "takeWhile isDigit ds = ds" using assms(2) by (simp add: takeWhile_eq_all_conv)
  have nohex: "\<not> (2 \<le> length ds \<and> hd ds = CHR ''0'' \<and> (ds ! 1 = CHR ''x'' \<or> ds ! 1 = CHR ''X''))"
  proof
    assume h: "2 \<le> length ds \<and> hd ds = CHR ''0'' \<and> (ds ! 1 = CHR ''x'' \<or> ds ! 1 = CHR ''X'')"
    then have "ds ! 1 \<in> set ds" by (simp add: nth_mem)
    then have "isDigit (ds ! 1)" using assms(2) by blast
    with h show False by auto
  qed
  have dw: "dropWhile isSpace ds = ds" using c ds by (simp add: digit_not_space)
  have hdc: "hd ds \<noteq> CHR ''-''" "hd ds \<noteq> CHR ''+''" using c ds by auto
  show ?thesis
    unfolding parseInt_def Let_def dw using nohex hdc tw assms(1) by (simp only: if_False simp_thms if_True)
qed

lemma match_digits_prefix:
  assumes "ds \<noteq> []" "\<forall>c \<in> set ds. isDigit c" "rest = [] \<or> \<not> isDigit (hd rest)"
  shows "match_digits (ds @ rest) = Some ds"
proof -
  obtain c cs where ds: "ds = c # cs" using assms(1) by (cases ds) auto
  have "takeWhile isDigit (ds @ rest) = ds"
    using assms(2,3) by (cases rest) (auto simp: takeWhile_append2 takeWhile_eq_all_conv)
  then show ?thesis using ds assms(2) by simp
qed

lemma match_digits_none: "\<forall>c \<in> set s. \<not> isDigit c \<Longrightarrow> match_digits s = None"
  by (induction s) auto

lemma match_percent_prefix:
  assumes "ds \<noteq> []" "\<forall>c \<in> set ds. isDigit c"
  shows "match_percent (ds @ CHR ''%'' # rest) = Some ds"
proof -
  obtain c cs where ds: "ds = c # cs" using assms(1) by (cases ds) auto
  have t: "takeWhile isDigit (ds @ CHR ''%'' # rest) = ds"
    using assms(2) by (simp add: takeWhile_append2)
  have d: "dropWhile isDigit (ds @ CHR ''%'' # rest) = CHR ''%'' # rest"
    using assms(2) by (simp add: dropWhile_append2)
  have "percent_here (ds @ CHR ''%'' # rest) = Some ds"
    unfolding percent_here_def Let_def t d using assms(1) by simp
  then show ?thesis using ds by simp
qed

lemma parseRuntime_minutes: "parseRuntime (digits_of n @ '' min'') = Some (int n)"
proof -
  let ?ds = "digits_of n"
  have ne: "?ds @ '' min'' \<noteq> []" by simp
  have "hd (?ds @ '' min'') = hd ?ds" using digits_of_nonempty by simp
  moreover have "isDigit (hd ?ds)" using digits_of_digits[of n] hd_in_set[OF digits_of_nonempty[of n]] by blast
  ultimately have nna: "?ds @ '' min'' \<noteq> ''N/A''" by (metis list.sel(1) not_digit_misc(7))
  have m: "match_digits (?ds @ '' min'') = Some ?ds"
    by (rule match_digits_prefix) (simp_all add: digits_of_nonempty digits_of_digits)
  have p: "parseInt ?ds = Some (int n)"
    using parseInt_digits[OF digits_of_nonempty digits_of_digits] numeral_value_digits_of by simp
  show ?thesis unfolding parseRuntime_def using ne nna m p by simp
qed

lemma parseRuntime_unparseable: "\<forall>c \<in> set s. \<not> isDigit c \<Longrightarrow> parseRuntime s = None"
  by (simp add: parseRuntime_def match_digits_none)


lemma extractRating_percent:
  assumes "find (\<lambda>r. fst r = ''Rotten Tomatoes'') rs = Some (src, digits_of n @ ''%'')"
  shows "extractRating (Some rs) ''Rotten Tomatoes'' = Some (int n)"
proof -
  have m: "match_percent (digits_of n @ ''%'') = Some (digits_of n)"
    using match_percent_prefix[OF digits_of_nonempty digits_of_digits, of n "[]"] by simp
  have p: "parseInt (digits_of n) = Some (int n)"
    using parseInt_digits[OF digits_of_nonempty digits_of_digits] numeral_value_digits_of by simp
  show ?thesis using assms m p by (simp add: extractRating_def)
qed

lemma extractRating_absent:
  "extractRating None src = None"
  "find (\<lambda>r. fst r = src) rs = None \<Longrightarrow> extractRating (Some rs) src = None"
  by (simp_all add: extractRating_def)

lemma parseInt_NA: "parseInt ''N/A'' = None"
  by (simp add: parseInt_def isSpace_def isDigit_def)

lemma digits_of_148: "digits_of 148 = ''148''" and digits_of_87: "digits_of 87 = ''87''"
  by (simp_all add: digits_of.simps[of 148] digits_of.simps[of 14] digits_of.simps[of "Suc 0"]
        digits_of.simps[of 87] digits_of.simps[of 8] digit_char_def)

text \<open>
  Claim C4, as the code has it. Normalisation is a function of the raw record (and of
  the library). The sentinel \<open>N/A\<close> in \<open>Year\<close>, \<open>Released\<close>, \<open>Runtime\<close>, \<open>Genre\<close>,
  \<open>Director\<close>, \<open>Writer\<close>, \<open>Actors\<close>, \<open>Plot\<close>, \<open>Language\<close>, \<open>Country\<close>, \<open>imdbRating\<close>,
  \<open>imdbVotes\<close>, \<open>Poster\<close> or \<open>Rated\<close> becomes \<open>null\<close>, the empty list or the empty
  string. The identifier, the title and the type are copied as they come (an empty type
  becomes \<open>movie\<close>). A runtime \<open>NNN min\<close> parses to the integer \<open>NNN\<close>, a runtime without
  a digit to \<open>null\<close>. A Rotten Tomatoes value \<open>NNN%\<close> parses to the integer \<open>NNN\<close>, which
  is within 0 to 100 when the percentage is; a secondary source that is not in the list,
  or an absent list, gives a \<open>null\<close> score.
\<close>

theorem transformOMDBData_normalises:
  "(let t = transformOMDBData lib m in
     (Year m = ''N/A'' \<longrightarrow> year t = None) \<and>
     (Released m = ''N/A'' \<longrightarrow> released t = Null) \<and>
     (Runtime m = ''N/A'' \<longrightarrow> runtime t = None) \<and>
     (Genre m = ''N/A'' \<longrightarrow> genre t = []) \<and>
     (Director m = ''N/A'' \<longrightarrow> director t = []) \<and>
     (Writer m = ''N/A'' \<longrightarrow> writer t = []) \<and>
     (Actors m = ''N/A'' \<longrightarrow> actors t = []) \<and>
     (Plot m = ''N/A'' \<longrightarrow> plot t = []) \<and>
     (Language m = ''N/A'' \<longrightarrow> language t = []) \<and>
     (Country m = ''N/A'' \<longrightarrow> country t = []) \<and>
     (imdbRating m = ''N/A'' \<longrightarrow> rating_imdb_score t = Null) \<and>
     (imdbVotes m = ''N/A'' \<longrightarrow> rating_imdb_votes t = Null) \<and>
     (Poster m = ''N/A'' \<longrightarrow> poster t = None) \<and>
     (Rated m = ''N/A'' \<longrightarrow> rated t = None) \<and>
     imdbID t = omdb_imdbID m \<and> title t = Title m \<and>
     type t = (if Type m = [] then ''movie'' else Type m) \<and>
     (\<forall>n. Runtime m = digits_of n @ '' min'' \<longrightarrow> runtime t = Some (int n)) \<and>
     ((\<forall>c \<in> set (Runtime m). \<not> isDigit c) \<longrightarrow> runtime t = None) \<and>
     (\<forall>rs src n. Ratings m = Some rs \<and>
          find (\<lambda>r. fst r = ''Rotten Tomatoes'') rs = Some (src, digits_of n @ ''%'') \<longrightarrow>
          rating_rottenTomatoes_score t = Some (int n) \<and>
          (n \<le> 100 \<longrightarrow> 0 \<le> int n \<and> int n \<le> 100)) \<and>
     (\<forall>rs. Ratings m = Some rs \<and> find (\<lambda>r. fst r = ''Rotten Tomatoes'') rs = None \<longrightarrow>
          rating_rottenTomatoes_score t = None) \<and>
     (\<forall>rs. Ratings m = Some rs \<and> find (\<lambda>r. fst r = ''Metacritic'') rs = None \<longrightarrow>
          rating_metacritic_score t = None) \<and>
     (Ratings m = None \<longrightarrow>
          rating_rottenTomatoes_score t = None \<and> rating_metacritic_score t = None))"
  unfolding Let_def transformOMDBData_def
  by (simp add: parseInt_NA or_null_def parseRuntime_minutes parseRuntime_unparseable
        extractRating_percent extractRating_absent)
     (simp add: parseRuntime_def)

theorem transformOMDBData_normalises_witness:
  "year (transformOMDBData (js sample_env) na_raw) = None \<and>
   released (transformOMDBData (js sample_env) na_raw) = Null \<and>
   genre (transformOMDBData (js sample_env) na_raw) = [] \<and>
   plot (transformOMDBData (js sample_env) na_raw) = [] \<and>
   rating_imdb_score (transformOMDBData (js sample_env) na_raw) = Null \<and>
   poster (transformOMDBData (js sample_env) na_raw) = None \<and>
   rating_metacritic_score (transformOMDBData (js sample_env) na_raw) = None \<and>
   runtime (transformOMDBData (js sample_env) inception_raw) = Some 148 \<and>
   rating_rottenTomatoes_score (transformOMDBData (js sample_env) inception_raw) = Some 87"
proof -
  have rt: "Runtime inception_raw = digits_of 148 @ '' min''"
    by (simp add: inception_raw_def digits_of_148)
  have rs: "Ratings inception_raw =
              Some [(''Internet Movie Database'', ''8.8/10''), (''Rotten Tomatoes'', ''87%''),
                    (''Metacritic'', ''74/100'')]"
    by (simp add: inception_raw_def)
  have fd: "find (\<lambda>r. fst r = ''Rotten Tomatoes'')
              [(''Internet Movie Database'', ''8.8/10''), (''Rotten Tomatoes'', ''87%''),
               (''Metacritic'', ''74/100'')] = Some (''Rotten Tomatoes'', digits_of 87 @ ''%'')"
    by (simp add: digits_of_87)
  have na: "Year na_raw = ''N/A''" "Released na_raw = ''N/A''" "Genre na_raw = ''N/A''"
    "Plot na_raw = ''N/A''" "imdbRating na_raw = ''N/A''" "Poster na_raw = ''N/A''"
    "Ratings na_raw = Some []"
    by (simp_all add: na_raw_def)
  have a: "year (transformOMDBData (js sample_env) na_raw) = None \<and>
     released (transformOMDBData (js sample_env) na_raw) = Null \<and>
     genre (transformOMDBData (js sample_env) na_raw) = [] \<and>
     plot (transformOMDBData (js sample_env) na_raw) = [] \<and>
     rating_imdb_score (transformOMDBData (js sample_env) na_raw) = Null \<and>
     poster (transformOMDBData (js sample_env) na_raw) = None \<and>
     rating_metacritic_score (transformOMDBData (js sample_env) na_raw) = None"
    using transformOMDBData_normalises[of "js sample_env" na_raw] na unfolding Let_def by simp
  have b: "runtime (transformOMDBData (js sample_env) inception_raw) = Some 148 \<and>
     rating_rottenTomatoes_score (transformOMDBData (js sample_env) inception_raw) = Some 87"
    using transformOMDBData_normalises[of "js sample_env" inception_raw] rt rs fd unfolding Let_def
    by (metis of_nat_numeral)
  from a b show ?thesis by simp
qed

text \<open>
  The claim as it is written has every sentinel replaced; a title or a type \<open>N/A\<close> is
  kept as it is.
\<close>

theorem transformOMDBData_keeps_title_sentinel:
  "title (transformOMDBData (js sample_env) na_raw) = ''N/A'' \<and>
   type (transformOMDBData (js sample_env) na_raw) = ''N/A''"
  by (simp add: transformOMDBData_def na_raw_def)

subsection \<open>Upsert\<close>

lemma imdbID_cast_data [simp]: "imdbID (cast_data p) = imdbID p"
  by (simp add: cast_data_def)

lemma length_replace_first [simp]: "length (replace_first P y xs) = length xs"
  by (induction xs) auto

lemma set_replace_first_subset: "set (replace_first P y xs) \<subseteq> insert y (set xs)"
  by (induction xs) auto

lemma replace_first_mem: "\<exists>x \<in> set xs. P x \<Longrightarrow> y \<in> set (replace_first P y xs)"
  by (induction xs) auto

lemma map_replace_first:
  "f y = i \<Longrightarrow> map f (replace_first (\<lambda>x. f x = i) y xs) = map f xs"
  by (induction xs) auto

lemma replace_first_keep: "z \<in> set xs \<Longrightarrow> \<not> P z \<Longrightarrow> z \<in> set (replace_first P y xs)"
  by (induction xs) auto

lemma find_Some_mem: "find P xs = Some x \<Longrightarrow> x \<in> set xs \<and> P x"
  by (induction xs) (auto split: if_splits)

lemma find_None_iff2: "find P xs = None \<longleftrightarrow> (\<forall>x \<in> set xs. \<not> P x)"
  by (induction xs) auto

lemma filter_replace_first_distinct:
  "distinct (map f xs) \<Longrightarrow> \<exists>x \<in> set xs. f x = i \<Longrightarrow> f y = i \<Longrightarrow>
   filter (\<lambda>x. f x = i) (replace_first (\<lambda>x. f x = i) y xs) = [y]"
proof (induction xs)
  case Nil
  then show ?case by simp
next
  case (Cons x xs)
  show ?case
  proof (cases "f x = i")
    case True
    then have "i \<notin> f ` set xs" using Cons.prems(1) by simp
    then have "\<forall>z \<in> set xs. f z \<noteq> i" by blast
    then have "filter (\<lambda>x. f x = i) xs = []" by (simp add: filter_empty_conv)
    with True Cons.prems(3) show ?thesis by simp
  next
    case False
    then show ?thesis using Cons by auto
  qed
qed

lemma has_id_eq: "has_id i = (\<lambda>d. imdbID (data d) = i)"
  by (rule ext) (simp add: has_id_def)

lemma saveMovieToCache_Inr:
  assumes "saveMovieToCache e p w = (Inr d, w')"
  shows "store_fault w = None \<and> valid_data e (cast_data p) \<and>
         w' = w\<lparr>docs := docs w'\<rparr> \<and>
         data d = cast_data p \<and> cacheExpiry d = Some (now w + ttl) \<and> lastUpdated d = Some (now w) \<and>
         (case find (has_id (imdbID p)) (docs w) of
            None \<Rightarrow> d = new_Movie p (now w) \<and> docs w' = docs w @ [d]
          | Some x \<Rightarrow>
              d = x\<lparr>data := cast_data p, cacheExpiry := Some (now w + ttl),
                    lastUpdated := Some (now w), updatedAt := now w\<rparr> \<and>
              docs w' = replace_first (has_id (imdbID p)) d (docs w))"
  using assms
  unfolding saveMovieToCache_def findOne_def save_new_def save_existing_def store_error_def
  by (auto simp: Let_def new_Movie_def split: option.splits if_splits sum.splits prod.splits)

lemma saveMovieToCache_succeeds:
  assumes "store_fault w = None" "valid_data e (cast_data p)"
  shows "\<exists>d w'. saveMovieToCache e p w = (Inr d, w')"
proof (cases "find (has_id (imdbID p)) (docs w)")
  case None
  then have "\<forall>x \<in> set (docs w). \<not> has_id (imdbID p) x" by (simp add: find_None_iff2)
  with None assms show ?thesis
    unfolding saveMovieToCache_def findOne_def save_new_def store_error_def
    by (simp add: new_Movie_def)
next
  case (Some x)
  with assms show ?thesis
    unfolding saveMovieToCache_def findOne_def save_existing_def store_error_def
    by (simp add: Let_def)
qed

lemma saveMovieToCache_Inl:
  assumes "saveMovieToCache e p w = (Inl err, w')"
  shows "w' = w \<and> (store_fault w \<noteq> None \<or> \<not> valid_data e (cast_data p))"
  using assms
  unfolding saveMovieToCache_def findOne_def save_new_def save_existing_def store_error_def
  by (auto simp: Let_def new_Movie_def find_None_iff2 split: option.splits if_splits sum.splits prod.splits)

lemma saveMovieToCache_ids:
  assumes "unique_ids w" "saveMovieToCache e p w = (Inr d, w')"
  shows "unique_ids w' \<and> filter (has_id (imdbID p)) (docs w') = [d] \<and> d \<in> set (docs w') \<and>
         (\<forall>x \<in> set (docs w'). x = d \<or> (x \<in> set (docs w) \<and> \<not> has_id (imdbID p) x)) \<and>
         (\<forall>x \<in> set (docs w). \<not> has_id (imdbID p) x \<longrightarrow> x \<in> set (docs w'))"
proof (cases "find (has_id (imdbID p)) (docs w)")
  case None
  then have no: "\<forall>x \<in> set (docs w). \<not> has_id (imdbID p) x" by (simp add: find_None_iff2)
  from saveMovieToCache_Inr[OF assms(2)] None
  have d: "data d = cast_data p" and dw: "docs w' = docs w @ [d]" by auto
  have "filter (has_id (imdbID p)) (docs w) = []" using no by (simp add: filter_empty_conv)
  then show ?thesis using assms(1) no d dw
    by (auto simp: unique_ids_def has_id_def)
next
  case (Some x)
  then have x: "x \<in> set (docs w)" "has_id (imdbID p) x" using find_Some_mem by fastforce+
  from saveMovieToCache_Inr[OF assms(2)] Some
  have d: "data d = cast_data p" and dw: "docs w' = replace_first (has_id (imdbID p)) d (docs w)"
    by auto
  let ?f = "\<lambda>d. imdbID (data d)"
  have fd: "?f d = imdbID p" using d by simp
  have m: "map ?f (docs w') = map ?f (docs w)"
    unfolding dw has_id_eq using map_replace_first[of ?f d "imdbID p"] fd by simp
  have fl: "filter (has_id (imdbID p)) (docs w') = [d]"
    unfolding dw has_id_eq
    using filter_replace_first_distinct[of ?f "docs w" "imdbID p" d] assms(1) x fd
    by (auto simp: unique_ids_def has_id_def)
  have mem: "d \<in> set (docs w')" unfolding dw using replace_first_mem[of "docs w" "has_id (imdbID p)" d] x by blast
  have sub: "\<forall>z \<in> set (docs w'). z = d \<or> (z \<in> set (docs w) \<and> \<not> has_id (imdbID p) z)"
  proof
    fix z assume z: "z \<in> set (docs w')"
    show "z = d \<or> (z \<in> set (docs w) \<and> \<not> has_id (imdbID p) z)"
    proof (cases "has_id (imdbID p) z")
      case True
      then have "z \<in> set (filter (has_id (imdbID p)) (docs w'))" using z by simp
      then show ?thesis using fl by simp
    next
      case False
      then show ?thesis using z set_replace_first_subset[of "has_id (imdbID p)" d "docs w"] dw by auto
    qed
  qed
  have keep: "\<forall>z \<in> set (docs w). \<not> has_id (imdbID p) z \<longrightarrow> z \<in> set (docs w')"
  proof (intro ballI impI)
    fix z assume "z \<in> set (docs w)" "\<not> has_id (imdbID p) z"
    then show "z \<in> set (docs w')" unfolding dw by (rule replace_first_keep)
  qed
  show ?thesis using m fl mem sub keep assms(1) by (simp add: unique_ids_def)
qed

lemma filter_single_find: "filter P xs = [y] \<Longrightarrow> find P xs = Some y"
  by (induction xs) (auto split: if_splits simp: filter_empty_conv find_None_iff2)

lemma saveMovieToCache_twice:
  assumes "unique_ids w" and "saveMovieToCache e p w = (Inr d1, w1)"
  shows "\<exists>d2 w2. saveMovieToCache e p (w1\<lparr>now := t2\<rparr>) = (Inr d2, w2) \<and>
           filter (has_id (imdbID p)) (docs w2) = [d2] \<and> length (docs w2) = length (docs w1) \<and>
           data d2 = cast_data p \<and> cacheExpiry d2 = Some (t2 + ttl) \<and> lastUpdated d2 = Some t2 \<and>
           createdAt d2 = createdAt d1"
proof -
  from saveMovieToCache_Inr[OF assms(2)]
  have f: "store_fault w = None" and v: "valid_data e (cast_data p)" and w1: "w1 = w\<lparr>docs := docs w1\<rparr>"
    by simp_all
  from saveMovieToCache_ids[OF assms]
  have u1: "unique_ids w1" and fl: "filter (has_id (imdbID p)) (docs w1) = [d1]" by simp_all
  let ?w = "w1\<lparr>now := t2\<rparr>"
  have f1: "store_fault ?w = None" using f w1 by (metis world.select_convs(3) world.surjective world.update_convs(1,2))
  obtain d2 w2 where s2: "saveMovieToCache e p ?w = (Inr d2, w2)"
    using saveMovieToCache_succeeds[OF f1 v] by blast
  have u: "unique_ids ?w" using u1 by (simp add: unique_ids_def)
  have fd: "find (has_id (imdbID p)) (docs ?w) = Some d1" using fl by (simp add: filter_single_find)
  from saveMovieToCache_Inr[OF s2] fd
  have "data d2 = cast_data p" "cacheExpiry d2 = Some (t2 + ttl)" "lastUpdated d2 = Some t2"
       "createdAt d2 = createdAt d1" "length (docs w2) = length (docs w1)"
    by auto
  moreover from saveMovieToCache_ids[OF u s2] have "filter (has_id (imdbID p)) (docs w2) = [d2]" by simp
  ultimately show ?thesis using s2 by blast
qed

lemma transform_inception: "transformOMDBData (js sample_env) inception_raw = inception_data"
  by (simp add: transformOMDBData_def inception_raw_def inception_data_def sample_env_def
        parseInt_def or_null_def of_nan_def parseRuntime_def extractRating_def split_def
        remove_commas_def isDigit_def isSpace_def numeral_value_def digitVal_def percent_here_def)

lemma cast_inception: "cast_data inception_data = inception_data"
  by (simp add: cast_data_def inception_data_def trim_def isSpace_def)

lemma valid_inception: "valid_data sample_env inception_data"
  by (simp add: valid_data_def inception_data_def sample_env_def)

lemma save_inception:
  "saveMovieToCache sample_env inception_data (world_of [] 1000) =
     (Inr (new_Movie inception_data 1000), world_of [new_Movie inception_data 1000] 1000)"
  unfolding saveMovieToCache_def findOne_def store_error_def save_new_def
  by (simp add: world_of_def new_Movie_def cast_inception valid_inception)

text \<open>
  Claim C5, as the code has it. Upsert is keyed by the external identifier. A successful
  upsert into a store with unique identifiers leaves exactly one record for the
  identifier; its normalised fields are those of the payload as the schema stores them
  (the setters trim the title, the plot, the poster, the content rating and the elements
  of the lists), \<open>cacheExpiry\<close> is the time of the upsert plus the TTL and
  \<open>lastUpdated\<close> is that time. When the identifier was stored, the document is
  overwritten in place and keeps its position and its other fields; when it was absent,
  a new document is appended. A second upsert of the same payload, at any later time,
  succeeds as well and leaves one record for the identifier and the same number of
  records, with the fields of the payload and the expiry pushed to the new time plus
  the TTL.
\<close>

theorem saveMovieToCache_upsert:
  assumes "unique_ids w" and "saveMovieToCache e p w = (Inr d1, w1)"
  shows "(case find (has_id (imdbID p)) (docs w) of
            None \<Rightarrow> d1 = new_Movie p (now w) \<and> docs w1 = docs w @ [d1]
          | Some x \<Rightarrow>
              d1 = x\<lparr>data := cast_data p, cacheExpiry := Some (now w + ttl),
                     lastUpdated := Some (now w), updatedAt := now w\<rparr> \<and>
              docs w1 = replace_first (has_id (imdbID p)) d1 (docs w) \<and>
              length (docs w1) = length (docs w)) \<and>
         filter (has_id (imdbID p)) (docs w1) = [d1] \<and>
         data d1 = cast_data p \<and> cacheExpiry d1 = Some (now w + ttl) \<and> lastUpdated d1 = Some (now w) \<and>
         (\<forall>t2. \<exists>d2 w2. saveMovieToCache e p (w1\<lparr>now := t2\<rparr>) = (Inr d2, w2) \<and>
             filter (has_id (imdbID p)) (docs w2) = [d2] \<and> length (docs w2) = length (docs w1) \<and>
             data d2 = cast_data p \<and> cacheExpiry d2 = Some (t2 + ttl) \<and> lastUpdated d2 = Some t2 \<and>
             createdAt d2 = createdAt d1)"
proof -
  have a: "(case find (has_id (imdbID p)) (docs w) of
            None \<Rightarrow> d1 = new_Movie p (now w) \<and> docs w1 = docs w @ [d1]
          | Some x \<Rightarrow>
              d1 = x\<lparr>data := cast_data p, cacheExpiry := Some (now w + ttl),
                     lastUpdated := Some (now w), updatedAt := now w\<rparr> \<and>
              docs w1 = replace_first (has_id (imdbID p)) d1 (docs w) \<and>
              length (docs w1) = length (docs w))"
    using saveMovieToCache_Inr[OF assms(2)] by (auto split: option.splits)
  have b: "filter (has_id (imdbID p)) (docs w1) = [d1]" using saveMovieToCache_ids[OF assms] by simp
  have c: "data d1 = cast_data p \<and> cacheExpiry d1 = Some (now w + ttl) \<and> lastUpdated d1 = Some (now w)"
    using saveMovieToCache_Inr[OF assms(2)] by simp
  show ?thesis using a b c saveMovieToCache_twice[OF assms] by blast
qed

theorem saveMovieToCache_upsert_witness:
  "\<exists>d2 w2. saveMovieToCache sample_env inception_data (inception_world 5000) = (Inr d2, w2) \<and>
      filter (has_id ''tt1375666'') (docs w2) = [d2] \<and> length (docs w2) = 1 \<and>
      data d2 = inception_data \<and> cacheExpiry d2 = Some (5000 + ttl) \<and> lastUpdated d2 = Some 5000"
proof -
  have u: "unique_ids (world_of [] 1000)" by (simp add: unique_ids_def world_of_def)
  have w: "(world_of [new_Movie inception_data 1000] 1000)\<lparr>now := 5000\<rparr> = inception_world 5000"
    by (simp add: inception_world_def world_of_def)
  have i: "imdbID inception_data = ''tt1375666''" by (simp add: inception_data_def)
  from saveMovieToCache_upsert[OF u save_inception]
  have "\<exists>d2 w2. saveMovieToCache sample_env inception_data
                  ((world_of [new_Movie inception_data 1000] 1000)\<lparr>now := 5000\<rparr>) = (Inr d2, w2) \<and>
          filter (has_id (imdbID inception_data)) (docs w2) = [d2] \<and>
          length (docs w2) = length (docs (world_of [new_Movie inception_data 1000] 1000)) \<and>
          data d2 = cast_data inception_data \<and> cacheExpiry d2 = Some (5000 + ttl) \<and>
          lastUpdated d2 = Some 5000 \<and> createdAt d2 = createdAt (new_Movie inception_data 1000)"
    by blast
  then show ?thesis unfolding w i cast_inception by (auto simp: world_of_def)
qed

text \<open>
  The claim as it is written has the stored fields equal to the payload. A payload whose
  title carries surrounding blanks is upserted twice into an empty store: one record is
  left, and its title is the trimmed one.
\<close>

theorem saveMovieToCache_stores_trimmed_title:
  "title padded_data = '' Inception '' \<and>
   length (docs (snd (saveMovieToCache sample_env padded_data
                        (snd (saveMovieToCache sample_env padded_data (world_of [] 1000)))))) = 1 \<and>
   title (data (hd (docs (snd (saveMovieToCache sample_env padded_data
                        (snd (saveMovieToCache sample_env padded_data (world_of [] 1000)))))))) = ''Inception''"
  unfolding saveMovieToCache_def findOne_def store_error_def save_new_def save_existing_def
  by (simp add: world_of_def new_Movie_def padded_data_def sample_data_def cast_data_def
        valid_data_def sample_env_def has_id_def trim_def isSpace_def Let_def)

subsection \<open>The expiry of stored records\<close>

lemma expiry_inv_subset:
  "expiry_inv w \<Longrightarrow> set (docs w') \<subseteq> set (docs w) \<Longrightarrow> now w \<le> now w' \<Longrightarrow> expiry_inv w'"
  unfolding expiry_inv_def by (meson order_trans subsetD)

lemma expiry_inv_insert:
  assumes "expiry_inv w" "set (docs w') \<subseteq> insert d (set (docs w))" "now w' = now w"
    "lastUpdated d = Some (now w)" "cacheExpiry d = Some (now w + ttl)"
  shows "expiry_inv w'"
  unfolding expiry_inv_def
proof
  fix x assume "x \<in> set (docs w')"
  then consider "x = d" | "x \<in> set (docs w)" using assms(2) by auto
  then show "\<exists>t\<le>now w'. lastUpdated x = Some t \<and> cacheExpiry x = Some (t + ttl)"
  proof cases
    case 1
    then show ?thesis using assms(3,4,5) by auto
  next
    case 2
    then show ?thesis using assms(1,3) by (auto simp: expiry_inv_def)
  qed
qed

lemma saveMovieToCache_docs_subset:
  assumes "saveMovieToCache e p w = (Inr d, w')"
  shows "set (docs w') \<subseteq> insert d (set (docs w)) \<and> now w' = now w \<and> store_fault w' = store_fault w
         \<and> requests w' = requests w"
proof -
  from saveMovieToCache_Inr[OF assms] have w: "w' = w\<lparr>docs := docs w'\<rparr>"
    and c: "(case find (has_id (imdbID p)) (docs w) of
            None \<Rightarrow> docs w' = docs w @ [d]
          | Some x \<Rightarrow> docs w' = replace_first (has_id (imdbID p)) d (docs w))"
    by (auto split: option.splits)
  have "set (docs w') \<subseteq> insert d (set (docs w))"
    using c set_replace_first_subset[of "has_id (imdbID p)" d "docs w"] by (auto split: option.splits)
  moreover have "now w' = now w" "store_fault w' = store_fault w" "requests w' = requests w"
    by (metis w world.select_convs world.surjective world.update_convs(1))+
  ultimately show ?thesis by simp
qed

lemma saveMovieToCache_inv:
  "expiry_inv w \<Longrightarrow> expiry_inv (snd (saveMovieToCache e p w))"
proof -
  assume inv: "expiry_inv w"
  obtain r w' where s: "saveMovieToCache e p w = (r, w')" by (cases "saveMovieToCache e p w")
  show ?thesis
  proof (cases r)
    case (Inl err)
    then show ?thesis using s inv saveMovieToCache_Inl by fastforce
  next
    case (Inr d)
    then have s': "saveMovieToCache e p w = (Inr d, w')" using s by simp
    from saveMovieToCache_docs_subset[OF s'] saveMovieToCache_Inr[OF s'] inv
    have "expiry_inv w'" by (intro expiry_inv_insert[of w w' d]) auto
    then show ?thesis using s by simp
  qed
qed

lemma getMovieDetailsOMDB_world:
  "docs (snd (getMovieDetailsOMDB e i w)) = docs w \<and> now (snd (getMovieDetailsOMDB e i w)) = now w \<and>
   store_fault (snd (getMovieDetailsOMDB e i w)) = store_fault w"
  unfolding getMovieDetailsOMDB_def
  by (auto simp: Let_def split: sum.splits detail_response.splits)

lemma searchMoviesOMDB_world:
  "docs (snd (searchMoviesOMDB e term page w)) = docs w \<and> now (snd (searchMoviesOMDB e term page w)) = now w \<and>
   store_fault (snd (searchMoviesOMDB e term page w)) = store_fault w"
  unfolding searchMoviesOMDB_def
  by (auto simp: Let_def split: sum.splits search_response.splits)

lemma expiry_inv_cong:
  "docs w' = docs w \<Longrightarrow> now w' = now w \<Longrightarrow> expiry_inv w' = expiry_inv w"
  by (simp add: expiry_inv_def)

lemma cacheOne_inv: "expiry_inv w \<Longrightarrow> expiry_inv (snd (cacheOne e i w))"
proof -
  assume inv: "expiry_inv w"
  obtain r w1 where g: "getMovieDetailsOMDB e i w = (r, w1)" by (cases "getMovieDetailsOMDB e i w")
  have inv1: "expiry_inv w1"
    using getMovieDetailsOMDB_world[of e i w] g inv expiry_inv_cong[of w1 w] by simp
  show ?thesis
  proof (cases r)
    case (Inl a)
    then show ?thesis using g inv1 by (simp add: cacheOne_def)
  next
    case (Inr p)
    obtain r2 w2 where s: "saveMovieToCache e p w1 = (r2, w2)" by (cases "saveMovieToCache e p w1")
    have "expiry_inv w2" using saveMovieToCache_inv[OF inv1, of e p] s by simp
    then show ?thesis using g Inr s by (cases r2) (simp_all add: cacheOne_def)
  qed
qed

lemma cachePromises_inv: "expiry_inv w \<Longrightarrow> expiry_inv (snd (cachePromises e ids w))"
proof (induction ids arbitrary: w)
  case Nil
  then show ?case by simp
next
  case (Cons i ids)
  obtain r w1 where c: "cacheOne e i w = (r, w1)" by (cases "cacheOne e i w")
  have "expiry_inv w1" using cacheOne_inv[OF Cons.prems, of e i] c by simp
  from Cons.IH[OF this] show ?case using c by (cases "cachePromises e ids w1") simp
qed

lemma searchMovies_inv: "expiry_inv w \<Longrightarrow> expiry_inv (snd (searchMovies e term page useCache w))"
proof -
  assume inv: "expiry_inv w"
  obtain r w1 where o: "searchMoviesOMDB e term page w = (r, w1)" by (cases "searchMoviesOMDB e term page w")
  have inv1: "expiry_inv w1"
    using searchMoviesOMDB_world[of e "term" page w] o inv expiry_inv_cong[of w1 w] by simp
  have inv2: "cachePromises e ids w1 = (x, y) \<Longrightarrow> expiry_inv y" for ids x y
    using cachePromises_inv[OF inv1, of e ids] by simp
  show ?thesis
    unfolding searchMovies_def using inv inv1 inv2 o
    by (auto split: sum.splits prod.splits if_splits)
qed

lemma update_movie_Ok:
  assumes "update_movie e i w = (Ok d, w')"
  shows "d \<in> set (docs w') \<and> cacheExpiry d = Some (now w + ttl) \<and> lastUpdated d = Some (now w) \<and>
         set (docs w') \<subseteq> insert d (set (docs w)) \<and> now w' = now w"
proof -
  from assms obtain movie where f: "findOne (has_id i) w = Inr (Some movie)"
    unfolding update_movie_def by (auto split: sum.splits option.splits)
  then have fm: "find (has_id i) (docs w) = Some movie"
    by (auto simp: findOne_def split: option.splits)
  obtain r w1 where g: "getMovieDetailsOMDB e i w = (r, w1)" by (cases "getMovieDetailsOMDB e i w")
  from assms f g obtain p where r: "r = Inr p"
    unfolding update_movie_def by (cases r) auto
  have w1: "docs w1 = docs w" "now w1 = now w" using getMovieDetailsOMDB_world[of e i w] g by simp_all
  let ?m = "movie\<lparr>data := cast_data p, cacheExpiry := Some (now w1 + ttl), lastUpdated := Some (now w1)\<rparr>"
  from assms f g r have s: "save_existing e i ?m w1 = (Inr d, w')"
    unfolding update_movie_def by (auto split: sum.splits prod.splits)
  then have d: "d = ?m\<lparr>updatedAt := now w1\<rparr>"
    and dw: "docs w' = replace_first (has_id i) d (docs w1)" and nw: "now w' = now w1"
    unfolding save_existing_def by (auto simp: Let_def split: if_splits option.splits)
  have "\<exists>x \<in> set (docs w1). has_id i x" using fm w1 find_Some_mem by fastforce
  then have "d \<in> set (docs w')" unfolding dw by (rule replace_first_mem)
  moreover have "set (docs w') \<subseteq> insert d (set (docs w))"
    unfolding dw w1 by (rule set_replace_first_subset)
  ultimately show ?thesis using d w1 nw by simp
qed

lemma update_movie_not_Ok:
  assumes "update_movie e i w = (r, w')" "\<forall>d. r \<noteq> Ok d"
  shows "docs w' = docs w \<and> now w' = now w"
  using assms getMovieDetailsOMDB_world[of e i w]
  unfolding update_movie_def save_existing_def
  by (auto simp: Let_def split: sum.splits option.splits prod.splits if_splits)

lemma update_movie_inv: "expiry_inv w \<Longrightarrow> expiry_inv (snd (update_movie e i w))"
proof -
  assume inv: "expiry_inv w"
  obtain r w' where u: "update_movie e i w = (r, w')" by (cases "update_movie e i w")
  show ?thesis
  proof (cases "\<exists>d. r = Ok d")
    case True
    then obtain d where "update_movie e i w = (Ok d, w')" using u by auto
    from update_movie_Ok[OF this] inv have "expiry_inv w'"
      by (intro expiry_inv_insert[of w w' d]) auto
    then show ?thesis using u by simp
  next
    case False
    then show ?thesis using update_movie_not_Ok[OF u] inv expiry_inv_cong[of w' w] u by simp
  qed
qed

lemma deleteMany_inv: "expiry_inv w \<Longrightarrow> expiry_inv (snd (deleteMany q w))"
  unfolding deleteMany_def expiry_inv_def by (auto split: option.splits)

lemma getMovieById_inv: "expiry_inv w \<Longrightarrow> expiry_inv (snd (getMovieById e i w))"
proof -
  assume inv: "expiry_inv w"
  obtain r w1 where g: "getMovieDetailsOMDB e i w = (r, w1)" by (cases "getMovieDetailsOMDB e i w")
  have inv1: "expiry_inv w1"
    using getMovieDetailsOMDB_world[of e i w] g inv expiry_inv_cong[of w1 w] by simp
  have inv2: "expiry_inv (snd (saveMovieToCache e p w1))" for p
    by (rule saveMovieToCache_inv[OF inv1])
  have inv3: "saveMovieToCache e p w1 = (x, y) \<Longrightarrow> expiry_inv y" for p x y
    using inv2[of p] by simp
  show ?thesis
    unfolding getMovieById_def using inv inv1 inv3 g
    by (auto split: sum.splits option.splits prod.splits)
qed

lemma reachable_expiry_inv: "reachable e w \<Longrightarrow> expiry_inv w"
proof (induction rule: reachable.induct)
  case (start t f)
  then show ?case by (simp add: expiry_inv_def)
next
  case (tick w t f)
  then show ?case unfolding expiry_inv_def by (auto intro: order_trans)
next
  case (save w p)
  then show ?case by (simp add: saveMovieToCache_inv)
next
  case (search w "term" page useCache)
  then show ?case by (simp add: searchMovies_inv)
next
  case (update w i)
  then show ?case by (simp add: update_movie_inv)
next
  case (lookup w i)
  then show ?case by (simp add: getMovieById_inv)
next
  case (remove w q)
  from remove.IH show ?case by (rule deleteMany_inv)
next
  case (purge w)
  from purge.IH have "expiry_inv (snd (deleteMany (matches e (expired_query (now w))) w))"
    by (rule deleteMany_inv)
  then show ?case unfolding cleanExpiredCache_def by (auto split: prod.splits sum.splits)
next
  case (cleanup w c)
  from cleanup.IH show ?case unfolding cleanupByCriteria_def by (rule deleteMany_inv)
qed

lemma matches_plain_listing:
  "matches e (list_query (searchSchema_value no_params) t) = isActive t"
  by (rule ext)
     (simp add: matches_def list_query_def searchSchema_value_def no_params_def truthy_str_def
        genre_given_def isActive_cond)

lemma update_inception:
  "update_movie sample_env ''tt1375666'' (inception_world 5000) =
     (Ok ((new_Movie inception_data 1000)\<lparr>cacheExpiry := Some (5000 + ttl), lastUpdated := Some 5000,
                                          updatedAt := 5000\<rparr>),
      \<lparr>docs = [(new_Movie inception_data 1000)\<lparr>cacheExpiry := Some (5000 + ttl),
                                                lastUpdated := Some 5000, updatedAt := 5000\<rparr>],
       now = 5000, store_fault = None, requests = [DetailRequest ''tt1375666'']\<rparr>)"
proof -
  have g: "getMovieDetailsOMDB sample_env ''tt1375666'' (inception_world 5000) =
             (Inr inception_data, (inception_world 5000)\<lparr>requests := [DetailRequest ''tt1375666'']\<rparr>)"
    unfolding getMovieDetailsOMDB_def
    by (simp add: transform_inception[symmetric] inception_world_def world_of_def truthy_str_def)
       (simp add: sample_env_def)
  have f: "findOne (has_id ''tt1375666'') (inception_world 5000) = Inr (Some (new_Movie inception_data 1000))"
    by (simp add: findOne_def store_error_def inception_world_def world_of_def has_id_def new_Movie_def
          inception_data_def cast_data_def)
  show ?thesis
    unfolding update_movie_def f g save_existing_def store_error_def
    by (simp add: cast_inception valid_inception inception_world_def world_of_def new_Movie_def
          has_id_def Let_def) (simp add: inception_data_def)
qed

text \<open>
  Claim C3. In every state that the service and the routes reach from an empty store, each stored
  record has \<open>cacheExpiry\<close> set, to the time of its creation or last refresh (which
  \<open>lastUpdated\<close> records and which is not in the future) plus the TTL of 24 hours. A
  successful upsert and a successful administrative update return a stored record whose
  \<open>cacheExpiry\<close> is the time of the operation plus the TTL. The record is active, that
  is, the unfiltered listing query selects it, exactly when the clock is before its
  \<open>cacheExpiry\<close>.
\<close>

theorem cacheExpiry_is_refresh_time_plus_ttl:
  assumes "reachable e w"
  shows "ttl = 24 * 60 * 60 * 1000 \<and>
         (\<forall>d \<in> set (docs w). \<exists>t. t \<le> now w \<and> lastUpdated d = Some t \<and> cacheExpiry d = Some (t + ttl)) \<and>
         (\<forall>p d w'. saveMovieToCache e p w = (Inr d, w') \<longrightarrow>
              d \<in> set (docs w') \<and> cacheExpiry d = Some (now w + ttl) \<and> expiry_inv w') \<and>
         (\<forall>i d w'. update_movie e i w = (Ok d, w') \<longrightarrow>
              d \<in> set (docs w') \<and> cacheExpiry d = Some (now w + ttl) \<and> expiry_inv w') \<and>
         (\<forall>d \<in> set (docs w).
              matches e (list_query (searchSchema_value no_params) (now w)) d \<longleftrightarrow>
              (\<exists>x. cacheExpiry d = Some x \<and> now w < x))"
proof -
  have inv: "expiry_inv w" using assms by (rule reachable_expiry_inv)
  have a: "\<forall>d \<in> set (docs w). \<exists>t. t \<le> now w \<and> lastUpdated d = Some t \<and> cacheExpiry d = Some (t + ttl)"
    using inv by (simp add: expiry_inv_def)
  have b: "d \<in> set (docs w') \<and> cacheExpiry d = Some (now w + ttl) \<and> expiry_inv w'"
    if "saveMovieToCache e p w = (Inr d, w')" for p d w'
  proof -
    have "d \<in> set (docs w')"
      using saveMovieToCache_Inr[OF that] replace_first_mem[of "docs w" "has_id (imdbID p)" d]
        find_Some_mem[of "has_id (imdbID p)" "docs w"]
      by (auto split: option.splits)
    moreover have "expiry_inv w'" using saveMovieToCache_inv[OF inv, of e p] that by simp
    ultimately show ?thesis using saveMovieToCache_Inr[OF that] by simp
  qed
  have c: "d \<in> set (docs w') \<and> cacheExpiry d = Some (now w + ttl) \<and> expiry_inv w'"
    if "update_movie e i w = (Ok d, w')" for i d w'
    using update_movie_Ok[OF that] update_movie_inv[OF inv, of e i] that by simp
  have d: "\<forall>d \<in> set (docs w).
              matches e (list_query (searchSchema_value no_params) (now w)) d \<longleftrightarrow>
              (\<exists>x. cacheExpiry d = Some x \<and> now w < x)"
    by (simp add: matches_plain_listing isActive_def split: option.splits)
  show ?thesis using a b c d by (simp add: ttl_def)
qed

theorem cacheExpiry_is_refresh_time_plus_ttl_witness:
  "reachable sample_env (inception_world 5000) \<and>
   (\<exists>t. t \<le> 5000 \<and> lastUpdated (new_Movie inception_data 1000) = Some t \<and>
        cacheExpiry (new_Movie inception_data 1000) = Some (t + ttl)) \<and>
   (\<exists>d w'. saveMovieToCache sample_env inception_data (inception_world 5000) = (Inr d, w') \<and>
        d \<in> set (docs w') \<and> cacheExpiry d = Some (5000 + ttl)) \<and>
   (\<exists>d w'. update_movie sample_env ''tt1375666'' (inception_world 5000) = (Ok d, w') \<and>
        d \<in> set (docs w') \<and> cacheExpiry d = Some (5000 + ttl)) \<and>
   matches sample_env (list_query (searchSchema_value no_params) 5000) (new_Movie inception_data 1000)"
proof -
  have r0: "reachable sample_env (world_of [] 1000)"
    unfolding world_of_def by (rule reachable.start)
  have "reachable sample_env (snd (saveMovieToCache sample_env inception_data (world_of [] 1000)))"
    using r0 by (rule reachable.save)
  then have r1: "reachable sample_env (world_of [new_Movie inception_data 1000] 1000)"
    by (simp add: save_inception)
  have "reachable sample_env ((world_of [new_Movie inception_data 1000] 1000)\<lparr>now := 5000, store_fault := None\<rparr>)"
    using r1 by (rule reachable.tick) (simp add: world_of_def)
  then have r: "reachable sample_env (inception_world 5000)"
    by (simp add: inception_world_def world_of_def)
  have dw: "docs (inception_world 5000) = [new_Movie inception_data 1000]"
    and nw: "now (inception_world 5000) = 5000"
    and fw: "store_fault (inception_world 5000) = None"
    by (simp_all add: inception_world_def world_of_def)
  obtain d w' where s: "saveMovieToCache sample_env inception_data (inception_world 5000) = (Inr d, w')"
    using saveMovieToCache_succeeds[OF fw, of sample_env inception_data] cast_inception valid_inception
    by auto
  have act: "\<exists>x. cacheExpiry (new_Movie inception_data 1000) = Some x \<and> 5000 < x"
    by (simp add: new_Movie_def ttl_def)
  from cacheExpiry_is_refresh_time_plus_ttl[OF r] dw nw s update_inception act
  show ?thesis using r by auto
qed

subsection \<open>The provider path of a search\<close>

lemma getMovieDetailsOMDB_fetched:
  "fst (getMovieDetailsOMDB e i w) = (case fetched e i of None \<Rightarrow> fst (getMovieDetailsOMDB e i w) | Some p \<Rightarrow> Inr p) \<and>
   (fetched e i = None \<longrightarrow> (\<exists>err. fst (getMovieDetailsOMDB e i w) = Inl err))"
  unfolding getMovieDetailsOMDB_def fetched_def
  by (auto simp: Let_def split: sum.splits detail_response.splits)

lemma getMovieDetailsOMDB_requests:
  "truthy_str (omdbApiKey e) \<Longrightarrow>
   requests (snd (getMovieDetailsOMDB e i w)) = requests w @ [DetailRequest i]"
  unfolding getMovieDetailsOMDB_def
  by (auto simp: Let_def split: sum.splits detail_response.splits)

lemma stored_fresh_save:
  assumes "saveMovieToCache e p w = (r, w')"
  shows "stored_fresh w (now w) j \<Longrightarrow> stored_fresh w' (now w) j"
    and "r = Inr d \<Longrightarrow> stored_fresh w' (now w) (imdbID p)"
proof -
  show "r = Inr d \<Longrightarrow> stored_fresh w' (now w) (imdbID p)"
  proof -
    assume r: "r = Inr d"
    then have s: "saveMovieToCache e p w = (Inr d, w')" using assms by simp
    have "d \<in> set (docs w')"
      using saveMovieToCache_Inr[OF s] replace_first_mem[of "docs w" "has_id (imdbID p)" d]
        find_Some_mem[of "has_id (imdbID p)" "docs w"]
      by (auto split: option.splits)
    moreover have "has_id (imdbID p) d" "cacheExpiry d = Some (now w + ttl)"
      using saveMovieToCache_Inr[OF s] by (simp_all add: has_id_def)
    ultimately show ?thesis unfolding stored_fresh_def by blast
  qed
next
  assume sf: "stored_fresh w (now w) j"
  then obtain x where x: "x \<in> set (docs w)" "has_id j x" "cacheExpiry x = Some (now w + ttl)"
    unfolding stored_fresh_def by blast
  show "stored_fresh w' (now w) j"
  proof (cases r)
    case (Inl err)
    then have "w' = w" using assms saveMovieToCache_Inl by blast
    then show ?thesis using sf by simp
  next
    case (Inr d)
    then have s: "saveMovieToCache e p w = (Inr d, w')" using assms by simp
    have dm: "d \<in> set (docs w')"
      using saveMovieToCache_Inr[OF s] replace_first_mem[of "docs w" "has_id (imdbID p)" d]
        find_Some_mem[of "has_id (imdbID p)" "docs w"]
      by (auto split: option.splits)
    have dp: "has_id (imdbID p) d" "cacheExpiry d = Some (now w + ttl)"
      using saveMovieToCache_Inr[OF s] by (simp_all add: has_id_def)
    show ?thesis
    proof (cases "j = imdbID p")
      case True
      then show ?thesis using dm dp unfolding stored_fresh_def by blast
    next
      case False
      then have nx: "\<not> has_id (imdbID p) x" using x(2) by (auto simp: has_id_def)
      have "x \<in> set (docs w')"
        using saveMovieToCache_Inr[OF s] replace_first_keep[of x "docs w" "has_id (imdbID p)" d] x(1) nx
        by (auto split: option.splits)
      then show ?thesis using x unfolding stored_fresh_def by blast
    qed
  qed
qed

lemma cacheOne_result:
  "fst (cacheOne e i w) = item_result e w i \<and>
   now (snd (cacheOne e i w)) = now w \<and> store_fault (snd (cacheOne e i w)) = store_fault w \<and>
   (truthy_str (omdbApiKey e) \<longrightarrow> requests (snd (cacheOne e i w)) = requests w @ [DetailRequest i]) \<and>
   (stored_fresh w (now w) j \<longrightarrow> stored_fresh (snd (cacheOne e i w)) (now w) j) \<and>
   (\<forall>p. item_result e w i = Some p \<longrightarrow> stored_fresh (snd (cacheOne e i w)) (now w) (imdbID p))"
proof -
  obtain r w1 where g: "getMovieDetailsOMDB e i w = (r, w1)" by (cases "getMovieDetailsOMDB e i w")
  have w1: "docs w1 = docs w" "now w1 = now w" "store_fault w1 = store_fault w"
    using getMovieDetailsOMDB_world[of e i w] g by simp_all
  have rq: "truthy_str (omdbApiKey e) \<Longrightarrow> requests w1 = requests w @ [DetailRequest i]"
    using getMovieDetailsOMDB_requests[of e i w] g by simp
  have sf1: "stored_fresh w1 t j = stored_fresh w t j" for t j by (simp add: stored_fresh_def w1)
  show ?thesis
  proof (cases "fetched e i")
    case None
    then obtain err where "r = Inl err" using getMovieDetailsOMDB_fetched[of e i w] g by auto
    then show ?thesis using g None w1 rq sf1 by (simp add: cacheOne_def item_result_def)
  next
    case (Some p)
    then have r: "r = Inr p" using getMovieDetailsOMDB_fetched[of e i w] g by simp
    obtain r2 w2 where s: "saveMovieToCache e p w1 = (r2, w2)" by (cases "saveMovieToCache e p w1")
    have c: "cacheOne e i w = ((case r2 of Inl err \<Rightarrow> None | Inr d \<Rightarrow> Some p), w2)"
      using g r s by (simp add: cacheOne_def split: sum.splits)
    have keep: "stored_fresh w (now w) j \<Longrightarrow> stored_fresh w2 (now w) j"
      using stored_fresh_save(1)[OF s, of j] sf1 w1 by simp
    show ?thesis
    proof (cases r2)
      case (Inl err)
      then have "w2 = w1" "store_fault w1 \<noteq> None \<or> \<not> valid_data e (cast_data p)"
        using saveMovieToCache_Inl s by blast+
      then show ?thesis using c Inl Some w1 rq keep by (auto simp: item_result_def)
    next
      case (Inr d)
      then have s': "saveMovieToCache e p w1 = (Inr d, w2)" using s by simp
      from saveMovieToCache_Inr[OF s'] saveMovieToCache_docs_subset[OF s']
      have ok: "store_fault w1 = None" "valid_data e (cast_data p)"
        and w2: "now w2 = now w1" "store_fault w2 = store_fault w1" "requests w2 = requests w1"
        by simp_all
      have "stored_fresh w2 (now w) (imdbID p)"
        using stored_fresh_save(2)[OF s, of d] Inr w1 by simp
      then show ?thesis using c Inr Some w1 w2 ok rq keep by (auto simp: item_result_def)
    qed
  qed
qed

lemma item_result_cong: "store_fault w' = store_fault w \<Longrightarrow> item_result e w' = item_result e w"
  by (rule ext) (simp add: item_result_def cong: option.case_cong)

lemma cachePromises_results:
  "fst (cachePromises e ids w) = map (item_result e w) ids \<and>
   now (snd (cachePromises e ids w)) = now w \<and>
   store_fault (snd (cachePromises e ids w)) = store_fault w \<and>
   (truthy_str (omdbApiKey e) \<longrightarrow>
      requests (snd (cachePromises e ids w)) = requests w @ map DetailRequest ids) \<and>
   (stored_fresh w (now w) j \<longrightarrow> stored_fresh (snd (cachePromises e ids w)) (now w) j) \<and>
   (\<forall>p \<in> set (successfulCaches (map (item_result e w) ids)).
      stored_fresh (snd (cachePromises e ids w)) (now w) (imdbID p))"
proof (induction ids arbitrary: w j)
  case Nil
  then show ?case by (simp add: successfulCaches_def)
next
  case (Cons i ids)
  obtain r w1 where c: "cacheOne e i w = (r, w1)" by (cases "cacheOne e i w")
  obtain rs w2 where cs: "cachePromises e ids w1 = (rs, w2)" by (cases "cachePromises e ids w1")
  have all: "cachePromises e (i # ids) w = (r # rs, w2)" using c cs by simp
  have one: "r = item_result e w i" "now w1 = now w" "store_fault w1 = store_fault w"
    using cacheOne_result[of e i w] c by simp_all
  have one_rq: "truthy_str (omdbApiKey e) \<Longrightarrow> requests w1 = requests w @ [DetailRequest i]"
    using cacheOne_result[of e i w] c by simp
  have one_keep: "stored_fresh w (now w) k \<Longrightarrow> stored_fresh w1 (now w) k" for k
    using cacheOne_result[of e i w k] c by simp
  have one_new: "item_result e w i = Some p \<Longrightarrow> stored_fresh w1 (now w) (imdbID p)" for p
    using cacheOne_result[of e i w] c by simp
  have ir: "item_result e w1 = item_result e w" using one(3) by (rule item_result_cong)
  have rest: "rs = map (item_result e w) ids" "now w2 = now w" "store_fault w2 = store_fault w"
    using Cons.IH[of w1] cs ir one by simp_all
  have rest_rq: "truthy_str (omdbApiKey e) \<Longrightarrow> requests w2 = requests w1 @ map DetailRequest ids"
    using Cons.IH[of w1] cs by simp
  have rest_keep: "stored_fresh w1 (now w) k \<Longrightarrow> stored_fresh w2 (now w) k" for k
    using Cons.IH[of w1 k] cs one(2) by simp
  have rest_new: "\<forall>p \<in> set (successfulCaches (map (item_result e w) ids)). stored_fresh w2 (now w) (imdbID p)"
    using Cons.IH[of w1] cs ir one(2) by simp
  have new: "\<forall>p \<in> set (successfulCaches (map (item_result e w) (i # ids))). stored_fresh w2 (now w) (imdbID p)"
  proof
    fix p assume "p \<in> set (successfulCaches (map (item_result e w) (i # ids)))"
    then consider "item_result e w i = Some p" | "p \<in> set (successfulCaches (map (item_result e w) ids))"
      by (auto simp: successfulCaches_def split: if_splits)
    then show "stored_fresh w2 (now w) (imdbID p)"
      using one_new rest_keep rest_new by cases auto
  qed
  show ?case
    unfolding all using one rest one_rq rest_rq one_keep rest_keep new by auto
qed

lemma length_successfulCaches:
  "length (successfulCaches rs) = length rs - length (filter (\<lambda>r. r = None) rs)"
  unfolding successfulCaches_def
  using sum_length_filter_compl[of "\<lambda>r. r = None" rs] by simp

subsection \<open>The cache path of a search\<close>

lemma searchMovies_cache_source:
  assumes "searchMovies e term page useCache w = (Inr r, w')" and "res_source r = Some ''cache''"
  shows "useCache \<and> store_fault w = None \<and> active_matches e term w \<noteq> [] \<and> w' = w \<and>
         r = \<lparr>movies = map Stored (take 10 (sort_by (store_le e (SortTextScore term)) (active_matches e term w))),
              totalResults = int (length (take 10 (sort_by (store_le e (SortTextScore term)) (active_matches e term w)))),
              res_source = Some ''cache'', res_page = Some page, res_error = None\<rparr>"
  using assms
  unfolding searchMovies_def find_sorted_def store_error_def active_matches_def
  by (auto simp: matches_cache_query Let_def split: if_splits option.splits sum.splits prod.splits)

lemma searchMovies_cache_hit:
  assumes "store_fault w = None" and "active_matches e term w \<noteq> []"
  shows "searchMovies e term page True w =
     (Inr \<lparr>movies = map Stored (take 10 (sort_by (store_le e (SortTextScore term)) (active_matches e term w))),
           totalResults = int (length (take 10 (sort_by (store_le e (SortTextScore term)) (active_matches e term w)))),
           res_source = Some ''cache'', res_page = Some page, res_error = None\<rparr>, w)"
  using assms
  unfolding searchMovies_def find_sorted_def store_error_def active_matches_def
  by (auto simp: matches_cache_query Let_def min_def split: if_splits option.splits sum.splits prod.splits)

lemma active_matches_batman:
  "active_matches sample_env ''batman'' (world_of batman_docs 1000) = batman_docs"
  by (simp add: active_matches_def world_of_def batman_docs_def sample_env_def new_Movie_def
        sample_data_def cast_data_def isActive_def ttl_def toLowerCase_def lowerChar_def trim_def
        isSpace_def)

subsection \<open>Cache-aside search\<close>

lemma searchMoviesOMDB_found:
  assumes "truthy_str (omdbApiKey e)" "http_search e term page = Inr (SearchTrue (Some ids) tot)"
  shows "\<exists>n. searchMoviesOMDB e term page w =
           (Inr \<lparr>om_movies = ids, om_totalResults = n, om_error = None, om_page = Some page\<rparr>,
            w\<lparr>requests := requests w @ [SearchRequest term page]\<rparr>)"
  using assms unfolding searchMoviesOMDB_def by (simp add: Let_def)

lemma find_sorted_cache:
  "store_fault w = None \<Longrightarrow>
   find_sorted e (cache_query term (now w)) (SortTextScore term) 0 10 w =
     Inr (take 10 (sort_by (store_le e (SortTextScore term)) (active_matches e term w)))"
  unfolding find_sorted_def store_error_def active_matches_def
  by (simp add: matches_cache_query)

lemma searchMovies_provider:
  assumes go: "useCache \<longrightarrow> store_fault w = None \<and> active_matches e term w = []"
      and key: "truthy_str (omdbApiKey e)"
      and resp: "http_search e term page = Inr (SearchTrue (Some ids) tot)"
  shows "\<exists>r w'. searchMovies e term page useCache w = (Inr r, w') \<and>
           movies r = map Fresh (successfulCaches (map (item_result e w) ids)) \<and>
           res_source r = (if ids = [] then None else Some ''api'') \<and>
           now w' = now w \<and> store_fault w' = store_fault w \<and>
           requests w' = requests w @ SearchRequest term page # map DetailRequest ids \<and>
           (\<forall>p \<in> set (successfulCaches (map (item_result e w) ids)). stored_fresh w' (now w) (imdbID p))"
proof -
  let ?w1 = "w\<lparr>requests := requests w @ [SearchRequest term page]\<rparr>"
  obtain n where o: "searchMoviesOMDB e term page w =
           (Inr \<lparr>om_movies = ids, om_totalResults = n, om_error = None, om_page = Some page\<rparr>, ?w1)"
    using searchMoviesOMDB_found[OF key resp] by blast
  have cache: "(if useCache
            then find_sorted e (cache_query term (now w)) (SortTextScore term) 0 10 w
            else Inr []) = Inr []"
    using go by (simp add: find_sorted_cache sort_by_def)
  obtain rs w2 where c: "cachePromises e ids ?w1 = (rs, w2)" by (cases "cachePromises e ids ?w1")
  have ir: "item_result e ?w1 = item_result e w" by (rule item_result_cong) simp
  from cachePromises_results[of e ids ?w1] c ir key
  have rs: "rs = map (item_result e w) ids" and w2: "now w2 = now w" "store_fault w2 = store_fault w"
    and rq: "requests w2 = requests w @ SearchRequest term page # map DetailRequest ids"
    and st: "\<forall>p \<in> set (successfulCaches (map (item_result e w) ids)). stored_fresh w2 (now w) (imdbID p)"
    by simp_all
  show ?thesis
  proof (cases "ids = []")
    case True
    then show ?thesis
      unfolding searchMovies_def cache o by (simp add: successfulCaches_def)
  next
    case False
    then show ?thesis
      unfolding searchMovies_def cache o using c rs w2 rq st by simp
  qed
qed

lemma transform_matrix:
  "transformOMDBData (js sample_env) (matrix_raw i t ''1999'') =
     \<lparr> imdbID = i, title = t, year = Some 1999, released = Null, runtime = None,
       genre = [], director = [], writer = [], actors = [], plot = [],
       language = [], country = [], rating_imdb_score = Null, rating_imdb_votes = Null,
       rating_rottenTomatoes_score = None, rating_metacritic_score = None,
       poster = None, rated = None, type = ''movie'',
       links_imdb = ''https://www.imdb.com/title/'' @ i @ ''/'', source = ''omdb'' \<rparr>"
  "transformOMDBData (js sample_env) (matrix_raw i t ''2003'') =
     \<lparr> imdbID = i, title = t, year = Some 2003, released = Null, runtime = None,
       genre = [], director = [], writer = [], actors = [], plot = [],
       language = [], country = [], rating_imdb_score = Null, rating_imdb_votes = Null,
       rating_rottenTomatoes_score = None, rating_metacritic_score = None,
       poster = None, rated = None, type = ''movie'',
       links_imdb = ''https://www.imdb.com/title/'' @ i @ ''/'', source = ''omdb'' \<rparr>"
  "transformOMDBData (js sample_env) (matrix_raw i t ''2017'') =
     \<lparr> imdbID = i, title = t, year = Some 2017, released = Null, runtime = None,
       genre = [], director = [], writer = [], actors = [], plot = [],
       language = [], country = [], rating_imdb_score = Null, rating_imdb_votes = Null,
       rating_rottenTomatoes_score = None, rating_metacritic_score = None,
       poster = None, rated = None, type = ''movie'',
       links_imdb = ''https://www.imdb.com/title/'' @ i @ ''/'', source = ''omdb'' \<rparr>"
  by (simp_all add: transformOMDBData_def matrix_raw_def na_raw_def
        parseInt_def or_null_def parseRuntime_def extractRating_def
        isDigit_def isSpace_def numeral_value_def digitVal_def)

lemma item_results_matrix:
  "store_fault w = None \<Longrightarrow> item_result sample_env w ''tt0133093'' \<noteq> None"
  "item_result sample_env w ''tt0234215'' = None"
  "store_fault w = None \<Longrightarrow> item_result sample_env w ''tt0242653'' \<noteq> None"
  unfolding item_result_def fetched_def
  by (simp_all add: truthy_str_def transform_matrix[unfolded sample_env_def, simplified] sample_env_def
        valid_data_def cast_data_def trim_def isSpace_def)

lemma sort_by_all_le:
  assumes "\<And>a b. le a b"
  shows "sort_by le xs = xs"
proof (induction xs)
  case Nil
  show ?case by (simp add: sort_by_def)
next
  case (Cons x xs)
  then have "sort_by le (x # xs) = insert_by le x xs" by (simp add: sort_by_def)
  also have "\<dots> = x # xs" using assms by (cases xs) simp_all
  finally show ?case .
qed

lemma search_inception:
  "searchMovies sample_env ''Inception'' 1 True (world_of [] 1000) =
     (Inr \<lparr>movies = [Fresh inception_data], totalResults = 1, res_source = Some ''api'',
           res_page = Some 1, res_error = None\<rparr>,
      \<lparr>docs = [new_Movie inception_data 1000], now = 1000, store_fault = None,
       requests = [SearchRequest ''Inception'' 1, DetailRequest ''tt1375666'']\<rparr>)"
proof -
  have g: "getMovieDetailsOMDB sample_env ''tt1375666'' w =
             (Inr inception_data, w\<lparr>requests := requests w @ [DetailRequest ''tt1375666'']\<rparr>)" for w
    unfolding getMovieDetailsOMDB_def
    by (simp add: transform_inception[symmetric] truthy_str_def) (simp add: sample_env_def)
  have o: "searchMoviesOMDB sample_env ''Inception'' 1 w =
             (Inr \<lparr>om_movies = [''tt1375666''], om_totalResults = 1, om_error = None, om_page = Some 1\<rparr>,
              w\<lparr>requests := requests w @ [SearchRequest ''Inception'' 1]\<rparr>)" for w
    unfolding searchMoviesOMDB_def
    by (simp add: sample_env_def truthy_str_def parseInt_def or_null_def isSpace_def isDigit_def
          numeral_value_def digitVal_def)
  have s: "saveMovieToCache sample_env inception_data
             \<lparr>docs = [], now = 1000, store_fault = None, requests = rq\<rparr> =
             (Inr (new_Movie inception_data 1000),
              \<lparr>docs = [new_Movie inception_data 1000], now = 1000, store_fault = None, requests = rq\<rparr>)" for rq
    unfolding saveMovieToCache_def findOne_def store_error_def save_new_def
    by (simp add: new_Movie_def cast_inception valid_inception)
  show ?thesis
    unfolding searchMovies_def find_sorted_def store_error_def
    by (simp add: world_of_def sort_by_def o g s cacheOne_def successfulCaches_def)
qed

lemma get_it:
  "getMovieDetailsOMDB sample_env ''tt1396484'' w =
     (Inr it_data, w\<lparr>requests := requests w @ [DetailRequest ''tt1396484'']\<rparr>)"
proof -
  have t: "transformOMDBData (js sample_env) (matrix_raw ''tt1396484'' ''It'' ''2017'') = it_data"
    by (simp add: transform_matrix it_data_def)
  show ?thesis
    unfolding getMovieDetailsOMDB_def
    by (simp add: t[symmetric] truthy_str_def) (simp add: sample_env_def)
qed

lemma omdb_it:
  "searchMoviesOMDB sample_env ''It'' 1 w =
     (Inr \<lparr>om_movies = [''tt1396484''], om_totalResults = 1, om_error = None, om_page = Some 1\<rparr>,
      w\<lparr>requests := requests w @ [SearchRequest ''It'' 1]\<rparr>)"
  unfolding searchMoviesOMDB_def
  by (simp add: sample_env_def truthy_str_def parseInt_def or_null_def isSpace_def isDigit_def
        numeral_value_def digitVal_def)

lemma cast_it: "cast_data it_data = it_data"
  by (simp add: cast_data_def it_data_def trim_def isSpace_def)

lemma valid_it: "valid_data sample_env it_data"
  by (simp add: valid_data_def it_data_def sample_env_def)

lemma no_match_it: "\<not> textMatch sample_env ''It'' d"
  by (simp add: sample_env_def toLowerCase_def lowerChar_def)

lemma search_it_first:
  "searchMovies sample_env ''It'' 1 True (world_of [] 1000) =
     (Inr \<lparr>movies = [Fresh it_data], totalResults = 1, res_source = Some ''api'',
           res_page = Some 1, res_error = None\<rparr>, it_world 1000)"
proof -
  have s: "saveMovieToCache sample_env it_data
             \<lparr>docs = [], now = 1000, store_fault = None, requests = rq\<rparr> =
             (Inr (new_Movie it_data 1000),
              \<lparr>docs = [new_Movie it_data 1000], now = 1000, store_fault = None, requests = rq\<rparr>)" for rq
    unfolding saveMovieToCache_def findOne_def store_error_def save_new_def
    by (simp add: new_Movie_def cast_it valid_it)
  show ?thesis
    unfolding searchMovies_def find_sorted_def store_error_def
    by (simp add: world_of_def it_world_def sort_by_def omdb_it get_it s cacheOne_def successfulCaches_def)
qed

lemma search_it_again: "source_of (searchMovies sample_env ''It'' 1 True (it_world 1001)) = Some ''api''"
proof -
  have go: "True \<longrightarrow> store_fault (it_world 1001) = None \<and> active_matches sample_env ''It'' (it_world 1001) = []"
    by (simp add: it_world_def active_matches_def no_match_it)
  have key: "truthy_str (omdbApiKey sample_env)" by (simp add: sample_env_def truthy_str_def)
  have resp: "http_search sample_env ''It'' 1 = Inr (SearchTrue (Some [''tt1396484'']) (Some ''1''))"
    by (simp add: sample_env_def)
  from searchMovies_provider[OF go key resp]
  show ?thesis by (auto simp: source_of_def)
qed

text \<open>
  Claim C2. A search that goes to the provider (the cache is not used, or the store is
  up and holds no active match) and receives \<open>n\<close> candidate identifiers returns
  normally. Each candidate succeeds or fails on its own: it succeeds when the provider
  delivers its details and the store accepts the normalised record. The call returns
  the normalised records of the candidates that succeed, in the provider's order, so
  \<open>n - k\<close> records when \<open>k\<close> candidates fail; one detail request is sent for every
  candidate, whatever happened to the ones before it, and every returned record is in
  the store under its identifier with a fresh expiry.
\<close>

theorem searchMovies_partial_batch:
  assumes "useCache \<longrightarrow> store_fault w = None \<and> active_matches e term w = []"
      and "truthy_str (omdbApiKey e)"
      and "http_search e term page = Inr (SearchTrue (Some ids) tot)"
  shows "\<exists>r w'. searchMovies e term page useCache w = (Inr r, w') \<and>
           movies r = map Fresh (successfulCaches (map (item_result e w) ids)) \<and>
           length (movies r) = length ids - length (filter (\<lambda>i. item_result e w i = None) ids) \<and>
           requests w' = requests w @ SearchRequest term page # map DetailRequest ids \<and>
           (\<forall>p \<in> set (successfulCaches (map (item_result e w) ids)). stored_fresh w' (now w) (imdbID p))"
proof -
  have "length (successfulCaches (map (item_result e w) ids))
          = length ids - length (filter (\<lambda>i. item_result e w i = None) ids)"
    by (simp add: length_successfulCaches filter_map comp_def)
  then show ?thesis using searchMovies_provider[OF assms] by fastforce
qed

theorem searchMovies_partial_batch_witness:
  "\<exists>r w'. searchMovies sample_env ''matrix'' 1 True (world_of [] 1000) = (Inr r, w') \<and>
          length (movies r) = 2 \<and>
          requests w' = [SearchRequest ''matrix'' 1, DetailRequest ''tt0133093'',
                         DetailRequest ''tt0234215'', DetailRequest ''tt0242653'']"
proof -
  let ?w = "world_of [] 1000"
  have go: "True \<longrightarrow> store_fault ?w = None \<and> active_matches sample_env ''matrix'' ?w = []"
    by (simp add: world_of_def active_matches_def)
  have key: "truthy_str (omdbApiKey sample_env)" by (simp add: sample_env_def truthy_str_def)
  have resp: "http_search sample_env ''matrix'' 1 =
                Inr (SearchTrue (Some [''tt0133093'', ''tt0234215'', ''tt0242653'']) (Some ''3''))"
    by (simp add: sample_env_def)
  have f: "store_fault ?w = None" by (simp add: world_of_def)
  have k: "length (filter (\<lambda>i. item_result sample_env ?w i = None)
                     [''tt0133093'', ''tt0234215'', ''tt0242653'']) = 1"
    using item_results_matrix[of ?w] f by simp
  from searchMovies_partial_batch[OF go key resp] k
  show ?thesis by (auto simp: world_of_def)
qed

text \<open>
  Claim C1, as the code has it. With the cache in use and the store up: if at least one
  active record matches the term in the text index, the search returns the ten most
  relevant of those records (all of them when there are at most ten) tagged
  \<open>cache\<close>, and leaves the state as it is: no request goes to the provider. Otherwise,
  when the provider answers the search with at least one candidate, the search fetches
  and saves each candidate and returns the records that were fetched and saved, tagged
  \<open>api\<close>, each of them stored with a fresh expiry. A repeat of the search before that
  expiry is answered from the cache provided that the text index matches the term to a
  record that was saved by the first search.
\<close>

theorem searchMovies_cache_aside:
  assumes "store_fault w = None"
  shows "(active_matches e term w \<noteq> [] \<longrightarrow>
            searchMovies e term page True w =
              (Inr \<lparr>movies = map Stored (take 10 (sort_by (store_le e (SortTextScore term))
                                                     (active_matches e term w))),
                    totalResults = int (length (take 10 (sort_by (store_le e (SortTextScore term))
                                                     (active_matches e term w)))),
                    res_source = Some ''cache'', res_page = Some page, res_error = None\<rparr>, w)) \<and>
         (active_matches e term w = [] \<and> truthy_str (omdbApiKey e) \<and>
          http_search e term page = Inr (SearchTrue (Some ids) tot) \<and> ids \<noteq> [] \<longrightarrow>
            (\<exists>r w'. searchMovies e term page True w = (Inr r, w') \<and>
                res_source r = Some ''api'' \<and>
                movies r = map Fresh (successfulCaches (map (item_result e w) ids)) \<and>
                (\<forall>p \<in> set (successfulCaches (map (item_result e w) ids)).
                    stored_fresh w' (now w) (imdbID p)) \<and>
                (\<forall>t'. t' < now w + ttl \<and>
                      (\<exists>d \<in> set (docs w'). cacheExpiry d = Some (now w + ttl) \<and> textMatch e term d) \<longrightarrow>
                      (\<exists>r2. searchMovies e term page True (w'\<lparr>now := t'\<rparr>) = (Inr r2, w'\<lparr>now := t'\<rparr>) \<and>
                            res_source r2 = Some ''cache'' \<and>
                            movies r2 = map Stored (take 10 (sort_by (store_le e (SortTextScore term))
                                            (active_matches e term (w'\<lparr>now := t'\<rparr>))))))))"
proof (intro conjI impI)
  assume "active_matches e term w \<noteq> []"
  then show "searchMovies e term page True w =
              (Inr \<lparr>movies = map Stored (take 10 (sort_by (store_le e (SortTextScore term))
                                                     (active_matches e term w))),
                    totalResults = int (length (take 10 (sort_by (store_le e (SortTextScore term))
                                                     (active_matches e term w)))),
                    res_source = Some ''cache'', res_page = Some page, res_error = None\<rparr>, w)"
    using assms by (rule searchMovies_cache_hit[rotated])
next
  assume h: "active_matches e term w = [] \<and> truthy_str (omdbApiKey e) \<and>
          http_search e term page = Inr (SearchTrue (Some ids) tot) \<and> ids \<noteq> []"
  then have go: "True \<longrightarrow> store_fault w = None \<and> active_matches e term w = []" using assms by simp
  from searchMovies_provider[OF go, of page ids tot] h
  obtain r w' where s: "searchMovies e term page True w = (Inr r, w')"
    and m: "movies r = map Fresh (successfulCaches (map (item_result e w) ids))"
    and src: "res_source r = Some ''api''"
    and w': "now w' = now w" "store_fault w' = store_fault w"
    and st: "\<forall>p \<in> set (successfulCaches (map (item_result e w) ids)). stored_fresh w' (now w) (imdbID p)"
    by auto
  have rep: "\<exists>r2. searchMovies e term page True (w'\<lparr>now := t'\<rparr>) = (Inr r2, w'\<lparr>now := t'\<rparr>) \<and>
                  res_source r2 = Some ''cache'' \<and>
                  movies r2 = map Stored (take 10 (sort_by (store_le e (SortTextScore term))
                                            (active_matches e term (w'\<lparr>now := t'\<rparr>))))"
    if t: "t' < now w + ttl \<and> (\<exists>d \<in> set (docs w'). cacheExpiry d = Some (now w + ttl) \<and> textMatch e term d)"
    for t'
  proof -
    from t obtain d where d: "d \<in> set (docs w')" "cacheExpiry d = Some (now w + ttl)" "textMatch e term d"
      by blast
    have "isActive t' d" using d(2) t by (simp add: isActive_def)
    then have "d \<in> set (active_matches e term (w'\<lparr>now := t'\<rparr>))"
      using d by (simp add: active_matches_def)
    then have ne: "active_matches e term (w'\<lparr>now := t'\<rparr>) \<noteq> []" by auto
    have f: "store_fault (w'\<lparr>now := t'\<rparr>) = None" using w' assms by simp
    show ?thesis using searchMovies_cache_hit[OF f ne, of page] by simp
  qed
  show "\<exists>r w'. searchMovies e term page True w = (Inr r, w') \<and>
                res_source r = Some ''api'' \<and>
                movies r = map Fresh (successfulCaches (map (item_result e w) ids)) \<and>
                (\<forall>p \<in> set (successfulCaches (map (item_result e w) ids)).
                    stored_fresh w' (now w) (imdbID p)) \<and>
                (\<forall>t'. t' < now w + ttl \<and>
                      (\<exists>d \<in> set (docs w'). cacheExpiry d = Some (now w + ttl) \<and> textMatch e term d) \<longrightarrow>
                      (\<exists>r2. searchMovies e term page True (w'\<lparr>now := t'\<rparr>) = (Inr r2, w'\<lparr>now := t'\<rparr>) \<and>
                            res_source r2 = Some ''cache'' \<and>
                            movies r2 = map Stored (take 10 (sort_by (store_le e (SortTextScore term))
                                            (active_matches e term (w'\<lparr>now := t'\<rparr>))))))"
    using s m src st rep by blast
qed


theorem searchMovies_cache_aside_witness:
  "searchMovies sample_env ''Inception'' 1 True (world_of [] 1000) =
     (Inr \<lparr>movies = [Fresh inception_data], totalResults = 1, res_source = Some ''api'',
           res_page = Some 1, res_error = None\<rparr>,
      \<lparr>docs = [new_Movie inception_data 1000], now = 1000, store_fault = None,
       requests = [SearchRequest ''Inception'' 1, DetailRequest ''tt1375666'']\<rparr>) \<and>
   searchMovies sample_env ''Inception'' 1 True
      \<lparr>docs = [new_Movie inception_data 1000], now = 1001, store_fault = None,
       requests = [SearchRequest ''Inception'' 1, DetailRequest ''tt1375666'']\<rparr> =
     (Inr \<lparr>movies = [Stored (new_Movie inception_data 1000)], totalResults = 1,
           res_source = Some ''cache'', res_page = Some 1, res_error = None\<rparr>,
      \<lparr>docs = [new_Movie inception_data 1000], now = 1001, store_fault = None,
       requests = [SearchRequest ''Inception'' 1, DetailRequest ''tt1375666'']\<rparr>)"
proof -
  let ?w = "world_of [] 1000"
  let ?w' = "\<lparr>docs = [new_Movie inception_data 1000], now = 1000, store_fault = None,
              requests = [SearchRequest ''Inception'' 1, DetailRequest ''tt1375666'']\<rparr>"
  let ?w2 = "\<lparr>docs = [new_Movie inception_data 1000], now = 1001, store_fault = None,
              requests = [SearchRequest ''Inception'' 1, DetailRequest ''tt1375666'']\<rparr>"
  have f: "store_fault ?w = None" by (simp add: world_of_def)
  have miss: "active_matches sample_env ''Inception'' ?w = [] \<and> truthy_str (omdbApiKey sample_env) \<and>
          http_search sample_env ''Inception'' 1 = Inr (SearchTrue (Some [''tt1375666'']) (Some ''1'')) \<and>
          [''tt1375666''] \<noteq> []"
    by (simp add: active_matches_def world_of_def sample_env_def truthy_str_def)
  have ti: "title inception_data = ''Inception''" by (simp add: inception_data_def)
  have tm: "textMatch sample_env ''Inception'' (new_Movie inception_data 1000)"
    by (simp add: sample_env_def new_Movie_def cast_inception ti toLowerCase_def lowerChar_def)
  have am: "active_matches sample_env ''Inception'' ?w2 = [new_Movie inception_data 1000]"
    using tm by (simp add: active_matches_def isActive_def new_Movie_def ttl_def)
  from searchMovies_cache_aside[OF f, of sample_env "''Inception''" 1 "[''tt1375666'']" "Some ''1''"] miss
  obtain r w' where s: "searchMovies sample_env ''Inception'' 1 True ?w = (Inr r, w')"
    and rep: "\<forall>t'. t' < now ?w + ttl \<and>
                (\<exists>d \<in> set (docs w'). cacheExpiry d = Some (now ?w + ttl) \<and> textMatch sample_env ''Inception'' d) \<longrightarrow>
                (\<exists>r2. searchMovies sample_env ''Inception'' 1 True (w'\<lparr>now := t'\<rparr>) = (Inr r2, w'\<lparr>now := t'\<rparr>) \<and>
                      res_source r2 = Some ''cache'' \<and>
                      movies r2 = map Stored (take 10 (sort_by (store_le sample_env (SortTextScore ''Inception''))
                                            (active_matches sample_env ''Inception'' (w'\<lparr>now := t'\<rparr>)))))"
    by blast
  have w': "w' = ?w'" and r: "r = \<lparr>movies = [Fresh inception_data], totalResults = 1, res_source = Some ''api'',
           res_page = Some 1, res_error = None\<rparr>"
    using s search_inception by simp_all
  have pre: "1001 < now ?w + ttl \<and>
          (\<exists>d \<in> set (docs ?w'). cacheExpiry d = Some (now ?w + ttl) \<and> textMatch sample_env ''Inception'' d)"
    using tm by (simp add: world_of_def ttl_def new_Movie_def)
  from rep[unfolded w', rule_format, OF pre]
  obtain r2 where s2: "searchMovies sample_env ''Inception'' 1 True ?w2 = (Inr r2, ?w2)"
    and src2: "res_source r2 = Some ''cache''"
    and m2: "movies r2 = map Stored (take 10 (sort_by (store_le sample_env (SortTextScore ''Inception''))
                                            (active_matches sample_env ''Inception'' ?w2)))"
    by auto
  have "r2 = \<lparr>movies = [Stored (new_Movie inception_data 1000)], totalResults = 1,
           res_source = Some ''cache'', res_page = Some 1, res_error = None\<rparr>"
    using s2 searchMovies_cache_source[OF s2 src2] am by (simp add: sort_by_def)
  then show ?thesis using s2 search_inception by simp
qed

text \<open>
  The claim as it is written returns all the matching records on a hit, and has every
  repeat of a search answered from the cache. With eleven active matches, ten records are
  returned. The search for \<open>It\<close> fetches and saves the film of that title; the text
  index drops the stop word, so the repeat one millisecond later goes to the provider
  again.
\<close>

theorem searchMovies_cache_aside_fails:
  "length (active_matches sample_env ''batman'' (world_of batman_docs 1000)) = 11 \<and>
   fst (searchMovies sample_env ''batman'' 1 True (world_of batman_docs 1000)) =
     Inr \<lparr>movies = map Stored (take 10 batman_docs), totalResults = 10,
          res_source = Some ''cache'', res_page = Some 1, res_error = None\<rparr> \<and>
   searchMovies sample_env ''It'' 1 True (world_of [] 1000) =
     (Inr \<lparr>movies = [Fresh it_data], totalResults = 1, res_source = Some ''api'',
           res_page = Some 1, res_error = None\<rparr>, it_world 1000) \<and>
   source_of (searchMovies sample_env ''It'' 1 True (it_world 1001)) = Some ''api''"
proof -
  have len: "length batman_docs = 11" by (simp add: batman_docs_def)
  have f: "store_fault (world_of batman_docs 1000) = None" by (simp add: world_of_def)
  have ne: "active_matches sample_env ''batman'' (world_of batman_docs 1000) \<noteq> []"
    using len by (auto simp: active_matches_batman)
  have sb: "sort_by (store_le sample_env (SortTextScore ''batman'')) batman_docs = batman_docs"
    by (rule sort_by_all_le) (simp add: sample_env_def)
  show ?thesis
    using searchMovies_cache_hit[OF f ne, of 1] len
    by (simp add: active_matches_batman sb search_it_first search_it_again)
qed

text \<open>
  Claim C9. Whenever a search is answered from the cache (the result carries the source
  tag \<open>cache\<close>), the returned list holds at most 10 records, namely 10 or the number of
  active matching documents if that is smaller, and the reported \<open>totalResults\<close> is the
  number of returned records, not a total of the provider.
\<close>

theorem searchMovies_from_cache_at_most_10:
  assumes "searchMovies e term page useCache w = (Inr r, w')" and "res_source r = Some ''cache''"
  shows "length (movies r) \<le> 10 \<and> totalResults r = int (length (movies r)) \<and>
         length (movies r) = min 10 (length (active_matches e term w))"
  using searchMovies_cache_source[OF assms] by (auto simp: min_def)

theorem searchMovies_from_cache_at_most_10_witness:
  "\<exists>r w'. searchMovies sample_env ''batman'' 1 True (world_of batman_docs 1000) = (Inr r, w') \<and>
          res_source r = Some ''cache'' \<and>
          length (active_matches sample_env ''batman'' (world_of batman_docs 1000)) = 11 \<and>
          length (movies r) = 10 \<and> totalResults r = 10"
proof -
  let ?w = "world_of batman_docs 1000"
  let ?ms = "take 10 (sort_by (store_le sample_env (SortTextScore ''batman'')) (active_matches sample_env ''batman'' ?w))"
  let ?r = "\<lparr>movies = map Stored ?ms, totalResults = int (length ?ms),
             res_source = Some ''cache'', res_page = Some 1, res_error = None\<rparr>"
  have len: "length (active_matches sample_env ''batman'' ?w) = 11"
    by (simp add: active_matches_batman) (simp add: batman_docs_def)
  have hit: "searchMovies sample_env ''batman'' 1 True ?w = (Inr ?r, ?w)"
  proof (rule searchMovies_cache_hit)
    show "store_fault ?w = None" by (simp add: world_of_def)
    show "active_matches sample_env ''batman'' ?w \<noteq> []" using len by auto
  qed
  have src: "res_source ?r = Some ''cache''" by simp
  from searchMovies_from_cache_at_most_10[OF hit src] len
  have "length (movies ?r) = 10 \<and> totalResults ?r = 10" by simp
  with hit src len show ?thesis by blast
qed

subsection \<open>Listing and pagination\<close>

lemma searchSchema_requested:
  "searchSchema_value rq =
     \<lparr> opt_search = rq_search rq, opt_genre = rq_genre rq, opt_year = rq_year rq,
       opt_rating = rq_rating rq,
       opt_sortBy = (case rq_sort rq of None \<Rightarrow> ''createdAt'' | Some x \<Rightarrow> x),
       opt_sortOrder = (case rq_order rq of None \<Rightarrow> ''desc'' | Some x \<Rightarrow> x),
       opt_page = (case rq_page rq of None \<Rightarrow> 1 | Some n \<Rightarrow> n),
       opt_limit = (case rq_limit rq of None \<Rightarrow> 20 | Some n \<Rightarrow> n) \<rparr>"
  by (simp add: searchSchema_value_def)

lemma searchSchema_bounds:
  assumes "searchSchema_valid e rq"
  shows "1 \<le> (case rq_page rq of None \<Rightarrow> 1 | Some n \<Rightarrow> n) \<and>
         1 \<le> (case rq_limit rq of None \<Rightarrow> 20 | Some n \<Rightarrow> n) \<and>
         (case rq_limit rq of None \<Rightarrow> 20 | Some n \<Rightarrow> n) \<le> (50::int)"
  using assms unfolding searchSchema_valid_def
  by (auto split: option.splits)

lemma getCachedMovies_page:
  assumes "store_fault w = None" "1 \<le> opt_page opts" "1 \<le> opt_limit opts"
  shows "getCachedMovies e opts w =
     (Inr \<lparr> lr_movies = take (nat (opt_limit opts)) (drop (nat ((opt_page opts - 1) * opt_limit opts)) (listed e opts w)),
            lr_pagination = \<lparr> pg_page = opt_page opts, pg_limit = opt_limit opts,
                              pg_total = int (length (listed e opts w)),
                              pg_pages = Some \<lceil>(of_int (int (length (listed e opts w))) :: rat) / of_int (opt_limit opts)\<rceil> \<rparr> \<rparr>, w)"
proof -
  have "0 \<le> (opt_page opts - 1) * opt_limit opts" using assms by simp
  then have "\<not> (opt_page opts - 1) * opt_limit opts < 0" by simp
  then show ?thesis
    using assms unfolding getCachedMovies_def find_sorted_def countDocuments_def store_error_def listed_def
    by (simp add: Let_def page_count_def del: mult_less_0_iff)
qed

text \<open>
  Claim C8. A listing request whose page is below 1 or whose limit is outside 1 to 50 is
  rejected by the schema. For an accepted request without a search term, on a store that
  is up, the page of the response is the requested page (1 when none is given) and is at
  least 1, the limit is the requested limit (20 when none is given) and lies between 1 and
  50; the response reports the number of matching records as the total and
  \<open>ceil(total / limit)\<close> as the page count, and its data are the records
  \<open>(page - 1) * limit\<close> up to \<open>page * limit - 1\<close> of the result ordered by the requested
  key (fewer when the result ends before). In particular page 2 with limit 20 over 45
  records skips 20 records, has 20 records and 3 pages.
\<close>
theorem listing_pagination:
  "(\<not> searchSchema_valid e rq \<longrightarrow> get_movies e rq w = (BadRequest, w)) \<and>
   ((\<exists>n. rq_page rq = Some n \<and> n < 1) \<or> (\<exists>n. rq_limit rq = Some n \<and> (n < 1 \<or> 50 < n))
      \<longrightarrow> \<not> searchSchema_valid e rq) \<and>
   (searchSchema_valid e rq \<and> rq_search rq = None \<and> store_fault w = None \<longrightarrow>
      (let pg = (case rq_page rq of None \<Rightarrow> 1 | Some n \<Rightarrow> n);
           lmt = (case rq_limit rq of None \<Rightarrow> 20 | Some n \<Rightarrow> n);
           ordered =
             listed e
               \<lparr> opt_search = None, opt_genre = rq_genre rq, opt_year = rq_year rq,
                 opt_rating = rq_rating rq,
                 opt_sortBy = (case rq_sort rq of None \<Rightarrow> ''createdAt'' | Some x \<Rightarrow> x),
                 opt_sortOrder = (case rq_order rq of None \<Rightarrow> ''desc'' | Some x \<Rightarrow> x),
                 opt_page = pg, opt_limit = lmt \<rparr> w;
           skip = nat ((pg - 1) * lmt)
       in 1 \<le> pg \<and> 1 \<le> lmt \<and> lmt \<le> 50 \<and>
          get_movies e rq w =
            (Ok \<lparr> rs_data = map Stored (take (nat lmt) (drop skip ordered)),
                  rs_pagination =
                    \<lparr> pg_page = pg, pg_limit = lmt, pg_total = int (length ordered),
                      pg_pages = Some \<lceil>(of_int (int (length ordered)) :: rat) / of_int lmt\<rceil> \<rparr>,
                  rs_source = ''cache'' \<rparr>, w) \<and>
          length (take (nat lmt) (drop skip ordered)) = min (nat lmt) (length ordered - skip) \<and>
          (\<forall>i. i < nat lmt \<and> skip + i < length ordered \<longrightarrow>
               take (nat lmt) (drop skip ordered) ! i = ordered ! (skip + i)) \<and>
          (pg = 2 \<and> lmt = 20 \<and> length ordered = 45 \<longrightarrow>
               skip = 20 \<and> length (take (nat lmt) (drop skip ordered)) = 20 \<and>
               \<lceil>(of_int (int (length ordered)) :: rat) / of_int lmt\<rceil> = 3)))"
proof (intro conjI impI)
  assume "\<not> searchSchema_valid e rq"
  then show "get_movies e rq w = (BadRequest, w)" by (simp add: get_movies_def)
next
  assume "(\<exists>n. rq_page rq = Some n \<and> n < 1) \<or> (\<exists>n. rq_limit rq = Some n \<and> (n < 1 \<or> 50 < n))"
  then show "\<not> searchSchema_valid e rq"
    unfolding searchSchema_valid_def by auto
next
  assume h: "searchSchema_valid e rq \<and> rq_search rq = None \<and> store_fault w = None"
  define pg where "pg = (case rq_page rq of None \<Rightarrow> (1::int) | Some n \<Rightarrow> n)"
  define lmt where "lmt = (case rq_limit rq of None \<Rightarrow> (20::int) | Some n \<Rightarrow> n)"
  define opts where "opts =
               \<lparr> opt_search = None, opt_genre = rq_genre rq, opt_year = rq_year rq,
                 opt_rating = rq_rating rq,
                 opt_sortBy = (case rq_sort rq of None \<Rightarrow> ''createdAt'' | Some x \<Rightarrow> x),
                 opt_sortOrder = (case rq_order rq of None \<Rightarrow> ''desc'' | Some x \<Rightarrow> x),
                 opt_page = pg, opt_limit = lmt \<rparr>"
  define ordered where "ordered = listed e opts w"
  have sv: "searchSchema_value rq = opts"
    using h by (simp add: searchSchema_requested opts_def pg_def lmt_def)
  have b: "1 \<le> pg" "1 \<le> lmt" "lmt \<le> 50"
    using searchSchema_bounds[of e rq] h by (simp_all add: pg_def lmt_def)
  have o: "opt_page opts = pg" "opt_limit opts = lmt" "opt_search opts = None"
    by (simp_all add: opts_def)
  have o2: "opts\<lparr>opt_search := None\<rparr> = opts" by (simp add: opts_def)
  have g: "get_movies e rq w =
            (Ok \<lparr> rs_data = map Stored (take (nat lmt) (drop (nat ((pg - 1) * lmt)) ordered)),
                  rs_pagination =
                    \<lparr> pg_page = pg, pg_limit = lmt, pg_total = int (length ordered),
                      pg_pages = Some \<lceil>(of_int (int (length ordered)) :: rat) / of_int lmt\<rceil> \<rparr>,
                  rs_source = ''cache'' \<rparr>, w)"
    unfolding get_movies_def Let_def sv o2 ordered_def
    using h getCachedMovies_page[of w opts e] b o
    by (simp add: truthy_str_def)
  have c: "\<lceil>(of_int (int (45::nat)) :: rat) / of_int 20\<rceil> = 3"
    by (simp add: ceiling_eq_iff)
  show "(let pg = (case rq_page rq of None \<Rightarrow> 1 | Some n \<Rightarrow> n);
           lmt = (case rq_limit rq of None \<Rightarrow> 20 | Some n \<Rightarrow> n);
           ordered =
             listed e
               \<lparr> opt_search = None, opt_genre = rq_genre rq, opt_year = rq_year rq,
                 opt_rating = rq_rating rq,
                 opt_sortBy = (case rq_sort rq of None \<Rightarrow> ''createdAt'' | Some x \<Rightarrow> x),
                 opt_sortOrder = (case rq_order rq of None \<Rightarrow> ''desc'' | Some x \<Rightarrow> x),
                 opt_page = pg, opt_limit = lmt \<rparr> w;
           skip = nat ((pg - 1) * lmt)
       in 1 \<le> pg \<and> 1 \<le> lmt \<and> lmt \<le> 50 \<and>
          get_movies e rq w =
            (Ok \<lparr> rs_data = map Stored (take (nat lmt) (drop skip ordered)),
                  rs_pagination =
                    \<lparr> pg_page = pg, pg_limit = lmt, pg_total = int (length ordered),
                      pg_pages = Some \<lceil>(of_int (int (length ordered)) :: rat) / of_int lmt\<rceil> \<rparr>,
                  rs_source = ''cache'' \<rparr>, w) \<and>
          length (take (nat lmt) (drop skip ordered)) = min (nat lmt) (length ordered - skip) \<and>
          (\<forall>i. i < nat lmt \<and> skip + i < length ordered \<longrightarrow>
               take (nat lmt) (drop skip ordered) ! i = ordered ! (skip + i)) \<and>
          (pg = 2 \<and> lmt = 20 \<and> length ordered = 45 \<longrightarrow>
               skip = 20 \<and> length (take (nat lmt) (drop skip ordered)) = 20 \<and>
               \<lceil>(of_int (int (length ordered)) :: rat) / of_int lmt\<rceil> = 3))"
    unfolding Let_def pg_def[symmetric] lmt_def[symmetric] opts_def[symmetric] ordered_def[symmetric]
    using b g c by (auto simp: min_def)
qed


lemma filter_all: "(\<And>x. x \<in> set xs \<Longrightarrow> P x) \<Longrightarrow> filter P xs = xs"
  by (induction xs) auto

lemma insert_by_last: "\<forall>y \<in> set ys. \<not> le x y \<Longrightarrow> insert_by le x ys = ys @ [x]"
  by (induction ys) auto

lemma sort_by_rev: "sorted_wrt (\<lambda>a b. \<not> le a b) xs \<Longrightarrow> sort_by le xs = rev xs"
proof (induction xs)
  case Nil
  show ?case by (simp add: sort_by_def)
next
  case (Cons x xs)
  then have ih: "sort_by le xs = rev xs" and x: "\<forall>y \<in> set xs. \<not> le x y" by simp_all
  have "sort_by le (x # xs) = insert_by le x (sort_by le xs)" by (simp add: sort_by_def)
  also have "\<dots> = rev xs @ [x]" unfolding ih using x by (intro insert_by_last) simp
  finally show ?case by simp
qed

lemma listed_films:
  "listed sample_env
     \<lparr> opt_search = None, opt_genre = None, opt_year = None, opt_rating = None,
       opt_sortBy = ''createdAt'', opt_sortOrder = ''desc'', opt_page = 2, opt_limit = 20 \<rparr>
     (world_of film_docs 1000) = rev film_docs"
proof -
  let ?opts = "\<lparr> opt_search = None, opt_genre = None, opt_year = None, opt_rating = None,
       opt_sortBy = ''createdAt'', opt_sortOrder = ''desc'', opt_page = 2, opt_limit = 20 \<rparr>"
  have m: "matches sample_env (list_query ?opts 1000) = isActive 1000"
    by (rule ext)
       (simp add: matches_def list_query_def truthy_str_def genre_given_def isActive_cond)
  have f: "filter (isActive 1000) film_docs = film_docs"
    by (rule filter_all) (auto simp: film_docs_def film_def isActive_def new_Movie_def ttl_def)
  have ls: "list_sort ?opts = SortPath P_createdAt (- 1)"
    by (simp add: list_sort_def sort_path_of_def sortDirection_def)
  have "sorted_wrt (\<lambda>m n. \<not> store_le sample_env (SortPath P_createdAt (- 1)) (film m) (film n)) [0..<45]"
    by (rule sorted_wrt_mono_rel[OF _ sorted_wrt_upt]) (simp add: film_def new_Movie_def)
  then have "sorted_wrt (\<lambda>a b. \<not> store_le sample_env (SortPath P_createdAt (- 1)) a b) film_docs"
    by (simp add: film_docs_def sorted_wrt_map)
  then have "sort_by (store_le sample_env (SortPath P_createdAt (- 1))) film_docs = rev film_docs"
    by (rule sort_by_rev)
  then show ?thesis by (simp add: listed_def world_of_def m f ls)
qed

lemma films_page_2: "take 20 (drop 20 (rev film_docs)) = map film (rev [5..<25])"
proof -
  have "take 20 (drop 20 (rev [0..<45::nat])) = rev [5..<25]"
    by (simp add: rev_drop[symmetric] rev_take[symmetric] take_rev drop_rev)
  then have "map film (take 20 (drop 20 (rev [0..<45::nat]))) = map film (rev [5..<25])" by simp
  then show ?thesis
    unfolding film_docs_def by (simp only: rev_map take_map drop_map)
qed

text \<open>
  Forty-five active records, created at the instants 0 to 44 and listed with the default
  key (creation time, latest first): page 2 with limit 20 holds the records 24 down to 5,
  of 45 in 3 pages. A limit of 51 is rejected.
\<close>
theorem listing_pagination_witness:
  "get_movies sample_env (no_params\<lparr>rq_page := Some 2, rq_limit := Some 20\<rparr>) (world_of film_docs 1000)
     = (Ok \<lparr> rs_data = map Stored (map film (rev [5..<25])),
             rs_pagination = \<lparr> pg_page = 2, pg_limit = 20, pg_total = 45, pg_pages = Some 3 \<rparr>,
             rs_source = ''cache'' \<rparr>, world_of film_docs 1000) \<and>
   get_movies sample_env (no_params\<lparr>rq_limit := Some 51\<rparr>) (world_of film_docs 1000)
     = (BadRequest, world_of film_docs 1000)"
proof -
  let ?rq = "no_params\<lparr>rq_page := Some 2, rq_limit := Some 20\<rparr>"
  let ?w = "world_of film_docs 1000"
  have v: "searchSchema_valid sample_env ?rq \<and> rq_search ?rq = None \<and> store_fault ?w = None"
    by (simp add: searchSchema_valid_def no_params_def world_of_def)
  have q: "rq_page ?rq = Some 2" "rq_limit ?rq = Some 20" "rq_genre ?rq = None" "rq_year ?rq = None"
    "rq_rating ?rq = None" "rq_sort ?rq = None" "rq_order ?rq = None"
    by (simp_all add: no_params_def)
  have bad: "(\<exists>n. rq_page (no_params\<lparr>rq_limit := Some 51\<rparr>) = Some n \<and> n < 1) \<or>
             (\<exists>n. rq_limit (no_params\<lparr>rq_limit := Some 51\<rparr>) = Some n \<and> (n < 1 \<or> 50 < n))"
    by simp
  have a: "get_movies sample_env (no_params\<lparr>rq_limit := Some 51\<rparr>) ?w = (BadRequest, ?w)"
    using listing_pagination[of sample_env "no_params\<lparr>rq_limit := Some 51\<rparr>" ?w] bad by blast
  have len: "length (rev film_docs) = 45" by (simp add: film_docs_def)
  have c: "\<lceil>(of_int (int (45::nat)) :: rat) / of_int 20\<rceil> = 3"
    by (simp add: ceiling_eq_iff)
  from listing_pagination[of sample_env ?rq ?w] v
  have "get_movies sample_env ?rq ?w =
            (Ok \<lparr> rs_data = map Stored (take (nat 20) (drop (nat ((2 - 1) * 20)) (rev film_docs))),
                  rs_pagination =
                    \<lparr> pg_page = 2, pg_limit = 20, pg_total = int (length (rev film_docs)),
                      pg_pages = Some \<lceil>(of_int (int (length (rev film_docs))) :: rat) / of_int 20\<rceil> \<rparr>,
                  rs_source = ''cache'' \<rparr>, ?w)"
    unfolding Let_def q option.case listed_films by blast
  then have "get_movies sample_env ?rq ?w =
            (Ok \<lparr> rs_data = map Stored (map film (rev [5..<25])),
                  rs_pagination = \<lparr> pg_page = 2, pg_limit = 20, pg_total = 45, pg_pages = Some 3 \<rparr>,
                  rs_source = ''cache'' \<rparr>, ?w)"
    unfolding len using c films_page_2 by simp
  with a show ?thesis by simp
qed

subsection \<open>In-memory filtering and sorting against the store query\<close>

lemma insert_by_map:
  assumes "\<And>b. b \<in> set ys \<Longrightarrow> le (f x) (f b) = le' x b"
  shows "insert_by le (f x) (map f ys) = map f (insert_by le' x ys)"
  using assms by (induction ys) auto

lemma sort_by_map:
  assumes "\<And>a b. a \<in> set xs \<Longrightarrow> b \<in> set xs \<Longrightarrow> le (f a) (f b) = le' a b"
  shows "sort_by le (map f xs) = map f (sort_by le' xs)"
  using assms
proof (induction xs)
  case Nil
  show ?case by (simp add: sort_by_def)
next
  case (Cons x xs)
  have ih: "sort_by le (map f xs) = map f (sort_by le' xs)" using Cons by simp
  have "sort_by le (map f (x # xs)) = insert_by le (f x) (sort_by le (map f xs))"
    by (simp add: sort_by_def)
  also have "\<dots> = insert_by le (f x) (map f (sort_by le' xs))" using ih by simp
  also have "\<dots> = map f (insert_by le' x (sort_by le' xs))"
    by (rule insert_by_map) (simp add: Cons.prems)
  also have "\<dots> = map f (sort_by le' (x # xs))" by (simp add: sort_by_def)
  finally show ?case .
qed

lemma route_select_filter: "route_select g y r ms = filter (route_filter g y r) ms"
proof (cases "any_filter g y r")
  case True
  then show ?thesis by (simp add: route_select_def)
next
  case False
  then have "route_filter g y r m" for m
    unfolding any_filter_def route_filter_def
    by (auto simp: Let_def split: option.splits genre_param.splits num_param.splits)
  then show ?thesis using False by (simp add: route_select_def)
qed

lemma route_filter_matches:
  assumes "isActive t d" and "year (data d) \<noteq> None"
    and "opt_rating opts = None \<or> truthy_num (num_of (rating_imdb_score (data d)))"
    and "opt_genre opts \<noteq> Some (GenreArray [])" and "opt_search opts = None"
  shows "route_filter (opt_genre opts) (opt_year opts) (opt_rating opts) (Stored d)
           = matches e (list_query opts t) d"
proof -
  obtain yr where yr: "year (data d) = Some yr" using assms(2) by auto
  define G where "G = (case opt_genre opts of
           None \<Rightarrow> True
         | Some (GenreString x) \<Rightarrow> x = [] \<or> (\<exists>v \<in> set (genre (data d)). v \<in> set [x])
         | Some (GenreArray xs) \<Rightarrow> (\<exists>v \<in> set (genre (data d)). v \<in> set xs))"
  define Y where "Y = (case opt_year opts of
           None \<Rightarrow> True
         | Some (Number n) \<Rightarrow> n = 0 \<or> year (data d) = Some n
         | Some (Object b) \<Rightarrow>
             \<not> (truthy_num (range_min b) \<and> num0 (year (data d)) < num0 (range_min b)) \<and>
             \<not> (truthy_num (range_max b) \<and> num0 (year (data d)) > num0 (range_max b)))"
  define R where "R = (if truthy_num (num_of (rating_imdb_score (data d))) then
           (case opt_rating opts of
              None \<Rightarrow> True
            | Some (Number x) \<Rightarrow> x = 0 \<or> \<not> num0 (num_of (rating_imdb_score (data d))) < x
            | Some (Object b) \<Rightarrow>
                \<not> (truthy_num (range_min b) \<and> num0 (num_of (rating_imdb_score (data d))) < num0 (range_min b)) \<and>
                \<not> (truthy_num (range_max b) \<and> num0 (num_of (rating_imdb_score (data d))) > num0 (range_max b)))
         else True)"
  define G' where "G' = (case q_genre_in (list_query opts t) of
             None \<Rightarrow> True | Some gs \<Rightarrow> \<exists>g \<in> set (genre (data d)). g \<in> set gs)"
  define Y' where "Y' = cond_holds (q_year (list_query opts t)) (year (data d))"
  define R' where "R' = cond_holds (q_score (list_query opts t)) (num_of (rating_imdb_score (data d)))"
  have g: "G = G'"
    unfolding G_def G'_def list_query_def using assms(4)
    by (auto simp: genre_given_def genre_list_def split: option.splits genre_param.splits)
  have y: "Y = Y'"
    unfolding Y_def Y'_def list_query_def using yr
    by (auto simp: cond_holds_def spread_if_def with_op_def truthy_num_def num0_def
          split: option.splits num_param.splits)
  have r: "R = R'"
    unfolding R_def R'_def list_query_def using assms(3)
    by (auto simp: cond_holds_def spread_if_def with_op_def truthy_num_def num0_def
          split: option.splits num_param.splits)
  have md: "movie_data_of (Stored d) = data d" by (simp add: movie_data_of_def)
  have rf: "route_filter (opt_genre opts) (opt_year opts) (opt_rating opts) (Stored d) = (G \<and> Y \<and> R)"
    unfolding route_filter_def Let_def md G_def Y_def R_def
    by (cases "truthy_num (num_of (rating_imdb_score (data d)))") simp_all
  have q: "q_cacheExpiry (list_query opts t) = [(Gt, t)]" "q_text (list_query opts t) = None"
    "q_genre_nin (list_query opts t) = None" "q_createdAt (list_query opts t) = []"
    using assms(5) by (simp_all add: list_query_def truthy_str_def)
  have mt: "matches e (list_query opts t) d = (G' \<and> Y' \<and> R')"
    unfolding matches_def q G'_def Y'_def R'_def using assms(1) by (simp add: isActive_cond)
  show ?thesis unfolding rf mt g y r ..
qed

lemma sort_by_ties:
  assumes "\<And>a b. a \<in> set xs \<Longrightarrow> b \<in> set xs \<Longrightarrow> le a b"
  shows "sort_by le xs = xs"
  using assms
proof (induction xs)
  case Nil
  show ?case by (simp add: sort_by_def)
next
  case (Cons x xs)
  then have "sort_by le xs = xs" by simp
  then have "sort_by le (x # xs) = insert_by le x xs" by (simp add: sort_by_def)
  also have "\<dots> = x # xs" using Cons.prems by (cases xs) simp_all
  finally show ?case .
qed

lemma movie_data_of_view [simp]:
  "movie_data_of (Stored d) = data d" "movie_data_of (fresh_of d) = data d"
  by (simp_all add: movie_data_of_def fresh_of_def)

lemma route_filter_fresh: "route_filter g y r (fresh_of d) = route_filter g y r (Stored d)"
  by (simp add: route_filter_def)

lemma route_key_fresh:
  "sortBy \<in> {''title'', ''year'', ''rating'', ''runtime''} \<Longrightarrow>
   route_key sortBy (fresh_of d) = route_key sortBy (Stored d)"
  by (auto simp: route_key_def)

lemma route_le_fresh:
  "sortBy \<in> {''title'', ''year'', ''rating'', ''runtime''} \<Longrightarrow>
   route_le sortBy sortOrder (fresh_of a) (fresh_of b) = route_le sortBy sortOrder (Stored a) (Stored b)"
  by (simp add: route_le_def route_key_fresh)

lemma route_le_fresh_default:
  "sortBy \<notin> {''title'', ''year'', ''rating'', ''runtime''} \<Longrightarrow>
   route_le sortBy sortOrder (fresh_of a) (fresh_of b)"
  by (auto simp: route_le_def route_key_def key_less_def fresh_of_def)

lemma num0_order:
  fixes u v :: "('a :: {zero, linorder}) option"
  assumes "\<forall>x. u = Some x \<longrightarrow> 0 < x" and "\<forall>x. v = Some x \<longrightarrow> 0 < x"
  shows "\<not> (num0 u < num0 v) \<longleftrightarrow> v \<le> u"
  using assms by (cases u; cases v) (auto simp: num0_def)

lemma route_le_store_le:
  assumes "year (data a) \<noteq> None" and "year (data b) \<noteq> None"
    and "\<And>x. x \<in> {a, b} \<Longrightarrow>
           (\<forall>v. num_of (rating_imdb_score (data x)) = Some v \<longrightarrow> 0 < v) \<and>
           (\<forall>v. runtime (data x) = Some v \<longrightarrow> 0 < v)"
    and "sortBy \<in> {''year'', ''rating'', ''runtime''}"
  shows "route_le sortBy sortOrder (Stored a) (Stored b)
           = store_le e (SortPath (sort_path_of sortBy) (sortDirection sortOrder)) a b"
proof -
  obtain ya yb where y: "year (data a) = Some ya" "year (data b) = Some yb"
    using assms(1,2) by auto
  have pos: "(\<forall>v. num_of (rating_imdb_score (data a)) = Some v \<longrightarrow> 0 < v)"
    "(\<forall>v. num_of (rating_imdb_score (data b)) = Some v \<longrightarrow> 0 < v)"
    "(\<forall>v. runtime (data a) = Some v \<longrightarrow> 0 < v)" "(\<forall>v. runtime (data b) = Some v \<longrightarrow> 0 < v)"
    using assms(3)[of a] assms(3)[of b] by simp_all
  have ki: "\<not> ((of_int (num0 u) :: rat) < of_int (num0 v)) \<longleftrightarrow> v \<le> u"
    if "\<forall>x. u = Some x \<longrightarrow> 0 < x" "\<forall>x. v = Some x \<longrightarrow> 0 < x" for u v :: "int option"
    using num0_order[OF that] by simp
  consider "sortBy = ''year''" | "sortBy = ''rating''" | "sortBy = ''runtime''"
    using assms(4) by auto
  then show ?thesis
  proof cases
    case 1
    then show ?thesis
      using y
      by (auto simp: route_le_def route_key_def key_less_def sort_path_of_def sortDirection_def
            num0_def Let_def)
  next
    case 2
    then show ?thesis
      using num0_order[OF pos(1) pos(2)] num0_order[OF pos(2) pos(1)]
      by (simp add: route_le_def route_key_def key_less_def sort_path_of_def sortDirection_def Let_def)
  next
    case 3
    then show ?thesis
      using ki[OF pos(3) pos(4)] ki[OF pos(4) pos(3)]
      by (simp add: route_le_def route_key_def key_less_def sort_path_of_def sortDirection_def Let_def)
  qed
qed

lemma route_le_store_le_default:
  assumes "sortBy \<notin> {''title'', ''year'', ''rating'', ''runtime''}"
  shows "route_le sortBy sortOrder (Stored a) (Stored b)
           = store_le e (SortPath (sort_path_of sortBy) (sortDirection sortOrder)) a b"
  using assms
  by (auto simp: route_le_def route_key_def key_less_def sort_path_of_def sortDirection_def Let_def)

lemma list_sort_path:
  "opt_search opts = None \<Longrightarrow>
   list_sort opts = SortPath (sort_path_of (opt_sortBy opts)) (sortDirection (opt_sortOrder opts))"
  by (simp add: list_sort_def)


lemma route_select_view:
  assumes "\<forall>d \<in> set ds. isActive t d \<and> year (data d) \<noteq> None"
    and "opt_search opts = None"
    and "opt_genre opts \<noteq> Some (GenreArray [])"
    and "opt_rating opts = None \<or> (\<forall>d \<in> set ds. truthy_num (num_of (rating_imdb_score (data d))))"
    and "view = Stored \<or> view = fresh_of"
  shows "route_select (opt_genre opts) (opt_year opts) (opt_rating opts) (map view ds)
           = map view (filter (matches e (list_query opts t)) ds)"
proof -
  have "route_filter (opt_genre opts) (opt_year opts) (opt_rating opts) (view d)
          = matches e (list_query opts t) d" if "d \<in> set ds" for d
  proof -
    have "route_filter (opt_genre opts) (opt_year opts) (opt_rating opts) (view d)
            = route_filter (opt_genre opts) (opt_year opts) (opt_rating opts) (Stored d)"
      using assms(5) by (auto simp: route_filter_fresh)
    then show ?thesis using route_filter_matches[of t d opts e] assms(1-4) that by auto
  qed
  then have "filter (route_filter (opt_genre opts) (opt_year opts) (opt_rating opts) \<circ> view) ds
          = filter (matches e (list_query opts t)) ds"
    by (intro filter_cong) simp_all
  then show ?thesis by (simp add: route_select_filter filter_map)
qed

lemma route_sort_view:
  assumes "\<forall>d \<in> set ds. year (data d) \<noteq> None"
    and "opt_search opts = None"
    and "opt_sortBy opts \<in> {''year'', ''rating'', ''runtime''}"
    and "\<forall>d \<in> set ds. (\<forall>v. num_of (rating_imdb_score (data d)) = Some v \<longrightarrow> 0 < v) \<and>
                        (\<forall>v. runtime (data d) = Some v \<longrightarrow> 0 < v)"
    and "view = Stored \<or> view = fresh_of"
  shows "route_sort (opt_sortBy opts) (opt_sortOrder opts) (map view ds)
           = map view (sort_by (store_le e (list_sort opts)) ds)"
proof -
  have keys: "opt_sortBy opts \<in> {''title'', ''year'', ''rating'', ''runtime''}" using assms(3) by auto
  have "route_le (opt_sortBy opts) (opt_sortOrder opts) (view a) (view b)
          = store_le e (SortPath (sort_path_of (opt_sortBy opts)) (sortDirection (opt_sortOrder opts))) a b"
    if "a \<in> set ds" "b \<in> set ds" for a b
  proof -
    have "route_le (opt_sortBy opts) (opt_sortOrder opts) (view a) (view b)
            = route_le (opt_sortBy opts) (opt_sortOrder opts) (Stored a) (Stored b)"
      using assms(5) route_le_fresh[OF keys] by auto
    also have "\<dots> = store_le e (SortPath (sort_path_of (opt_sortBy opts)) (sortDirection (opt_sortOrder opts))) a b"
    proof (rule route_le_store_le)
      show "year (data a) \<noteq> None" "year (data b) \<noteq> None" using assms(1) that by auto
      show "opt_sortBy opts \<in> {''year'', ''rating'', ''runtime''}" by (rule assms(3))
      fix x assume "x \<in> {a, b}"
      then have "x \<in> set ds" using that by auto
      then show "(\<forall>v. num_of (rating_imdb_score (data x)) = Some v \<longrightarrow> 0 < v) \<and>
                 (\<forall>v. runtime (data x) = Some v \<longrightarrow> 0 < v)"
        using assms(4) by auto
    qed
    finally show ?thesis .
  qed
  then show ?thesis
    unfolding route_sort_def list_sort_path[OF assms(2)] by (rule sort_by_map)
qed

lemma route_sort_default:
  assumes "opt_search opts = None"
    and "opt_sortBy opts \<notin> {''title'', ''year'', ''rating'', ''runtime''}"
  shows "route_sort (opt_sortBy opts) (opt_sortOrder opts) (map Stored ds)
           = map Stored (sort_by (store_le e (list_sort opts)) ds)"
    and "route_sort (opt_sortBy opts) (opt_sortOrder opts) (map fresh_of ds) = map fresh_of ds"
proof -
  show "route_sort (opt_sortBy opts) (opt_sortOrder opts) (map Stored ds)
           = map Stored (sort_by (store_le e (list_sort opts)) ds)"
    unfolding route_sort_def list_sort_path[OF assms(1)]
    by (rule sort_by_map) (rule route_le_store_le_default[OF assms(2)])
  show "route_sort (opt_sortBy opts) (opt_sortOrder opts) (map fresh_of ds) = map fresh_of ds"
    unfolding route_sort_def
    by (rule sort_by_ties) (auto simp: route_le_fresh_default[OF assms(2)])
qed

text \<open>
  Claim C6, as the code has it. Take a candidate set of active stored documents that all
  have a year, read either as stored documents or as freshly fetched records with the same
  field values, and a request without a search term.

  \<^item> When the genre parameter is not the empty list and either no rating filter is asked
    for or every candidate has a primary score that is a non-zero number, the in-memory
    filter of the handler selects exactly the records that the store query of the listing
    selects, for every combination of genre, year and rating parameters.
  \<^item> When the sort key is the year, the rating or the runtime and the scores and runtimes
    of the candidates are absent or positive, the in-memory sort orders the candidates
    exactly as the store sort does, in both orders, ties in incoming order.
  \<^item> With any key other than title, year, rating and runtime (the default, creation
    time, is one), the in-memory sort orders stored documents as the store sort does, and
    leaves freshly fetched records, which carry no creation time, in their incoming order.
\<close>
theorem in_memory_agrees_with_store_query:
  assumes "\<forall>d \<in> set ds. isActive t d \<and> year (data d) \<noteq> None"
      and "opt_search opts = None"
      and "view = fresh_of \<or> view = Stored"
  shows "(opt_genre opts \<noteq> Some (GenreArray []) \<and>
          (opt_rating opts = None \<or> (\<forall>d \<in> set ds. truthy_num (num_of (rating_imdb_score (data d))))) \<longrightarrow>
            route_select (opt_genre opts) (opt_year opts) (opt_rating opts) (map view ds)
              = map view (filter (matches e (list_query opts t)) ds)) \<and>
         (opt_sortBy opts \<in> {''year'', ''rating'', ''runtime''} \<and>
          (\<forall>d \<in> set ds. (\<forall>v. num_of (rating_imdb_score (data d)) = Some v \<longrightarrow> 0 < v) \<and>
                         (\<forall>v. runtime (data d) = Some v \<longrightarrow> 0 < v)) \<longrightarrow>
            route_sort (opt_sortBy opts) (opt_sortOrder opts) (map view ds)
              = map view (sort_by (store_le e (list_sort opts)) ds)) \<and>
         (opt_sortBy opts \<notin> {''title'', ''year'', ''rating'', ''runtime''} \<longrightarrow>
            route_sort (opt_sortBy opts) (opt_sortOrder opts) (map Stored ds)
              = map Stored (sort_by (store_le e (list_sort opts)) ds) \<and>
            route_sort (opt_sortBy opts) (opt_sortOrder opts) (map fresh_of ds) = map fresh_of ds)"
proof (intro conjI impI)
  assume "opt_genre opts \<noteq> Some (GenreArray []) \<and>
          (opt_rating opts = None \<or> (\<forall>d \<in> set ds. truthy_num (num_of (rating_imdb_score (data d)))))"
  then show "route_select (opt_genre opts) (opt_year opts) (opt_rating opts) (map view ds)
              = map view (filter (matches e (list_query opts t)) ds)"
    using route_select_view[OF assms(1,2), of view e] assms(3) by blast
next
  assume "opt_sortBy opts \<in> {''year'', ''rating'', ''runtime''} \<and>
          (\<forall>d \<in> set ds. (\<forall>v. num_of (rating_imdb_score (data d)) = Some v \<longrightarrow> 0 < v) \<and>
                         (\<forall>v. runtime (data d) = Some v \<longrightarrow> 0 < v))"
  then show "route_sort (opt_sortBy opts) (opt_sortOrder opts) (map view ds)
              = map view (sort_by (store_le e (list_sort opts)) ds)"
    using route_sort_view[of ds opts view e] assms by blast
next
  assume "opt_sortBy opts \<notin> {''title'', ''year'', ''rating'', ''runtime''}"
  then show "route_sort (opt_sortBy opts) (opt_sortOrder opts) (map Stored ds)
              = map Stored (sort_by (store_le e (list_sort opts)) ds)"
    by (rule route_sort_default(1)[OF assms(2)])
next
  assume "opt_sortBy opts \<notin> {''title'', ''year'', ''rating'', ''runtime''}"
  then show "route_sort (opt_sortBy opts) (opt_sortOrder opts) (map fresh_of ds) = map fresh_of ds"
    by (rule route_sort_default(2)[OF assms(2)])
qed

lemma rated_docs_facts:
  "\<forall>d \<in> set rated_docs. isActive 1000 d \<and> year (data d) \<noteq> None"
  "\<forall>d \<in> set rated_docs. truthy_num (num_of (rating_imdb_score (data d)))"
  "\<forall>d \<in> set rated_docs. (\<forall>v. num_of (rating_imdb_score (data d)) = Some v \<longrightarrow> 0 < v) \<and>
                         (\<forall>v. runtime (data d) = Some v \<longrightarrow> 0 < v)"
  by (simp_all add: rated_docs_def new_Movie_def sample_data_def cast_data_def isActive_def ttl_def
        truthy_num_def num_of_def)

lemma fruit_docs_facts:
  "\<forall>d \<in> set fruit_docs. isActive 1000 d \<and> year (data d) \<noteq> None"
  by (simp add: fruit_docs_def new_Movie_def sample_data_def cast_data_def isActive_def ttl_def)

text \<open>
  Three freshly fetched records with the scores 3, 6 and 9: the rating filter from 5 keeps
  the last two and the sort by rating, highest first, reverses them, as the store does.
  Two records created at the instants 100 and 200: sorted by creation time, latest first,
  the stored documents are exchanged and the freshly fetched records stay as they came.
\<close>
theorem in_memory_agrees_with_store_query_witness:
  "route_select None None (Some (Number 5)) (map fresh_of rated_docs)
     = map fresh_of [rated_docs ! 1, rated_docs ! 2] \<and>
   route_sort ''rating'' ''desc'' (map fresh_of rated_docs)
     = map fresh_of [rated_docs ! 2, rated_docs ! 1, rated_docs ! 0] \<and>
   route_sort ''createdAt'' ''desc'' (map Stored fruit_docs)
     = map Stored [fruit_docs ! 1, fruit_docs ! 0] \<and>
   route_sort ''createdAt'' ''desc'' (map fresh_of fruit_docs) = map fresh_of fruit_docs"
proof -
  let ?opts = "searchSchema_value (no_params\<lparr>rq_rating := Some (Number 5), rq_sort := Some ''rating'',
                                              rq_order := Some ''desc''\<rparr>)"
  let ?dflt = "searchSchema_value no_params"
  have o: "opt_search ?opts = None" "opt_genre ?opts = None" "opt_year ?opts = None"
    "opt_rating ?opts = Some (Number 5)" "opt_sortBy ?opts = ''rating''" "opt_sortOrder ?opts = ''desc''"
    by (simp_all add: searchSchema_value_def no_params_def)
  have d: "opt_search ?dflt = None" "opt_sortBy ?dflt = ''createdAt''" "opt_sortOrder ?dflt = ''desc''"
    by (simp_all add: searchSchema_value_def no_params_def)
  have f: "filter (matches sample_env (list_query ?opts 1000)) rated_docs = [rated_docs ! 1, rated_docs ! 2]"
    by (simp add: matches_def list_query_def o genre_given_def truthy_str_def cond_holds_def
          rated_docs_def new_Movie_def sample_data_def cast_data_def num_of_def ttl_def)
  have s: "sort_by (store_le sample_env (list_sort ?opts)) rated_docs
             = [rated_docs ! 2, rated_docs ! 1, rated_docs ! 0]"
    by (simp add: list_sort_def o sort_path_of_def sortDirection_def sort_by_def
          rated_docs_def new_Movie_def sample_data_def cast_data_def num_of_def)
  have sd: "sort_by (store_le sample_env (list_sort ?dflt)) fruit_docs = [fruit_docs ! 1, fruit_docs ! 0]"
    by (simp add: list_sort_def d sort_path_of_def sortDirection_def sort_by_def
          fruit_docs_def new_Movie_def)
  have v1: "fresh_of = fresh_of \<or> fresh_of = Stored" by simp
  have v2: "Stored = fresh_of \<or> Stored = Stored" by simp
  have a: "route_select None None (Some (Number 5)) (map fresh_of rated_docs)
             = map fresh_of [rated_docs ! 1, rated_docs ! 2] \<and>
           route_sort ''rating'' ''desc'' (map fresh_of rated_docs)
             = map fresh_of [rated_docs ! 2, rated_docs ! 1, rated_docs ! 0]"
    using in_memory_agrees_with_store_query[OF rated_docs_facts(1) o(1) v1, of sample_env]
          rated_docs_facts(2,3) f s
    by (simp add: o)
  have b: "route_sort ''createdAt'' ''desc'' (map Stored fruit_docs)
             = map Stored [fruit_docs ! 1, fruit_docs ! 0] \<and>
           route_sort ''createdAt'' ''desc'' (map fresh_of fruit_docs) = map fresh_of fruit_docs"
    using in_memory_agrees_with_store_query[OF fruit_docs_facts d(1) v2, of sample_env] sd
    by (simp add: d)
  from a b show ?thesis by simp
qed

text \<open>
  The claim as it is written has the two agree on every candidate set, filter, key and
  order. On the freshly fetched records \<open>apple\<close> (no primary score, created at 100) and
  \<open>Banana\<close> (score 9, created at 200): the record without a score passes the in-memory
  rating filter from 8 and not the store query; the in-memory sort by title ignores case,
  the store sort compares code units and puts \<open>Banana\<close> first; and with the default key,
  creation time latest first, the in-memory sort leaves the records as they came while the
  store sort puts \<open>Banana\<close> first.
\<close>
theorem in_memory_differs_from_store_query:
  "route_select None None (Some (Number 8)) (map fresh_of fruit_docs) = map fresh_of fruit_docs \<and>
   filter (matches sample_env
             (list_query (searchSchema_value (no_params\<lparr>rq_rating := Some (Number 8)\<rparr>)) 1000))
      fruit_docs = [fruit_docs ! 1] \<and>
   route_sort ''title'' ''asc'' (map fresh_of fruit_docs) = map fresh_of fruit_docs \<and>
   sort_by (store_le sample_env
              (list_sort (searchSchema_value (no_params\<lparr>rq_sort := Some ''title'', rq_order := Some ''asc''\<rparr>))))
      fruit_docs = [fruit_docs ! 1, fruit_docs ! 0] \<and>
   route_sort ''createdAt'' ''desc'' (map fresh_of fruit_docs) = map fresh_of fruit_docs \<and>
   sort_by (store_le sample_env (list_sort (searchSchema_value no_params))) fruit_docs
      = [fruit_docs ! 1, fruit_docs ! 0]"
proof -
  have a: "route_select None None (Some (Number 8)) (map fresh_of fruit_docs) = map fresh_of fruit_docs"
    by (simp add: route_select_def any_filter_def route_filter_def Let_def
          fruit_docs_def new_Movie_def sample_data_def cast_data_def num_of_def truthy_num_def num0_def)
  have b: "filter (matches sample_env
             (list_query (searchSchema_value (no_params\<lparr>rq_rating := Some (Number 8)\<rparr>)) 1000))
      fruit_docs = [fruit_docs ! 1]"
    by (simp add: matches_def list_query_def searchSchema_value_def no_params_def genre_given_def
          truthy_str_def cond_holds_def fruit_docs_def new_Movie_def sample_data_def cast_data_def
          num_of_def ttl_def)
  have c: "route_sort ''title'' ''asc'' (map fresh_of fruit_docs) = map fresh_of fruit_docs"
    by (simp add: route_sort_def sort_by_def route_le_def route_key_def key_less_def
          Let_def fruit_docs_def new_Movie_def sample_data_def cast_data_def toLowerCase_def
          lowerChar_def trim_def isSpace_def)
  have d: "sort_by (store_le sample_env
              (list_sort (searchSchema_value (no_params\<lparr>rq_sort := Some ''title'', rq_order := Some ''asc''\<rparr>))))
      fruit_docs = [fruit_docs ! 1, fruit_docs ! 0]"
    by (simp add: list_sort_def searchSchema_value_def no_params_def sort_path_of_def sortDirection_def
          sort_by_def fruit_docs_def new_Movie_def sample_data_def cast_data_def trim_def isSpace_def)
  have e: "route_sort ''createdAt'' ''desc'' (map fresh_of fruit_docs) = map fresh_of fruit_docs"
    by (simp add: route_sort_def sort_by_def route_le_def route_key_def key_less_def
          Let_def fruit_docs_def fresh_of_def)
  have f: "sort_by (store_le sample_env (list_sort (searchSchema_value no_params))) fruit_docs
      = [fruit_docs ! 1, fruit_docs ! 0]"
    by (simp add: list_sort_def searchSchema_value_def no_params_def sort_path_of_def sortDirection_def
          sort_by_def fruit_docs_def new_Movie_def)
  from a b c d e f show ?thesis by simp
qed

subsection \<open>Purging\<close>

text \<open>
  Claim C10. \<open>cleanExpiredCache\<close> never raises: in every state it returns a count that is
  not negative. When the store fails the count is 0 and nothing is deleted, which is also
  what a purge of a store without expired documents returns; otherwise the count is the
  number of documents whose expiry lies in the past, and exactly those are removed.
\<close>

theorem cleanExpiredCache_never_raises:
  "\<exists>n w'. cleanExpiredCache e w = (Inr n, w') \<and> 0 \<le> n \<and>
     (store_fault w \<noteq> None \<longrightarrow> n = 0 \<and> w' = w) \<and>
     (store_fault w = None \<longrightarrow>
        n = int (length (filter (isExpired (now w)) (docs w))) \<and>
        w' = w\<lparr>docs := filter (\<lambda>d. \<not> isExpired (now w) d) (docs w)\<rparr>)"
  by (cases "store_fault w")
     (simp_all add: cleanExpiredCache_def deleteMany_def store_error_def matches_expired_query)

theorem cleanExpiredCache_never_raises_witness:
  "cleanExpiredCache sample_env ((world_of rated_docs (2 * ttl))\<lparr>store_fault := Some ''connection lost''\<rparr>)
     = (Inr 0, (world_of rated_docs (2 * ttl))\<lparr>store_fault := Some ''connection lost''\<rparr>) \<and>
   fst (cleanExpiredCache sample_env (world_of rated_docs 1000)) = Inr 0 \<and>
   fst (cleanExpiredCache sample_env (world_of rated_docs (2 * ttl))) = Inr 3"
proof -
  have down: "store_fault ((world_of rated_docs (2 * ttl))\<lparr>store_fault := Some ''connection lost''\<rparr>) \<noteq> None"
    by simp
  have up: "store_fault (world_of rated_docs t) = None" for t
    by (simp add: world_of_def)
  have none: "filter (isExpired (now (world_of rated_docs 1000))) (docs (world_of rated_docs 1000)) = []"
    by (simp add: world_of_def rated_docs_def new_Movie_def isExpired_def ttl_def)
  have all: "filter (isExpired (now (world_of rated_docs (2 * ttl)))) (docs (world_of rated_docs (2 * ttl)))
               = rated_docs"
    by (simp add: world_of_def rated_docs_def new_Movie_def isExpired_def ttl_def)
  show ?thesis
    using cleanExpiredCache_never_raises[of sample_env "(world_of rated_docs (2 * ttl))\<lparr>store_fault := Some ''connection lost''\<rparr>"]
          cleanExpiredCache_never_raises[of sample_env "world_of rated_docs 1000"]
          cleanExpiredCache_never_raises[of sample_env "world_of rated_docs (2 * ttl)"]
          down up none all
    by (auto simp: rated_docs_def)
qed

text \<open>
  Claim C7. The criteria-based purge with the rating range \<open>{ min: 5, max: 8 }\<close> is run
  on a store that holds records rated 3, 6 and 9. The claim has the records rated 3 and
  9 deleted, since they lie outside the range. The query that the code builds,
  \<open>{ $lt: 5, $gt: 8 }\<close>, asks for a score below 5 and above 8 at once: nothing is
  deleted.
\<close>

theorem cleanupByCriteria_rating_range_deletes_nothing:
  "cleanupByCriteria sample_env
     \<lparr>crit_olderThan = None, crit_rating = Some (Range (Some 5) (Some 8)),
      crit_genre = None, crit_year = None\<rparr> (world_of rated_docs 1000)
   = (Inr 0, world_of rated_docs 1000)"
  by (simp add: cleanupByCriteria_def deleteMany_def store_error_def world_of_def rated_docs_def
      criteria_query_def matches_def cond_holds_def spread_if_def assign_if_def with_op_def
      new_Movie_def sample_data_def cast_data_def num_of_def)

end
